(* ===== verification/Prelude.thy ===== *)
theory Prelude
  imports Main
begin

text \<open>
  Shared vocabulary of the development: the named collection of evaluation rules that
  the concrete board computations use, and the lemmas on lists that every component needs
  when a cell of the board is written (\<open>xs[i := v]\<close>) and the number of marks or of
  empty cells is counted (\<open>count_list\<close>).
\<close>

named_theorems board_eval \<open>rules that evaluate the model on a concrete board\<close>

subsection \<open>Counting after an update\<close>

lemma count_list_pos_iff:
  "0 < count_list xs x \<longleftrightarrow> x \<in> set xs"
  by (metis count_list_0_iff gr0I less_irrefl)

lemma count_list_update:
  "i < length xs \<Longrightarrow>
   count_list (xs[i := y]) x =
     count_list xs x - (if xs ! i = x then 1 else 0) + (if y = x then 1 else 0)"
proof (induction xs arbitrary: i)
  case Nil
  then show ?case by simp
next
  case (Cons a xs)
  then show ?case
  proof (cases i)
    case 0
    then show ?thesis by simp
  next
    case (Suc j)
    with Cons.prems have "j < length xs" by simp
    with Cons.IH [of j] Suc show ?thesis
      by (auto simp flip: count_list_pos_iff dest: nth_mem)
  qed
qed

lemma count_list_update_pos:
  "i < length xs \<Longrightarrow> xs ! i = x \<Longrightarrow> 0 < count_list xs x"
  by (auto simp: count_list_pos_iff dest: nth_mem)

text \<open>Writing a different value over an occurrence removes exactly that occurrence.\<close>

lemma count_list_update_remove [simp]:
  "i < length xs \<Longrightarrow> xs ! i = x \<Longrightarrow> y \<noteq> x \<Longrightarrow>
   count_list (xs[i := y]) x = count_list xs x - 1"
  by (simp add: count_list_update)

lemma count_list_update_less:
  "i < length xs \<Longrightarrow> xs ! i = x \<Longrightarrow> y \<noteq> x \<Longrightarrow>
   count_list (xs[i := y]) x < count_list xs x"
  using count_list_update_pos [of i xs x] by simp

text \<open>Writing a value over a different one adds one occurrence.\<close>

lemma count_list_update_add [simp]:
  "i < length xs \<Longrightarrow> xs ! i \<noteq> x \<Longrightarrow>
   count_list (xs[i := x]) x = Suc (count_list xs x)"
  by (simp add: count_list_update)

lemma count_list_update_other [simp]:
  "i < length xs \<Longrightarrow> xs ! i \<noteq> x \<Longrightarrow> y \<noteq> x \<Longrightarrow>
   count_list (xs[i := y]) x = count_list xs x"
  by (simp add: count_list_update)

text \<open>Undoing a write restores the list (the apply/undo discipline of the search).\<close>

lemma list_update_undo [simp]:
  "xs[i := v, i := xs ! i] = xs"
  by simp

subsection \<open>Running maxima and minima\<close>

text \<open>
  A loop that keeps the larger (smaller) of its accumulator and the next value computes
  the maximum (minimum) of the accumulator and all the values.
\<close>

lemma if_less_max: "(if a < b then b else a) = max a (b::'a::linorder)"
  by (auto simp: max_def)

lemma if_less_min: "(if b < a then b else a) = min a (b::'a::linorder)"
  by (auto simp: min_def)

lemma Max_insert_max:
  "finite A \<Longrightarrow> Max (insert (max a v) A) = Max (insert a (insert v A))"
  by (cases "A = {}") (simp_all add: max.assoc max.left_commute)

lemma Min_insert_min:
  "finite A \<Longrightarrow> Min (insert (min a v) A) = Min (insert a (insert v A))"
  by (cases "A = {}") (simp_all add: min.assoc min.left_commute)

lemma Max_insert_below:
  "finite A \<Longrightarrow> A \<noteq> {} \<Longrightarrow> \<forall>x \<in> A. a \<le> x \<Longrightarrow> Max (insert a A) = Max A"
  by (metis Max_ge_iff Max_insert dual_order.refl max.absorb2)

lemma Min_insert_above:
  "finite A \<Longrightarrow> A \<noteq> {} \<Longrightarrow> \<forall>x \<in> A. x \<le> a \<Longrightarrow> Min (insert a A) = Min A"
  by (metis Min_le_iff Min_insert dual_order.refl min.absorb2)

text \<open>
  A sentinel below (above) all the values does not change their maximum (minimum), and
  the maximum (minimum) of bounded values is bounded.
\<close>

lemma Max_sentinel:
  assumes "finite S" "S \<noteq> {}" "\<forall>j \<in> S. f j = g j \<and> lo \<le> g j \<and> g j \<le> hi"
  shows "Max (insert lo (f ` S)) = Max (g ` S) \<and> lo \<le> Max (g ` S) \<and> Max (g ` S) \<le> (hi::'a::linorder)"
proof -
  from assms(3) have eq: "f ` S = g ` S" by (auto intro: image_cong)
  from assms have lo: "lo \<le> Max (g ` S)" and hi: "Max (g ` S) \<le> hi"
    by (auto simp: Max_ge_iff Max_le_iff)
  from assms have "Max (insert lo (g ` S)) = Max (g ` S)"
    by (intro Max_insert_below) auto
  with eq lo hi show ?thesis by simp
qed

lemma Min_sentinel:
  assumes "finite S" "S \<noteq> {}" "\<forall>j \<in> S. f j = g j \<and> lo \<le> g j \<and> g j \<le> hi"
  shows "Min (insert hi (f ` S)) = Min (g ` S) \<and> lo \<le> Min (g ` S) \<and> Min (g ` S) \<le> (hi::'a::linorder)"
proof -
  from assms(3) have eq: "f ` S = g ` S" by (auto intro: image_cong)
  from assms have lo: "lo \<le> Min (g ` S)" and hi: "Min (g ` S) \<le> hi"
    by (auto simp: Min_ge_iff Min_le_iff)
  from assms have "Min (insert hi (g ` S)) = Min (g ` S)"
    by (intro Min_insert_above) auto
  with eq lo hi show ?thesis by simp
qed

lemma Max_abs_bound:
  "finite S \<Longrightarrow> S \<noteq> {} \<Longrightarrow> \<forall>x \<in> S. \<bar>x\<bar> \<le> c \<Longrightarrow> \<bar>Max S\<bar> \<le> (c::int)"
  using Max_in [of S] by blast

lemma Min_abs_bound:
  "finite S \<Longrightarrow> S \<noteq> {} \<Longrightarrow> \<forall>x \<in> S. \<bar>x\<bar> \<le> c \<Longrightarrow> \<bar>Min S\<bar> \<le> (c::int)"
  using Min_in [of S] by blast

end
