(* ===== verification/Board.thy ===== *)
theory Board
  imports Prelude
begin

text \<open>
  The board of \<open>src/src/Game.js\<close>: an array of nine strings, \<open>"_"\<close> for an empty
  square and \<open>"X"\<close> or \<open>"O"\<close> for a mark, read in row-major order. This theory models
  the two queries on it, \<open>checkWinner\<close> (lines 8--29) and \<open>gameOver\<close> (lines 31--41),
  and proves what they compute: the winning lines of the board, and whether the game is
  over.
\<close>

subsection \<open>Data\<close>

text \<open>
  The three strings the code stores; \<open>Cross\<close> is \<open>"X"\<close> (the human, maximising),
  \<open>Nought\<close> is \<open>"O"\<close> (the bot, minimising).
\<close>

datatype cell = Empty | Cross | Nought

type_synonym board = "cell list"

text \<open>
  The values \<open>checkWinner\<close> returns: \<open>"X"\<close>, \<open>"O"\<close> or \<open>'Draw'\<close>, and
  \<open>undefined\<close> (falling off the end of the function) as \<open>None\<close>.
\<close>

datatype outcome = XWins | OWins | Draw

text \<open>
  JavaScript reads \<open>board[a]\<close> beyond the array as \<open>undefined\<close>, which equals
  neither mark; \<open>cell_at\<close> makes that read total.
\<close>

definition cell_at :: "board \<Rightarrow> nat \<Rightarrow> cell option" where
  "cell_at b i = (if i < length b then Some (b ! i) else None)"

definition winPatterns :: "(nat \<times> nat \<times> nat) list" where
  "winPatterns =
     [(0, 1, 2), (3, 4, 5), (6, 7, 8),
      (0, 3, 6), (1, 4, 7), (2, 5, 8),
      (0, 4, 8), (2, 4, 6)]"

text \<open>
  The \<open>for\<close> loop of \<open>checkWinner\<close> over the patterns, with the two tests of its
  body in the code's order, and the \<open>includes("_")\<close> test after the loop.
\<close>

fun check_patterns :: "(nat \<times> nat \<times> nat) list \<Rightarrow> board \<Rightarrow> outcome option" where
  "check_patterns [] b = (if Empty \<notin> set b then Some Draw else None)"
| "check_patterns ((a, p, c) # ps) b =
     (if cell_at b a = Some Cross \<and> cell_at b a = cell_at b p \<and> cell_at b a = cell_at b c
      then Some XWins
      else if cell_at b a = Some Nought \<and> cell_at b a = cell_at b p \<and> cell_at b a = cell_at b c
      then Some OWins
      else check_patterns ps b)"

definition checkWinner :: "board \<Rightarrow> outcome option" where
  "checkWinner b = check_patterns winPatterns b"

text \<open>
  \<open>gameOver\<close>: the (duplicated) truthiness test of \<open>checkWinner\<close>, then the loop
  that returns \<open>false\<close> at the first empty square and \<open>true\<close> after the last.
\<close>

function all_filled_from :: "board \<Rightarrow> nat \<Rightarrow> bool" where
  "all_filled_from b i =
     (if i < length b then (if b ! i = Empty then False else all_filled_from b (Suc i))
      else True)"
  by pat_completeness auto
termination
  by (relation "measure (\<lambda>(b, i). length b - i)") auto

declare all_filled_from.simps [simp del]

definition gameOver :: "board \<Rightarrow> bool" where
  "gameOver b =
     (if checkWinner b \<noteq> None \<or> checkWinner b \<noteq> None then True
      else all_filled_from b 0)"

subsection \<open>Derived notions\<close>

text \<open>A player owns a line when its three squares hold the player's mark.\<close>

fun is_line :: "cell \<Rightarrow> board \<Rightarrow> nat \<times> nat \<times> nat \<Rightarrow> bool" where
  "is_line m b (a, p, c) \<longleftrightarrow>
     cell_at b a = Some m \<and> cell_at b p = Some m \<and> cell_at b c = Some m"

definition has_line :: "cell \<Rightarrow> board \<Rightarrow> bool" where
  "has_line m b \<longleftrightarrow> (\<exists>pat \<in> set winPatterns. is_line m b pat)"

definition full :: "board \<Rightarrow> bool" where
  "full b \<longleftrightarrow> Empty \<notin> set b"

definition empties :: "board \<Rightarrow> nat" where
  "empties b = count_list b Empty"

definition marks :: "board \<Rightarrow> nat" where
  "marks b = count_list b Cross + count_list b Nought"

declare winPatterns_def [board_eval] cell_at_def [board_eval] checkWinner_def [board_eval]
  gameOver_def [board_eval] empties_def [board_eval]
  full_def [board_eval] is_line.simps [board_eval]

subsection \<open>The loops of the two queries\<close>

lemma all_filled_from_iff:
  "all_filled_from b i \<longleftrightarrow> (\<forall>j. i \<le> j \<and> j < length b \<longrightarrow> b ! j \<noteq> Empty)"
proof (induction b i rule: all_filled_from.induct)
  case (1 b i)
  show ?case
  proof (cases "i < length b")
    case True
    have split: "(\<forall>j. i \<le> j \<and> j < length b \<longrightarrow> b ! j \<noteq> Empty) \<longleftrightarrow>
        b ! i \<noteq> Empty \<and> (\<forall>j. Suc i \<le> j \<and> j < length b \<longrightarrow> b ! j \<noteq> Empty)"
      using True by (metis Suc_leI le_antisym nat_le_linear not_less_eq_eq)
    from True "1.IH" show ?thesis
      by (simp only: all_filled_from.simps [of b i] split) simp
  next
    case False
    then show ?thesis by (auto simp: all_filled_from.simps [of b i])
  qed
qed

lemma all_filled_from_0 [simp]: "all_filled_from b 0 \<longleftrightarrow> full b"
  by (auto simp: all_filled_from_iff full_def in_set_conv_nth)

text \<open>
  The two tests of the loop body of \<open>checkWinner\<close> are the line tests of the two
  marks: the first test fires exactly on a line of crosses, the second on a line of
  noughts.
\<close>

lemma check_patterns_Cons [simp]:
  "check_patterns (pat # ps) b =
     (if is_line Cross b pat then Some XWins
      else if is_line Nought b pat then Some OWins
      else check_patterns ps b)"
  by (cases pat) auto

lemma check_patterns_Nil [simp]:
  "check_patterns [] b = (if full b then Some Draw else None)"
  by (simp add: full_def)

declare check_patterns.simps [simp del] is_line.simps [simp del]

lemma is_line_unique: "is_line m b pat \<Longrightarrow> is_line m' b pat \<Longrightarrow> m = m'"
  by (cases pat) (auto simp: is_line.simps)

lemma check_patterns_no_line:
  "\<forall>pat \<in> set ps. \<not> is_line Cross b pat \<and> \<not> is_line Nought b pat \<Longrightarrow>
   check_patterns ps b = (if full b then Some Draw else None)"
  by (induction ps) auto

lemma check_patterns_only_Cross:
  "\<forall>pat \<in> set ps. \<not> is_line Nought b pat \<Longrightarrow> \<exists>pat \<in> set ps. is_line Cross b pat \<Longrightarrow>
   check_patterns ps b = Some XWins"
proof (induction ps)
  case Nil
  then show ?case by simp
next
  case (Cons pat ps)
  show ?case
  proof (cases "is_line Cross b pat")
    case True
    with Cons.prems(1) show ?thesis by simp
  next
    case False
    with Cons.prems have "\<forall>p \<in> set ps. \<not> is_line Nought b p" "\<exists>p \<in> set ps. is_line Cross b p"
      by auto
    with Cons.IH Cons.prems(1) False show ?thesis by simp
  qed
qed

lemma check_patterns_only_Nought:
  "\<forall>pat \<in> set ps. \<not> is_line Cross b pat \<Longrightarrow> \<exists>pat \<in> set ps. is_line Nought b pat \<Longrightarrow>
   check_patterns ps b = Some OWins"
proof (induction ps)
  case Nil
  then show ?case by simp
next
  case (Cons pat ps)
  show ?case
  proof (cases "is_line Nought b pat")
    case True
    with Cons.prems(1) show ?thesis by simp
  next
    case False
    with Cons.prems have "\<forall>p \<in> set ps. \<not> is_line Cross b p" "\<exists>p \<in> set ps. is_line Nought b p"
      by auto
    with Cons.IH Cons.prems(1) False show ?thesis by simp
  qed
qed

lemma check_patterns_Some_XWins:
  "check_patterns ps b = Some XWins \<Longrightarrow> \<exists>pat \<in> set ps. is_line Cross b pat"
  by (induction ps) (auto split: if_splits)

lemma check_patterns_Some_OWins:
  "check_patterns ps b = Some OWins \<Longrightarrow> \<exists>pat \<in> set ps. is_line Nought b pat"
  by (induction ps) (auto split: if_splits)

lemma check_patterns_None_iff:
  "check_patterns ps b = None \<longleftrightarrow>
     (\<forall>pat \<in> set ps. \<not> is_line Cross b pat \<and> \<not> is_line Nought b pat) \<and> \<not> full b"
  by (induction ps) auto

lemma check_patterns_Draw_iff:
  "check_patterns ps b = Some Draw \<longleftrightarrow>
     (\<forall>pat \<in> set ps. \<not> is_line Cross b pat \<and> \<not> is_line Nought b pat) \<and> full b"
  by (induction ps) auto

lemmas check_patterns_facts =
  check_patterns_Some_XWins check_patterns_Some_OWins check_patterns_None_iff
  check_patterns_Draw_iff

subsection \<open>What the queries compute\<close>

lemma checkWinner_None_iff:
  "checkWinner b = None \<longleftrightarrow> \<not> has_line Cross b \<and> \<not> has_line Nought b \<and> \<not> full b"
  by (auto simp: checkWinner_def has_line_def check_patterns_None_iff)

lemma checkWinner_Draw_iff:
  "checkWinner b = Some Draw \<longleftrightarrow> \<not> has_line Cross b \<and> \<not> has_line Nought b \<and> full b"
  by (auto simp: checkWinner_def has_line_def check_patterns_Draw_iff)

lemma checkWinner_XWins_line: "checkWinner b = Some XWins \<Longrightarrow> has_line Cross b"
  by (auto simp: checkWinner_def has_line_def dest: check_patterns_Some_XWins)

lemma checkWinner_OWins_line: "checkWinner b = Some OWins \<Longrightarrow> has_line Nought b"
  by (auto simp: checkWinner_def has_line_def dest: check_patterns_Some_OWins)

lemma gameOver_checkWinner: "gameOver b \<Longrightarrow> checkWinner b \<noteq> None"
  by (auto simp: gameOver_def checkWinner_None_iff split: if_splits)

lemma not_gameOver_not_full: "\<not> gameOver b \<Longrightarrow> \<not> full b"
  by (auto simp: gameOver_def split: if_splits)

text \<open>A finished game stays finished when a mark is added: lines are kept.\<close>

lemma nth_update_marked:
  "b ! i = Empty \<Longrightarrow> b ! a \<noteq> Empty \<Longrightarrow> b[i := v] ! a = b ! a"
  by (metis nth_list_update_neq)

lemma is_line_update:
  "is_line m b pat \<Longrightarrow> b ! i = Empty \<Longrightarrow> m \<noteq> Empty \<Longrightarrow> is_line m (b[i := v]) pat"
  by (cases pat) (auto simp: is_line.simps cell_at_def nth_update_marked split: if_splits)

lemma has_line_update:
  "has_line m b \<Longrightarrow> b ! i = Empty \<Longrightarrow> m \<noteq> Empty \<Longrightarrow> has_line m (b[i := v])"
  by (auto simp: has_line_def intro: is_line_update)

text \<open>A mark never creates a line of the other player, and an open game has no line.\<close>

lemma nth_update_other: "b[i := v] ! j = m \<Longrightarrow> v \<noteq> m \<Longrightarrow> j < length b \<Longrightarrow> b ! j = m"
  by (cases "i = j") auto

lemma is_line_iff:
  "is_line m b (a, p, c) \<longleftrightarrow> (\<forall>j \<in> {a, p, c}. j < length b \<and> b ! j = m)"
  by (auto simp: is_line.simps cell_at_def split: if_splits)

lemma is_line_update_other: "is_line m (b[i := v]) pat \<Longrightarrow> v \<noteq> m \<Longrightarrow> is_line m b pat"
  by (cases pat) (simp only: is_line_iff length_list_update, metis nth_update_other)

lemma has_line_update_other: "has_line m (b[i := v]) \<Longrightarrow> v \<noteq> m \<Longrightarrow> has_line m b"
  by (auto simp: has_line_def dest: is_line_update_other)

lemma not_gameOver_no_line: "\<not> gameOver b \<Longrightarrow> \<not> has_line Cross b \<and> \<not> has_line Nought b"
  by (simp add: gameOver_def checkWinner_None_iff split: if_splits)

lemma gameOver_update:
  assumes "gameOver b" "i < length b" "b ! i = Empty"
  shows "gameOver (b[i := v])"
proof -
  have "\<not> full b" using assms(2,3) by (auto simp: full_def dest: nth_mem)
  with assms(1) have "has_line Cross b \<or> has_line Nought b"
    by (auto simp: gameOver_def checkWinner_None_iff split: if_splits)
  with assms(3) have "has_line Cross (b[i := v]) \<or> has_line Nought (b[i := v])"
    by (auto intro: has_line_update)
  then show ?thesis by (auto simp: gameOver_def checkWinner_None_iff)
qed

lemma checkWinner_Some_gameOver: "checkWinner b = Some r \<Longrightarrow> gameOver b"
  by (simp add: gameOver_def)

text \<open>Every square holds one of the three values.\<close>

lemma length_counts:
  "length b = count_list b Empty + count_list b Cross + count_list b Nought"
proof (induction b)
  case Nil
  then show ?case by simp
next
  case (Cons c b)
  then show ?case by (cases c) auto
qed

subsection \<open>Properties of the board queries\<close>

text \<open>
  C8. \<open>checkWinner\<close> is right whenever at most one player owns a line: it names the
  owner of a line, reports \<open>'Draw'\<close> on a full board without lines, and returns
  \<open>undefined\<close> while the game goes on. (With lines of both players the first line in
  the order of \<open>winPatterns\<close> decides; see \<open>Game_UI\<close>.)
\<close>

theorem checkWinner_spec:
  "\<not> (has_line Cross b \<and> has_line Nought b) \<Longrightarrow>
   checkWinner b =
     (if has_line Cross b then Some XWins
      else if has_line Nought b then Some OWins
      else if full b then Some Draw else None)"
  by (auto simp: checkWinner_def has_line_def check_patterns_no_line
      intro: check_patterns_only_Cross check_patterns_only_Nought)

theorem checkWinner_spec_witness:
  "\<not> (has_line Cross [Cross, Cross, Cross, Nought, Nought, Empty, Empty, Empty, Empty] \<and>
      has_line Nought [Cross, Cross, Cross, Nought, Nought, Empty, Empty, Empty, Empty]) \<and>
   checkWinner [Cross, Cross, Cross, Nought, Nought, Empty, Empty, Empty, Empty] = Some XWins"
proof -
  have h: "\<not> (has_line Cross [Cross, Cross, Cross, Nought, Nought, Empty, Empty, Empty, Empty] \<and>
      has_line Nought [Cross, Cross, Cross, Nought, Nought, Empty, Empty, Empty, Empty])"
    by (simp add: has_line_def board_eval)
  have "has_line Cross [Cross, Cross, Cross, Nought, Nought, Empty, Empty, Empty, Empty]"
    by (simp add: has_line_def board_eval)
  with checkWinner_spec [OF h] h show ?thesis by simp
qed

text \<open>
  C9. \<open>gameOver\<close> holds exactly when a player owns a line or the board is full: its
  duplicated \<open>checkWinner\<close> test and its scan for \<open>"_"\<close> together decide the end of
  the game.
\<close>

theorem gameOver_iff:
  "gameOver b \<longleftrightarrow> has_line Cross b \<or> has_line Nought b \<or> full b"
  by (auto simp: gameOver_def checkWinner_None_iff)

theorem gameOver_iff_witness:
  "gameOver [Nought, Cross, Cross, Empty, Nought, Empty, Cross, Empty, Nought] \<and>
   has_line Nought [Nought, Cross, Cross, Empty, Nought, Empty, Cross, Empty, Nought]"
proof -
  have "has_line Nought [Nought, Cross, Cross, Empty, Nought, Empty, Cross, Empty, Nought]"
    by (simp add: has_line_def board_eval)
  with gameOver_iff [of "[Nought, Cross, Cross, Empty, Nought, Empty, Cross, Empty, Nought]"]
  show ?thesis by simp
qed

end
