(* ===== verification/Search.thy ===== *)
theory Search
  imports Board
begin

text \<open>
  The search engine of \<open>src/src/Game.js\<close>: \<open>minimax\<close> (lines 44--89) and
  \<open>bestMove\<close> (lines 92--108), with value semantics (each candidate move is a new
  board \<open>b[i := m]\<close>; theory \<open>Inplace\<close> models the code's apply/undo on one shared
  array and proves it equal to this one). Next to them stands the abstract
  specification \<open>game_value\<close>: the game-theoretic value of a position, the maximum
  (for crosses) or minimum (for noughts) of the values of its successors, with the
  code's depth-dependent scores at the end of the game.
\<close>

subsection \<open>The code\<close>

text \<open>Lines 49--59: the score of a finished game at ply \<open>depth\<close>.\<close>

definition terminal_score :: "board \<Rightarrow> nat \<Rightarrow> int" where
  "terminal_score b depth =
     (if checkWinner b = Some XWins then 10 - int depth
      else if checkWinner b = Some OWins then int depth - 10
      else 0)"

text \<open>
  Lines 44--89. The two \<open>for\<close> loops are the functions \<open>max_loop\<close> (even depth,
  crosses move, \<open>best_score\<close> starts at \<open>-20\<close> and is replaced when
  \<open>score > best_score\<close>) and \<open>min_loop\<close> (odd depth, noughts, \<open>20\<close> and
  \<open>score < best_score\<close>).
\<close>

function minimax :: "board \<Rightarrow> nat \<Rightarrow> int"
  and max_loop :: "board \<Rightarrow> nat \<Rightarrow> nat \<Rightarrow> int \<Rightarrow> int"
  and min_loop :: "board \<Rightarrow> nat \<Rightarrow> nat \<Rightarrow> int \<Rightarrow> int" where
  "minimax b depth =
     (if gameOver b then terminal_score b depth
      else if depth mod 2 = 0 then max_loop b depth 0 (-20)
      else min_loop b depth 0 20)"
| "max_loop b depth i best_score =
     (if i < length b then
        (if b ! i = Empty then
           (let score = minimax (b[i := Cross]) (depth + 1)
            in max_loop b depth (i + 1) (if score > best_score then score else best_score))
         else max_loop b depth (i + 1) best_score)
      else best_score)"
| "min_loop b depth i best_score =
     (if i < length b then
        (if b ! i = Empty then
           (let score = minimax (b[i := Nought]) (depth + 1)
            in min_loop b depth (i + 1) (if score < best_score then score else best_score))
         else min_loop b depth (i + 1) best_score)
      else best_score)"
  by pat_completeness auto
termination
  by (relation "measures
        [\<lambda>x. case x of Inl (b, _) \<Rightarrow> empties b | Inr (Inl (b, _)) \<Rightarrow> empties b
                      | Inr (Inr (b, _)) \<Rightarrow> empties b,
         \<lambda>x. case x of Inl _ \<Rightarrow> 1 | Inr _ \<Rightarrow> 0,
         \<lambda>x. case x of Inl _ \<Rightarrow> 0 | Inr (Inl (b, _, i, _)) \<Rightarrow> length b - i
                      | Inr (Inr (b, _, i, _)) \<Rightarrow> length b - i]")
     (auto simp: empties_def count_list_pos_iff dest: nth_mem)

text \<open>
  Lines 92--108. \<open>best_score\<close> starts at \<open>Infinity\<close> (\<open>None\<close> here) and
  \<open>best_move\<close> undefined (\<open>None\<close>); a move replaces them only when its score is
  strictly below, so the first of equally good moves is kept. On a full board the loop
  body never runs and \<open>undefined\<close> is returned: the \<open>None\<close> result.
\<close>

fun below_best :: "int \<Rightarrow> int option \<Rightarrow> bool" where
  "below_best score None = True"
| "below_best score (Some best_score) = (score < best_score)"

function bestMove_loop :: "board \<Rightarrow> nat \<Rightarrow> nat \<Rightarrow> int option \<Rightarrow> nat option \<Rightarrow> nat option" where
  "bestMove_loop b depth i best_score best_move =
     (if i < length b then
        (if b ! i = Empty then
           (let score = minimax (b[i := Nought]) (depth + 1)
            in if below_best score best_score
               then bestMove_loop b depth (i + 1) (Some score) (Some i)
               else bestMove_loop b depth (i + 1) best_score best_move)
         else bestMove_loop b depth (i + 1) best_score best_move)
      else best_move)"
  by pat_completeness auto
termination
  by (relation "measure (\<lambda>(b, _, i, _). length b - i)") auto

definition bestMove :: "board \<Rightarrow> nat \<Rightarrow> nat option" where
  "bestMove b depth = bestMove_loop b depth 0 None None"

subsection \<open>The specification\<close>

text \<open>The legal moves, in ascending order (the spec's \<open>legalMoves\<close>).\<close>

definition moves :: "board \<Rightarrow> nat list" where
  "moves b = filter (\<lambda>i. b ! i = Empty) [0..<length b]"

text \<open>
  The game value: crosses move at even ply and take the best successor for them,
  noughts at odd ply and take the worst for crosses.
\<close>

function game_value :: "board \<Rightarrow> nat \<Rightarrow> int" where
  "game_value b depth =
     (if gameOver b then terminal_score b depth
      else if even depth then Max (set (map (\<lambda>i. game_value (b[i := Cross]) (Suc depth)) (moves b)))
      else Min (set (map (\<lambda>i. game_value (b[i := Nought]) (Suc depth)) (moves b))))"
  by pat_completeness auto
termination
  by (relation "measure (\<lambda>(b, _). empties b)")
     (auto simp: empties_def moves_def count_list_pos_iff dest: nth_mem)

declare minimax.simps [simp del] max_loop.simps [simp del] min_loop.simps [simp del]
  bestMove_loop.simps [simp del] game_value.simps [simp del]

subsection \<open>Shared facts\<close>

text \<open>The empty squares from index \<open>i\<close> on, which a loop started at \<open>i\<close> visits.\<close>

definition open_from :: "board \<Rightarrow> nat \<Rightarrow> nat set" where
  "open_from b i = {j. i \<le> j \<and> j < length b \<and> b ! j = Empty}"

lemma finite_open_from [simp]: "finite (open_from b i)"
  by (rule finite_subset [of _ "{..<length b}"]) (auto simp: open_from_def)

lemma open_from_step:
  "i < length b \<Longrightarrow>
   open_from b i = (if b ! i = Empty then insert i (open_from b (Suc i)) else open_from b (Suc i))"
  by (auto simp: open_from_def le_eq_less_or_eq Suc_le_eq)

lemma open_from_end: "\<not> i < length b \<Longrightarrow> open_from b i = {}"
  by (auto simp: open_from_def)

lemma set_moves: "set (moves b) = open_from b 0"
  by (auto simp: moves_def open_from_def)

lemma moves_nonempty: "\<not> gameOver b \<Longrightarrow> open_from b 0 \<noteq> {}"
  by (auto dest!: not_gameOver_not_full simp: full_def open_from_def in_set_conv_nth)

lemma empties_move:
  "j \<in> open_from b 0 \<Longrightarrow> m \<noteq> Empty \<Longrightarrow> Suc (empties (b[j := m])) = empties b"
  using count_list_update_pos [of j b Empty]
  by (auto simp: open_from_def empties_def)

lemma length_move [simp]: "length (b[j := m]) = length b"
  by simp

lemma terminal_score_bounds:
  "depth \<le> 30 \<Longrightarrow> -20 \<le> terminal_score b depth \<and> terminal_score b depth \<le> 20"
  by (auto simp: terminal_score_def)

subsection \<open>The loops compute a maximum and a minimum\<close>

text \<open>The scores of the successors reached by the marks \<open>m\<close> placed on the squares \<open>S\<close>.\<close>

definition scores :: "(board \<Rightarrow> nat \<Rightarrow> int) \<Rightarrow> cell \<Rightarrow> board \<Rightarrow> nat \<Rightarrow> nat set \<Rightarrow> int set" where
  "scores f m b depth S = (\<lambda>j. f (b[j := m]) (Suc depth)) ` S"

lemma finite_scores [simp]: "finite (scores f m b depth (open_from b i))"
  by (simp add: scores_def)

lemma max_loop_Max:
  "max_loop b depth i best = Max (insert best (scores minimax Cross b depth (open_from b i)))"
proof (induction "length b - i" arbitrary: i best)
  case 0
  then show ?case by (simp add: max_loop.simps [of b depth i] open_from_end scores_def)
next
  case (Suc k)
  then have i: "i < length b" and k: "k = length b - Suc i" by arith+
  show ?case
  proof (cases "b ! i = Empty")
    case True
    let ?s = "minimax (b[i := Cross]) (Suc depth)"
    have "max_loop b depth i best = max_loop b depth (Suc i) (max best ?s)"
      using True i by (simp add: max_loop.simps [of b depth i] Let_def if_less_max)
    also have "\<dots> = Max (insert (max best ?s) (scores minimax Cross b depth (open_from b (Suc i))))"
      by (rule Suc.hyps(1) [OF k])
    also have "\<dots> = Max (insert best (scores minimax Cross b depth (open_from b i)))"
      using True
      by (simp only: open_from_step [OF i] simp_thms(6) if_True scores_def image_insert)
        (simp only: Max_insert_max finite_imageI finite_open_from)
    finally show ?thesis .
  next
    case False
    with i Suc.hyps(1) [OF k] show ?thesis
      by (simp add: max_loop.simps [of b depth i] open_from_step [OF i])
  qed
qed

lemma min_loop_Min:
  "min_loop b depth i best = Min (insert best (scores minimax Nought b depth (open_from b i)))"
proof (induction "length b - i" arbitrary: i best)
  case 0
  then show ?case by (simp add: min_loop.simps [of b depth i] open_from_end scores_def)
next
  case (Suc k)
  then have i: "i < length b" and k: "k = length b - Suc i" by arith+
  show ?case
  proof (cases "b ! i = Empty")
    case True
    let ?s = "minimax (b[i := Nought]) (Suc depth)"
    have "min_loop b depth i best = min_loop b depth (Suc i) (min best ?s)"
      using True i by (simp add: min_loop.simps [of b depth i] Let_def if_less_min)
    also have "\<dots> = Min (insert (min best ?s) (scores minimax Nought b depth (open_from b (Suc i))))"
      by (rule Suc.hyps(1) [OF k])
    also have "\<dots> = Min (insert best (scores minimax Nought b depth (open_from b i)))"
      using True
      by (simp only: open_from_step [OF i] simp_thms(6) if_True scores_def image_insert)
        (simp only: Min_insert_min finite_imageI finite_open_from)
    finally show ?thesis .
  next
    case False
    with i Suc.hyps(1) [OF k] show ?thesis
      by (simp add: min_loop.simps [of b depth i] open_from_step [OF i])
  qed
qed

text \<open>One unfolding of \<open>minimax\<close> on a position that is not over.\<close>

lemma minimax_open:
  "\<not> gameOver b \<Longrightarrow>
   minimax b depth =
     (if even depth then Max (insert (-20) (scores minimax Cross b depth (open_from b 0)))
      else Min (insert 20 (scores minimax Nought b depth (open_from b 0))))"
  by (simp add: minimax.simps [of b depth] min_loop_Min max_loop_Max
      even_iff_mod_2_eq_zero [symmetric])

subsection \<open>Refinement: the search computes the game value\<close>

text \<open>
  The sentinels \<open>-20\<close> and \<open>20\<close> of the loops are harmless as long as every score
  lies between them, which holds while the deepest reachable ply is at most 30:
  the search and the specification then agree, and the value is within the sentinels.
\<close>

lemma minimax_game_value_bounded:
  "depth + empties b \<le> 30 \<Longrightarrow>
   minimax b depth = game_value b depth \<and> -20 \<le> game_value b depth \<and> game_value b depth \<le> 20"
proof (induction b depth rule: game_value.induct)
  case (1 b depth)
  show ?case
  proof (cases "gameOver b")
    case True
    with "1.prems" show ?thesis
      by (simp add: minimax.simps [of b depth] game_value.simps [of b depth] terminal_score_bounds)
  next
    case over: False
    have ne: "open_from b 0 \<noteq> {}" using over by (rule moves_nonempty)
    have child: "Suc depth + empties (b[j := m]) \<le> 30" if "j \<in> open_from b 0" "m \<noteq> Empty" for j m
      using "1.prems" empties_move [OF that] by simp
    show ?thesis
    proof (cases "even depth")
      case True
      have "\<forall>j \<in> open_from b 0. minimax (b[j := Cross]) (Suc depth) = game_value (b[j := Cross]) (Suc depth)
          \<and> -20 \<le> game_value (b[j := Cross]) (Suc depth) \<and> game_value (b[j := Cross]) (Suc depth) \<le> 20"
        using "1.IH"(1) [OF over True] child by (simp add: set_moves)
      from Max_sentinel [OF finite_open_from ne this] over True show ?thesis
        by (simp add: minimax_open game_value.simps [of b depth] scores_def set_moves)
    next
      case False
      have "\<forall>j \<in> open_from b 0. minimax (b[j := Nought]) (Suc depth) = game_value (b[j := Nought]) (Suc depth)
          \<and> -20 \<le> game_value (b[j := Nought]) (Suc depth) \<and> game_value (b[j := Nought]) (Suc depth) \<le> 20"
        using "1.IH"(2) [OF over False] child by (simp add: set_moves)
      from Min_sentinel [OF finite_open_from ne this] over False show ?thesis
        by (simp add: minimax_open game_value.simps [of b depth] scores_def set_moves)
    qed
  qed
qed

lemma game_value_abs_bound:
  "depth + empties b \<le> 10 \<Longrightarrow> \<bar>game_value b depth\<bar> \<le> 10 - int depth"
proof (induction b depth rule: game_value.induct)
  case (1 b depth)
  show ?case
  proof (cases "gameOver b")
    case True
    with "1.prems" show ?thesis
      by (auto simp: game_value.simps [of b depth] terminal_score_def)
  next
    case over: False
    have ne: "open_from b 0 \<noteq> {}" using over by (rule moves_nonempty)
    have child: "Suc depth + empties (b[j := m]) \<le> 10" if "j \<in> open_from b 0" "m \<noteq> Empty" for j m
      using "1.prems" empties_move [OF that] by simp
    show ?thesis
    proof (cases "even depth")
      case True
      have "\<forall>x \<in> (\<lambda>j. game_value (b[j := Cross]) (Suc depth)) ` open_from b 0. \<bar>x\<bar> \<le> 10 - int depth"
        using "1.IH"(1) [OF over True] child by (fastforce simp: set_moves)
      from Max_abs_bound [OF _ _ this] ne over True show ?thesis
        by (simp add: game_value.simps [of b depth] set_moves)
    next
      case False
      have "\<forall>x \<in> (\<lambda>j. game_value (b[j := Nought]) (Suc depth)) ` open_from b 0. \<bar>x\<bar> \<le> 10 - int depth"
        using "1.IH"(2) [OF over False] child by (fastforce simp: set_moves)
      from Min_abs_bound [OF _ _ this] ne over False show ?thesis
        by (simp add: game_value.simps [of b depth] set_moves)
    qed
  qed
qed

subsection \<open>The bot's choice\<close>

text \<open>The score the search gives to the bot's reply on square \<open>j\<close> (line 99).\<close>

definition reply_score :: "board \<Rightarrow> nat \<Rightarrow> nat \<Rightarrow> int" where
  "reply_score b depth j = minimax (b[j := Nought]) (depth + 1)"

lemma below_best_less:
  "below_best a bs \<Longrightarrow> \<not> below_best s bs \<Longrightarrow> a < s"
  by (cases bs) auto

lemma below_best_trans:
  "a < s \<Longrightarrow> below_best s bs \<Longrightarrow> below_best a bs"
  by (cases bs) auto

lemma open_from_Suc_gt: "j \<in> open_from b (Suc i) \<Longrightarrow> i < j"
  by (simp add: open_from_def)

text \<open>
  The loop of \<open>bestMove\<close> from square \<open>i\<close> either keeps what it had, when no square
  from \<open>i\<close> on beats the best score so far, or returns the first square of least score
  among them.
\<close>

lemma bestMove_loop_cases:
  "bestMove_loop b depth i bs bm = r \<Longrightarrow>
   (r = bm \<and> (\<forall>j \<in> open_from b i. \<not> below_best (reply_score b depth j) bs)) \<or>
   (\<exists>m \<in> open_from b i. r = Some m \<and> below_best (reply_score b depth m) bs \<and>
      (\<forall>j \<in> open_from b i. reply_score b depth m \<le> reply_score b depth j) \<and>
      (\<forall>j \<in> open_from b i. j < m \<longrightarrow> reply_score b depth m < reply_score b depth j))"
proof (induction "length b - i" arbitrary: i bs bm)
  case 0
  then show ?case by (simp add: bestMove_loop.simps [of b depth i] open_from_end)
next
  case (Suc k)
  then have i: "i < length b" and k: "k = length b - Suc i" by arith+
  let ?s = "reply_score b depth"
  show ?case
  proof (cases "b ! i = Empty")
    case False
    with Suc.prems Suc.hyps(1) [OF k] i show ?thesis
      by (simp add: bestMove_loop.simps [of b depth i] open_from_step [OF i])
  next
    case True
    have O: "open_from b i = insert i (open_from b (Suc i))"
      using True by (simp add: open_from_step [OF i])
    show ?thesis
    proof (cases "below_best (?s i) bs")
      case below: True
      with True i Suc.prems have "bestMove_loop b depth (Suc i) (Some (?s i)) (Some i) = r"
        by (simp add: bestMove_loop.simps [of b depth i] reply_score_def)
      from Suc.hyps(1) [OF k this] below show ?thesis
        unfolding O
        by (auto dest: open_from_Suc_gt intro: below_best_trans not_le_imp_less
            simp: not_less)
    next
      case above: False
      with True i Suc.prems have "bestMove_loop b depth (Suc i) bs bm = r"
        by (simp add: bestMove_loop.simps [of b depth i] reply_score_def)
      from Suc.hyps(1) [OF k this] above show ?thesis
        unfolding O
        by (auto dest: open_from_Suc_gt below_best_less intro: less_imp_le)
    qed
  qed
qed

lemma open_from_0_empty_iff: "open_from b 0 = {} \<longleftrightarrow> full b"
  by (auto simp: open_from_def full_def in_set_conv_nth)

lemma bestMove_cases:
  "bestMove b depth = r \<Longrightarrow>
   (r = None \<and> full b) \<or>
   (\<exists>m \<in> open_from b 0. r = Some m \<and>
      (\<forall>j \<in> open_from b 0. reply_score b depth m \<le> reply_score b depth j) \<and>
      (\<forall>j \<in> open_from b 0. j < m \<longrightarrow> reply_score b depth m < reply_score b depth j))"
  using bestMove_loop_cases [of b depth 0 None None r]
  by (auto simp: bestMove_def simp flip: open_from_0_empty_iff)

lemma bestMove_Some_open:
  "bestMove b depth = Some m \<Longrightarrow> m \<in> open_from b 0"
  using bestMove_cases [of b depth "Some m"] by auto

lemma Min_scores_reply:
  assumes "bestMove b depth = Some m"
  shows "Min (scores minimax Nought b depth (open_from b 0)) = reply_score b depth m"
proof -
  from assms bestMove_cases [of b depth "Some m"]
  have "m \<in> open_from b 0" "\<forall>j \<in> open_from b 0. reply_score b depth m \<le> reply_score b depth j"
    by auto
  then show ?thesis
    by (intro Min_eqI) (auto simp: scores_def reply_score_def)
qed

text \<open>A cross on any empty square scores at most the maximising loop's result.\<close>

lemma human_child_le:
  assumes "even depth" "\<not> gameOver b" "j \<in> open_from b 0"
  shows "minimax (b[j := Cross]) (Suc depth) \<le> minimax b depth"
proof -
  have "minimax (b[j := Cross]) (Suc depth) \<le> Max (insert (-20) (scores minimax Cross b depth (open_from b 0)))"
    using assms(3) by (intro Max_ge) (auto simp: scores_def)
  also have "\<dots> = minimax b depth"
    using assms(1,2) by (simp add: minimax_open)
  finally show ?thesis .
qed

text \<open>The bot's reply keeps the value of the position.\<close>

lemma bestMove_value:
  assumes "odd depth" "\<not> gameOver b" "depth + empties b \<le> 30"
  shows "\<exists>m. bestMove b depth = Some m \<and> minimax (b[m := Nought]) (depth + 1) = minimax b depth"
proof -
  have ne: "open_from b 0 \<noteq> {}" using assms(2) by (rule moves_nonempty)
  obtain m where m: "bestMove b depth = Some m"
    using bestMove_cases [of b depth "bestMove b depth"] ne open_from_0_empty_iff by auto
  have "-20 \<le> minimax (b[j := Nought]) (Suc depth) \<and> minimax (b[j := Nought]) (Suc depth) \<le> 20"
    if "j \<in> open_from b 0" for j
  proof -
    have "Suc depth + empties (b[j := Nought]) \<le> 30"
      using assms(3) empties_move [OF that, of Nought] by simp
    then show ?thesis using minimax_game_value_bounded by simp
  qed
  then have child: "\<forall>j \<in> open_from b 0. minimax (b[j := Nought]) (Suc depth) = minimax (b[j := Nought]) (Suc depth)
      \<and> -20 \<le> minimax (b[j := Nought]) (Suc depth) \<and> minimax (b[j := Nought]) (Suc depth) \<le> 20"
    by simp
  have "minimax b depth = Min (insert 20 (scores minimax Nought b depth (open_from b 0)))"
    using assms(1,2) by (simp add: minimax_open)
  also have "\<dots> = Min (scores minimax Nought b depth (open_from b 0))"
    using Min_sentinel [OF finite_open_from ne child] by (simp add: scores_def)
  also have "\<dots> = minimax (b[m := Nought]) (depth + 1)"
    using Min_scores_reply [OF m] by (simp add: reply_score_def)
  finally show ?thesis using m by auto
qed

subsection \<open>Properties of the search\<close>

text \<open>
  C1. Refinement: while the deepest ply the search can reach is at most 30 (in the game
  it is at most 9), \<open>minimax\<close> returns the game-theoretic value of the position: the
  loops with their sentinels and strict comparisons compute exactly the maximum over the
  crosses' moves at even ply and the minimum over the noughts' moves at odd ply.
\<close>

theorem minimax_refines_game_value:
  "depth + empties b \<le> 30 \<Longrightarrow> minimax b depth = game_value b depth"
  using minimax_game_value_bounded by blast

theorem minimax_refines_game_value_witness:
  "1 + empties [Cross, Cross, Empty, Nought, Nought, Empty, Nought, Empty, Cross] \<le> 30 \<and>
   minimax [Cross, Cross, Empty, Nought, Nought, Empty, Nought, Empty, Cross] 1 =
   game_value [Cross, Cross, Empty, Nought, Nought, Empty, Nought, Empty, Cross] 1"
  using minimax_refines_game_value [of 1 "[Cross, Cross, Empty, Nought, Nought, Empty, Nought, Empty, Cross]"]
  by (simp add: empties_def)

text \<open>
  C3. Tie-break of \<open>bestMove\<close>: the square it returns is empty, its reply score is
  the least of all empty squares, and every empty square before it scores strictly
  more, so among equally good replies the lowest index is chosen.
\<close>

theorem bestMove_first_minimum:
  "bestMove b depth = Some m \<Longrightarrow>
   m < length b \<and> b ! m = Empty \<and>
   (\<forall>j < length b. b ! j = Empty \<longrightarrow> reply_score b depth m \<le> reply_score b depth j) \<and>
   (\<forall>j < m. b ! j = Empty \<longrightarrow> reply_score b depth m < reply_score b depth j)"
  using bestMove_cases [of b depth "Some m"] by (auto simp: open_from_def)

theorem bestMove_first_minimum_witness:
  "bestMove [Cross, Cross, Empty, Nought, Empty, Empty, Empty, Empty, Empty] 3 = Some 2 \<and>
   2 < length [Cross, Cross, Empty, Nought, Empty, Empty, Empty, Empty, Empty]"
proof -
  have "bestMove [Cross, Cross, Empty, Nought, Empty, Empty, Empty, Empty, Empty] 3 = Some 2"
    by code_simp
  with bestMove_first_minimum [OF this] show ?thesis by simp
qed

text \<open>
  C4. The bot's move is optimal: at odd ply on a position that is not over (and within
  the sentinels' range), \<open>bestMove\<close> returns a square, and the position after the
  bot's nought has the same minimax value as the position before.
\<close>

theorem bestMove_optimal:
  assumes "odd depth" "\<not> gameOver b" "depth + empties b \<le> 30"
  shows "\<exists>m. bestMove b depth = Some m \<and> minimax (b[m := Nought]) (depth + 1) = minimax b depth"
  using bestMove_value [OF assms] .

theorem bestMove_optimal_witness:
  "odd (3::nat) \<and> \<not> gameOver [Cross, Cross, Empty, Nought, Empty, Empty, Empty, Empty, Empty] \<and>
   3 + empties [Cross, Cross, Empty, Nought, Empty, Empty, Empty, Empty, Empty] \<le> 30 \<and>
   (\<exists>m. bestMove [Cross, Cross, Empty, Nought, Empty, Empty, Empty, Empty, Empty] 3 = Some m \<and>
      minimax ([Cross, Cross, Empty, Nought, Empty, Empty, Empty, Empty, Empty][m := Nought]) (3 + 1) =
      minimax [Cross, Cross, Empty, Nought, Empty, Empty, Empty, Empty, Empty] 3)"
proof -
  have h: "odd (3::nat)" "\<not> gameOver [Cross, Cross, Empty, Nought, Empty, Empty, Empty, Empty, Empty]"
    "3 + empties [Cross, Cross, Empty, Nought, Empty, Empty, Empty, Empty, Empty] \<le> 30"
    by (simp_all add: board_eval)
  with bestMove_optimal [OF h] show ?thesis by blast
qed

text \<open>
  C5. The error branch of \<open>bestMove\<close>: it returns \<open>undefined\<close> exactly on a full
  board (the spec's \<open>NoLegalMoveError\<close>), and a square on every other board.
\<close>

theorem bestMove_None_iff: "bestMove b depth = None \<longleftrightarrow> full b"
  using bestMove_cases [of b depth "bestMove b depth"] open_from_0_empty_iff by auto

theorem bestMove_None_iff_witness:
  "bestMove [Cross, Nought, Cross, Cross, Nought, Nought, Nought, Cross, Cross] 9 = None"
  using bestMove_None_iff [of "[Cross, Nought, Cross, Cross, Nought, Nought, Nought, Cross, Cross]" 9]
  by (simp add: full_def)

text \<open>
  C6. Score bounds: from ply \<open>depth\<close> with at most \<open>10 - depth\<close> empty squares (every
  position of the game: ply plus empty squares is 9), the score is at most
  \<open>10 - depth\<close> in absolute value.
\<close>

theorem minimax_abs_bound:
  "depth + empties b \<le> 10 \<Longrightarrow> \<bar>minimax b depth\<bar> \<le> 10 - int depth"
  using minimax_game_value_bounded [of depth b] game_value_abs_bound [of depth b] by simp

theorem minimax_abs_bound_witness:
  "4 + empties [Cross, Cross, Empty, Nought, Nought, Empty, Empty, Empty, Empty] \<le> 10 \<and>
   \<bar>minimax [Cross, Cross, Empty, Nought, Nought, Empty, Empty, Empty, Empty] 4\<bar> \<le> 10 - int 4"
  using minimax_abs_bound [of 4 "[Cross, Cross, Empty, Nought, Nought, Empty, Empty, Empty, Empty]"]
  by (simp add: empties_def)

text \<open>
  C7. The human cannot gain by moving: at even ply, every cross placed on an empty
  square leads to a position whose minimax score is at most the score before (the
  maximising loop keeps the largest child score, whatever the sentinel).
\<close>

theorem human_move_no_gain:
  assumes "even depth" "\<not> gameOver b" "j < length b" "b ! j = Empty"
  shows "minimax (b[j := Cross]) (depth + 1) \<le> minimax b depth"
  using assms by (simp add: human_child_le open_from_def)

theorem human_move_no_gain_witness:
  "even (4::nat) \<and> \<not> gameOver [Cross, Cross, Empty, Nought, Nought, Empty, Empty, Empty, Empty] \<and>
   5 < length [Cross, Cross, Empty, Nought, Nought, Empty, Empty, Empty, Empty] \<and>
   [Cross, Cross, Empty, Nought, Nought, Empty, Empty, Empty, Empty] ! 5 = Empty \<and>
   minimax ([Cross, Cross, Empty, Nought, Nought, Empty, Empty, Empty, Empty][5 := Cross]) (4 + 1) \<le>
   minimax [Cross, Cross, Empty, Nought, Nought, Empty, Empty, Empty, Empty] 4"
proof -
  have h: "even (4::nat)" "\<not> gameOver [Cross, Cross, Empty, Nought, Nought, Empty, Empty, Empty, Empty]"
    "5 < length [Cross, Cross, Empty, Nought, Nought, Empty, Empty, Empty, Empty]"
    "[Cross, Cross, Empty, Nought, Nought, Empty, Empty, Empty, Empty] ! 5 = Empty"
    by (simp_all add: board_eval)
  with human_move_no_gain [OF h] show ?thesis by blast
qed

end
