(* ===== verification/Inplace.thy ===== *)
theory Inplace
  imports Search
begin

text \<open>
  The search as the code runs it: \<open>minimax\<close> (lines 44--89) and \<open>bestMove\<close>
  (lines 92--108) of \<open>src/src/Game.js\<close> share one array. \<open>const newBoard = board\<close>
  copies the reference, not the array; each loop iteration writes a mark into it
  (\<open>newBoard[i] = "X"\<close>), passes the same array to the recursive call, and writes
  \<open>"_"\<close> back afterwards. Here the array is threaded through every call: a call
  returns its score together with the array as it left it, and the loop continues on that
  array. Nothing bounds this recursion a priori (a call that left the array changed could
  make the next one run longer), so it is a \<open>partial_function (option)\<close>: \<open>None\<close>
  would be a call that never returns. The three mutually recursive procedures of the
  source (the function body and its two loops) are the three kinds of call frame.
\<close>

datatype ip_call =
  Minimax_call board nat
| Max_loop_call board nat nat int
| Min_loop_call board nat nat int

partial_function (option) minimax_ip :: "ip_call \<Rightarrow> (int \<times> board) option" where
  "minimax_ip call =
     (case call of
        Minimax_call newBoard depth \<Rightarrow>
          (if gameOver newBoard then Some (terminal_score newBoard depth, newBoard)
           else if depth mod 2 = 0 then minimax_ip (Max_loop_call newBoard depth 0 (-20))
           else minimax_ip (Min_loop_call newBoard depth 0 20))
      | Max_loop_call newBoard depth i best_score \<Rightarrow>
          (if i < length newBoard then
             (if newBoard ! i = Empty then
                Option.bind (minimax_ip (Minimax_call (newBoard[i := Cross]) (depth + 1)))
                  (\<lambda>(score, arr). minimax_ip (Max_loop_call (arr[i := Empty]) depth (i + 1)
                     (if score > best_score then score else best_score)))
              else minimax_ip (Max_loop_call newBoard depth (i + 1) best_score))
           else Some (best_score, newBoard))
      | Min_loop_call newBoard depth i best_score \<Rightarrow>
          (if i < length newBoard then
             (if newBoard ! i = Empty then
                Option.bind (minimax_ip (Minimax_call (newBoard[i := Nought]) (depth + 1)))
                  (\<lambda>(score, arr). minimax_ip (Min_loop_call (arr[i := Empty]) depth (i + 1)
                     (if score < best_score then score else best_score)))
              else minimax_ip (Min_loop_call newBoard depth (i + 1) best_score))
           else Some (best_score, newBoard)))"

text \<open>
  \<open>bestMove\<close> on the caller's array: each candidate nought is written into it, the
  shared-array search runs, and the square is cleared again before the next one.
\<close>

partial_function (option) bestMove_ip_loop ::
  "board \<Rightarrow> nat \<Rightarrow> nat \<Rightarrow> int option \<Rightarrow> nat option \<Rightarrow> (nat option \<times> board) option" where
  "bestMove_ip_loop board depth i best_score best_move =
     (if i < length board then
        (if board ! i = Empty then
           Option.bind (minimax_ip (Minimax_call (board[i := Nought]) (depth + 1)))
             (\<lambda>(score, arr).
                if below_best score best_score
                then bestMove_ip_loop (arr[i := Empty]) depth (i + 1) (Some score) (Some i)
                else bestMove_ip_loop (arr[i := Empty]) depth (i + 1) best_score best_move)
         else bestMove_ip_loop board depth (i + 1) best_score best_move)
      else Some (best_move, board))"

definition bestMove_ip :: "board \<Rightarrow> nat \<Rightarrow> (nat option \<times> board) option" where
  "bestMove_ip board depth = bestMove_ip_loop board depth 0 None None"

subsection \<open>The shared-array search returns, restores the array, and agrees with the value model\<close>

text \<open>Writing \<open>"_"\<close> back over the mark restores the array the loop started from.\<close>

lemma update_restore [simp]: "b ! i = Empty \<Longrightarrow> b[i := m, i := Empty] = b"
  by (metis list_update_id list_update_overwrite)

lemma minimax_ip_pure:
  "minimax_ip (Minimax_call b depth) = Some (minimax b depth, b)"
  "minimax_ip (Max_loop_call b depth i best) = Some (max_loop b depth i best, b)"
  "minimax_ip (Min_loop_call b depth i best) = Some (min_loop b depth i best, b)"
proof (induction b depth and b depth i best and b depth i best rule: minimax_max_loop_min_loop.induct)
  case (1 b depth)
  then show ?case
    by (simp add: minimax_ip.simps [of "Minimax_call b depth"] minimax.simps [of b depth])
next
  case (2 b depth i best)
  then show ?case
    by (simp add: minimax_ip.simps [of "Max_loop_call b depth i best"] max_loop.simps [of b depth i best]
        Let_def del: list_update_overwrite)
next
  case (3 b depth i best)
  then show ?case
    by (simp add: minimax_ip.simps [of "Min_loop_call b depth i best"] min_loop.simps [of b depth i best]
        Let_def del: list_update_overwrite)
qed

lemma bestMove_ip_loop_pure:
  "bestMove_ip_loop b depth i bs bm = Some (bestMove_loop b depth i bs bm, b)"
proof (induction "length b - i" arbitrary: i bs bm)
  case 0
  then show ?case
    by (simp add: bestMove_ip_loop.simps [of b depth i] bestMove_loop.simps [of b depth i])
next
  case (Suc k)
  then have i: "i < length b" and k: "k = length b - Suc i" by arith+
  with Suc.hyps(1) [OF k] show ?case
    by (simp add: bestMove_ip_loop.simps [of b depth i] bestMove_loop.simps [of b depth i]
        minimax_ip_pure Let_def del: list_update_overwrite)
qed

subsection \<open>Properties of the shared-array search\<close>

text \<open>
  C2. The shared-array \<open>minimax\<close> of the code always returns (the partial function is
  never \<open>None\<close>), hands the caller's array back exactly as it was (every
  \<open>newBoard[i] = "_"\<close> undoes its write), and returns the score of the value-semantics
  model \<open>Search.minimax\<close>.
\<close>

theorem minimax_inplace_correct:
  "minimax_ip (Minimax_call b depth) = Some (minimax b depth, b)"
  by (rule minimax_ip_pure(1))

theorem minimax_inplace_correct_witness:
  "minimax_ip (Minimax_call [Cross, Cross, Empty, Nought, Nought, Empty, Empty, Empty, Empty] 4) =
   Some (5, [Cross, Cross, Empty, Nought, Nought, Empty, Empty, Empty, Empty])"
proof -
  have "minimax [Cross, Cross, Empty, Nought, Nought, Empty, Empty, Empty, Empty] 4 = 5"
    by code_simp
  with minimax_inplace_correct [of "[Cross, Cross, Empty, Nought, Nought, Empty, Empty, Empty, Empty]" 4]
  show ?thesis by simp
qed

text \<open>
  C10. The same for \<open>bestMove\<close>: on the caller's array it returns the move of the
  value model and leaves the array unchanged.
\<close>

theorem bestMove_inplace_correct:
  "bestMove_ip b depth = Some (bestMove b depth, b)"
  by (simp add: bestMove_ip_def bestMove_def bestMove_ip_loop_pure)

theorem bestMove_inplace_correct_witness:
  "bestMove_ip [Cross, Nought, Cross, Cross, Nought, Nought, Nought, Cross, Cross] 9 =
   Some (None, [Cross, Nought, Cross, Cross, Nought, Nought, Nought, Cross, Cross])"
proof -
  have "bestMove [Cross, Nought, Cross, Cross, Nought, Nought, Nought, Cross, Cross] 9 = None"
    by code_simp
  with bestMove_inplace_correct [of "[Cross, Nought, Cross, Cross, Nought, Nought, Nought, Cross, Cross]" 9]
  show ?thesis by simp
qed

end
