(* ===== verification/Game_UI.thy ===== *)
theory Game_UI
  imports Search
begin

text \<open>
  The React component \<open>Game\<close> of \<open>src/src/Game.js\<close> as an event machine. Its state is
  the two \<open>useState\<close> cells (lines 5--6): \<open>gameboard\<close>, a reference to an array, and
  \<open>depth\<close>, the ply. The handlers mutate the referenced array in place and hand the same
  reference back to \<open>setGameboard\<close>, and the \<open>setTimeout\<close> callback of the effect
  keeps the reference it saw, so arrays live in an explicit heap (\<open>heap\<close>, indexed by
  reference) and the state records which reference is current. Pending timers are the
  references their closures captured; the messages of the alerts shown so far are a log.

  React runs the effect (lines 131--146) after a render in which \<open>gameboard\<close> or
  \<open>depth\<close> changed, and flushes it right after a click; an event of the machine is
  therefore one handler followed by the chain of effect runs it triggers.
\<close>

record ui =
  heap :: "board list"
  gameboard :: nat
  depth :: nat
  timers :: "nat list"
  alerts :: "string list"

definition cur :: "ui \<Rightarrow> board" where
  "cur s = heap s ! gameboard s"

text \<open>\<open>newBoard[i] = v\<close> on the current array (the reference is unchanged).\<close>

definition set_cur :: "ui \<Rightarrow> board \<Rightarrow> ui" where
  "set_cur s b = s\<lparr>heap := (heap s)[gameboard s := b]\<rparr>"

text \<open>\<open>setGameboard(Array(9).fill("_"))\<close>: a fresh array becomes current.\<close>

definition fresh_board :: "ui \<Rightarrow> ui" where
  "fresh_board s = s\<lparr>heap := heap s @ [replicate 9 Empty], gameboard := length (heap s)\<rparr>"

definition ui_init :: ui where
  "ui_init = \<lparr>heap = [replicate 9 Empty], gameboard = 0, depth = 0, timers = [], alerts = []\<rparr>"

text \<open>Lines 111--116. On \<open>undefined\<close> the write goes to a property named
  \<open>"undefined"\<close>, not to a square: the squares are unchanged.\<close>

definition computerMove :: "ui \<Rightarrow> ui" where
  "computerMove s =
     (case bestMove (cur s) (depth s) of
        Some best_move \<Rightarrow> set_cur s ((cur s)[best_move := Nought])
      | None \<Rightarrow> s)"

text \<open>Lines 118--129.\<close>

definition handleClick :: "ui \<Rightarrow> nat \<Rightarrow> ui" where
  "handleClick s index =
     (if cur s ! index \<noteq> Empty then s
      else (set_cur s ((cur s)[index := (if depth s mod 2 = 0 then Cross else Nought)]))
             \<lparr>depth := depth s + 1\<rparr>)"

text \<open>Lines 131--146, the body of the effect: schedule the end-of-game timer, or let
  the bot move at odd ply.\<close>

definition effect :: "ui \<Rightarrow> ui" where
  "effect s =
     (if gameOver (cur s) then s\<lparr>timers := timers s @ [gameboard s]\<rparr>
      else if depth s mod 2 \<noteq> 0 then (computerMove s)\<lparr>depth := depth s + 1\<rparr>
      else s)"

text \<open>Line 136: the message of the alert. \<open>checkWinner\<close> returns the strings
  \<open>"X"\<close>, \<open>"O"\<close>, \<open>"Draw"\<close> or \<open>undefined\<close>, which a template literal prints as
  \<open>"undefined"\<close>.\<close>

fun winner_str :: "outcome option \<Rightarrow> string" where
  "winner_str (Some XWins) = ''X''"
| "winner_str (Some OWins) = ''O''"
| "winner_str (Some Draw) = ''Draw''"
| "winner_str None = ''undefined''"

definition alert_text :: "outcome option \<Rightarrow> string" where
  "alert_text winner =
     (if winner_str winner = ''Draw'' then ''It's a draw!'' else winner_str winner @ '' wins!'')"

text \<open>Lines 134--139, the timer callback: alert the winner of the array it captured,
  then start a new game. The two state updates of the callback are taken as one render,
  as React 18 batches updates made in a timeout; React 17 would render between
  \<open>setGameboard\<close> and \<open>setDepth\<close>.\<close>

definition timeout_fire :: "ui \<Rightarrow> ui" where
  "timeout_fire s =
     (case timers s of
        [] \<Rightarrow> s
      | r # rs \<Rightarrow>
          (fresh_board (s\<lparr>timers := rs, alerts := alerts s @ [alert_text (checkWinner (heap s ! r))]\<rparr>))
            \<lparr>depth := 0\<rparr>)"

text \<open>Line 188, the Reset button.\<close>

definition reset_button :: "ui \<Rightarrow> ui" where
  "reset_button s = (fresh_board s)\<lparr>depth := 0\<rparr>"

text \<open>
  The effect runs again while its dependencies \<open>[gameboard, depth]\<close> change (React
  compares the array by reference). Two runs always suffice (lemma
  \<open>settle_two_runs\<close>); the fuel of three is one more than needed.
\<close>

fun settle :: "nat \<Rightarrow> ui \<Rightarrow> ui \<Rightarrow> ui" where
  "settle 0 old s = s"
| "settle (Suc n) old s =
     (if gameboard s = gameboard old \<and> depth s = depth old then s
      else settle n s (effect s))"

declare settle.simps(2) [simp del]

datatype event = Click nat | Timeout | ResetClick

fun ui_step :: "ui \<Rightarrow> event \<Rightarrow> ui" where
  "ui_step s (Click index) = settle 3 s (handleClick s index)"
| "ui_step s Timeout = settle 3 s (timeout_fire s)"
| "ui_step s ResetClick = settle 3 s (reset_button s)"

text \<open>
  Lines 156--191, the markup the component returns: the title, the nine cells, each
  showing \<open>gameboard[i]\<close> with an \<open>onClick\<close> that sends \<open>handleClick(gameboard, i)\<close>,
  and the Reset button. Each handler is recorded as the event it raises.
\<close>

record view =
  title :: string
  cells :: "(cell \<times> event) list"
  button :: "string \<times> event"

definition render :: "ui \<Rightarrow> view" where
  "render s = \<lparr>title = ''Tic Tac Toe'', cells = map (\<lambda>i. (cur s ! i, Click i)) [0..<9],
               button = (''Reset'', ResetClick)\<rparr>"

text \<open>The events the user and the timers can raise: a click on a rendered cell or
  button, or a pending timer (line 134) firing.\<close>

fun enabled :: "ui \<Rightarrow> event \<Rightarrow> bool" where
  "enabled s (Click index) = (Click index \<in> snd ` set (cells (render s)))"
| "enabled s Timeout = (timers s \<noteq> [])"
| "enabled s ResetClick = (snd (button (render s)) = ResetClick)"

declare enabled.simps [simp del]

inductive reachable :: "ui \<Rightarrow> bool" where
  init: "reachable ui_init"
| step: "reachable s \<Longrightarrow> enabled s e \<Longrightarrow> reachable (ui_step s e)"

text \<open>A game played by a sequence of clicks, up to its end (the timer then resets it).\<close>

fun play :: "ui \<Rightarrow> nat list \<Rightarrow> ui" where
  "play s [] = s"
| "play s (index # clicks) = (if gameOver (cur s) then s else play (ui_step s (Click index)) clicks)"

text \<open>A sequence of events, in the order they happen.\<close>

fun run :: "ui \<Rightarrow> event list \<Rightarrow> ui" where
  "run s [] = s"
| "run s (e # es) = run (ui_step s e) es"

text \<open>The mark of the player to move at ply \<open>d\<close>.\<close>

definition to_move :: "nat \<Rightarrow> cell" where
  "to_move d = (if even d then Cross else Nought)"

subsection \<open>The invariant\<close>

text \<open>
  \<open>ui_wf\<close>: every array has nine squares, every reference points into the heap, and the
  current array holds \<open>\<lceil>depth/2\<rceil>\<close> crosses and \<open>\<lfloor>depth/2\<rfloor>\<close> noughts (so
  \<open>depth\<close> counts the marks, as the spec requires of the ply). \<open>turn_ok\<close>: while the
  game is on, it is the human's turn once the effects have run.
\<close>

definition ui_wf :: "ui \<Rightarrow> bool" where
  "ui_wf s \<longleftrightarrow>
     (\<forall>a \<in> set (heap s). length a = 9) \<and> gameboard s < length (heap s) \<and>
     (\<forall>r \<in> set (timers s). r < length (heap s)) \<and>
     count_list (cur s) Cross = (depth s + 1) div 2 \<and> count_list (cur s) Nought = depth s div 2"

definition turn_ok :: "ui \<Rightarrow> bool" where
  "turn_ok s \<longleftrightarrow> (\<not> gameOver (cur s) \<longrightarrow> even (depth s))"

definition consistent :: "ui \<Rightarrow> bool" where
  "consistent s \<longleftrightarrow> ui_wf s \<and> turn_ok s"

text \<open>
  \<open>frame s s'\<close>: what a click and the effects it triggers leave alone. The current
  reference and the alerts stay, no array is allocated, the arrays other than the current
  one are untouched, and timers are only appended.
\<close>

definition frame :: "ui \<Rightarrow> ui \<Rightarrow> bool" where
  "frame s s' \<longleftrightarrow>
     gameboard s' = gameboard s \<and> alerts s' = alerts s \<and> length (heap s') = length (heap s) \<and>
     (\<forall>r. r \<noteq> gameboard s \<longrightarrow> heap s' ! r = heap s ! r) \<and> (\<exists>xs. timers s' = timers s @ xs)"

text \<open>\<open>pending s\<close>: a finished current game has a timer on its array.\<close>

definition pending :: "ui \<Rightarrow> bool" where
  "pending s \<longleftrightarrow> (gameOver (cur s) \<longrightarrow> gameboard s \<in> set (timers s))"

text \<open>\<open>alerts_ok s\<close>: every pending timer captured a finished game, and every alert
  shown so far is one of the three messages of a finished game.\<close>

definition alerts_ok :: "ui \<Rightarrow> bool" where
  "alerts_ok s \<longleftrightarrow>
     (\<forall>r \<in> set (timers s). gameOver (heap s ! r)) \<and>
     (\<forall>a \<in> set (alerts s). a = ''X wins!'' \<or> a = ''O wins!'' \<or> a = ''It's a draw!'')"


lemma enabled_events [simp]:
  "enabled s (Click index) = (index < 9)"
  "enabled s Timeout = (timers s \<noteq> [])"
  "enabled s ResetClick"
  by (auto simp: enabled.simps render_def image_iff)

lemma wf_length_cur: "ui_wf s \<Longrightarrow> length (cur s) = 9"
  by (simp add: ui_wf_def cur_def)

lemma cur_set_cur [simp]: "gameboard s < length (heap s) \<Longrightarrow> cur (set_cur s b) = b"
  by (simp add: cur_def set_cur_def)

lemma cur_field_updates [simp]:
  "cur (s\<lparr>depth := d\<rparr>) = cur s" "cur (s\<lparr>timers := t\<rparr>) = cur s"
  "cur (s\<lparr>alerts := a\<rparr>) = cur s"
  by (simp_all add: cur_def)

lemma set_cur_fields [simp]:
  "gameboard (set_cur s b) = gameboard s" "depth (set_cur s b) = depth s"
  "timers (set_cur s b) = timers s" "length (heap (set_cur s b)) = length (heap s)"
  by (simp_all add: set_cur_def)

text \<open>Placing the mark of the player to move keeps the counts.\<close>

lemma wf_place:
  assumes "ui_wf s" "i < 9" "cur s ! i = Empty"
  shows "ui_wf ((set_cur s ((cur s)[i := to_move (depth s)]))\<lparr>depth := Suc (depth s)\<rparr>)"
proof -
  have i: "i < length (cur s)" using assms(1,2) wf_length_cur by simp
  from assms(1) have c: "count_list (cur s) Cross = (depth s + 1) div 2"
    "count_list (cur s) Nought = depth s div 2" by (simp_all add: ui_wf_def)
  have "count_list ((cur s)[i := to_move (depth s)]) Cross = (Suc (depth s) + 1) div 2 \<and>
        count_list ((cur s)[i := to_move (depth s)]) Nought = Suc (depth s) div 2"
    using i assms(3) c by (cases "even (depth s)") (auto simp: to_move_def elim!: evenE oddE)
  with assms(1) show ?thesis
    by (auto simp: ui_wf_def set_cur_def cur_def dest: set_update_subset_insert [THEN subsetD])
qed

lemma wf_fresh_board: "ui_wf s \<Longrightarrow> ui_wf ((fresh_board s)\<lparr>depth := 0\<rparr>)"
  by (auto simp: ui_wf_def fresh_board_def cur_def nth_append)

lemma handleClick_to_move:
  "handleClick s index =
     (if cur s ! index \<noteq> Empty then s
      else (set_cur s ((cur s)[index := to_move (depth s)]))\<lparr>depth := Suc (depth s)\<rparr>)"
  by (simp add: handleClick_def to_move_def even_iff_mod_2_eq_zero)

lemma wf_handleClick: "ui_wf s \<Longrightarrow> index < 9 \<Longrightarrow> ui_wf (handleClick s index)"
  by (simp add: handleClick_to_move wf_place)

lemma wf_timers_tl: "ui_wf s \<Longrightarrow> timers s = r # rs \<Longrightarrow> ui_wf (s\<lparr>timers := rs, alerts := a\<rparr>)"
  by (simp add: ui_wf_def cur_def)

text \<open>The bot's move: on a position that is not over at odd ply, \<open>bestMove\<close> finds an
  empty square and the effect puts the nought there.\<close>

lemma effect_bot_move:
  assumes "ui_wf s" "\<not> gameOver (cur s)" "odd (depth s)"
  shows "\<exists>m. m < 9 \<and> cur s ! m = Empty \<and> bestMove (cur s) (depth s) = Some m \<and>
     effect s = (set_cur s ((cur s)[m := to_move (depth s)]))\<lparr>depth := Suc (depth s)\<rparr>"
proof -
  have "\<not> full (cur s)" using assms(2) by (rule not_gameOver_not_full)
  then obtain m where m: "bestMove (cur s) (depth s) = Some m" "m \<in> open_from (cur s) 0"
    using bestMove_cases [of "cur s" "depth s" "bestMove (cur s) (depth s)"] by auto
  with assms show ?thesis
    by (auto simp: effect_def computerMove_def to_move_def open_from_def wf_length_cur)
qed

lemma wf_effect: "ui_wf s \<Longrightarrow> ui_wf (effect s)"
proof (cases "\<not> gameOver (cur s) \<and> odd (depth s)")
  case True
  assume "ui_wf s"
  with True obtain m where "m < 9" "cur s ! m = Empty"
    "effect s = (set_cur s ((cur s)[m := to_move (depth s)]))\<lparr>depth := Suc (depth s)\<rparr>"
    using effect_bot_move by blast
  with \<open>ui_wf s\<close> show ?thesis by (simp add: wf_place)
next
  case False
  assume "ui_wf s"
  with False show ?thesis by (auto simp: effect_def ui_wf_def cur_def)
qed

text \<open>On the human's turn the effect only schedules timers; otherwise it moves for the bot
  and hands the turn back.\<close>

lemma effect_turn_ok:
  "turn_ok s \<Longrightarrow> gameboard (effect s) = gameboard s \<and> depth (effect s) = depth s \<and>
     cur (effect s) = cur s"
  by (auto simp: effect_def turn_ok_def cur_def)

lemma effect_fixes_turn:
  "ui_wf s \<Longrightarrow> \<not> turn_ok s \<Longrightarrow> turn_ok (effect s) \<and> depth (effect s) = Suc (depth s)"
  using effect_bot_move [of s] by (auto simp: turn_ok_def ui_wf_def)

lemma settle_same [simp]:
  "gameboard s = gameboard old \<Longrightarrow> depth s = depth old \<Longrightarrow> settle (Suc n) old s = s"
  by (simp add: settle.simps(2))

lemma settle_changed:
  "depth s \<noteq> depth old \<Longrightarrow> settle (Suc n) old s = settle n s (effect s)"
  by (simp add: settle.simps(2))

lemma settle_keeps:
  "ui_wf s \<Longrightarrow> turn_ok s \<Longrightarrow> ui_wf (settle n old s) \<and> turn_ok (settle n old s)"
proof (induction n arbitrary: old s)
  case 0
  then show ?case by simp
next
  case (Suc n)
  have "ui_wf (effect s)" "turn_ok (effect s)"
    using Suc.prems wf_effect effect_turn_ok [of s] by (auto simp: turn_ok_def)
  with Suc.IH Suc.prems show ?case by (simp add: settle.simps(2))
qed

lemma settle_fixes:
  "ui_wf s \<Longrightarrow> \<not> turn_ok s \<Longrightarrow> depth s \<noteq> depth old \<Longrightarrow>
   ui_wf (settle (Suc (Suc n)) old s) \<and> turn_ok (settle (Suc (Suc n)) old s)"
  using settle_keeps [of "effect s" "Suc n" s] wf_effect [of s] effect_fixes_turn [of s]
  by (simp add: settle_changed)

text \<open>
  C17. The effect chain stabilises: from a well-formed state, two runs of the effect reach
  a state whose dependencies stay put (the first may move for the bot, the second only
  schedules a timer), so any fuel from three on gives the result of fuel three.
\<close>

theorem settle_two_runs:
  assumes "ui_wf s"
  shows "settle (Suc (Suc (Suc n))) old s = settle 3 old s"
proof (cases "gameboard s = gameboard old \<and> depth s = depth old")
  case True
  then show ?thesis by (simp add: numeral_3_eq_3)
next
  case changed: False
  show ?thesis
  proof (cases "turn_ok s")
    case True
    then have "gameboard (effect s) = gameboard s" "depth (effect s) = depth s"
      using effect_turn_ok [of s] by simp_all
    with changed show ?thesis by (auto simp: numeral_3_eq_3 settle.simps(2))
  next
    case False
    with assms have t: "turn_ok (effect s)" "depth (effect s) = Suc (depth s)"
      using effect_fixes_turn by blast+
    then have "gameboard (effect (effect s)) = gameboard (effect s)"
      "depth (effect (effect s)) = depth (effect s)"
      using effect_turn_ok [of "effect s"] by simp_all
    with changed t show ?thesis by (auto simp: numeral_3_eq_3 settle.simps(2))
  qed
qed

theorem settle_two_runs_witness:
  "ui_wf ui_init \<and>
   settle (Suc (Suc (Suc 2))) ui_init (reset_button ui_init) = settle 3 ui_init (reset_button ui_init)"
proof -
  have h: "ui_wf (reset_button ui_init)" and w: "ui_wf ui_init"
    by (simp_all add: ui_wf_def ui_init_def reset_button_def fresh_board_def cur_def)
  from settle_two_runs [OF h, of 2 ui_init] w show ?thesis by simp
qed

lemma consistent_step:
  assumes "consistent s" "enabled s e"
  shows "consistent (ui_step s e)"
proof (cases e)
  case (Click index)
  let ?s1 = "handleClick s index"
  have wf1: "ui_wf ?s1" using assms Click by (simp add: consistent_def wf_handleClick)
  show ?thesis
  proof (cases "turn_ok ?s1")
    case True
    with wf1 Click show ?thesis by (simp add: consistent_def settle_keeps)
  next
    case False
    with assms(1) have "depth ?s1 \<noteq> depth s"
      by (auto simp: handleClick_to_move consistent_def split: if_splits)
    with wf1 False settle_fixes [of ?s1 s 1] Click show ?thesis
      by (simp add: consistent_def numeral_3_eq_3)
  qed
next
  case Timeout
  with assms obtain r rs where rs: "timers s = r # rs" by (cases "timers s") auto
  have "ui_wf (timeout_fire s)"
    using assms(1) rs by (simp add: consistent_def timeout_fire_def wf_timers_tl wf_fresh_board)
  moreover have "turn_ok (timeout_fire s)"
    using rs by (simp add: timeout_fire_def turn_ok_def fresh_board_def)
  ultimately show ?thesis using Timeout by (simp add: consistent_def settle_keeps)
next
  case ResetClick
  have "ui_wf (reset_button s)"
    using assms(1) by (simp add: consistent_def reset_button_def wf_fresh_board)
  moreover have "turn_ok (reset_button s)"
    by (simp add: reset_button_def turn_ok_def fresh_board_def)
  ultimately show ?thesis using ResetClick by (simp add: consistent_def settle_keeps)
qed

lemma consistent_init: "consistent ui_init"
  by (simp add: consistent_def ui_wf_def turn_ok_def ui_init_def cur_def)

lemma reachable_consistent: "reachable s \<Longrightarrow> consistent s"
  by (induction rule: reachable.induct) (simp_all add: consistent_init consistent_step)

lemma wf_empties: "ui_wf s \<Longrightarrow> depth s + empties (cur s) = 9"
  using length_counts [of "cur s"] wf_length_cur [of s] by (simp add: ui_wf_def empties_def)

subsection \<open>What a click does\<close>

lemma click_occupied: "cur s ! index \<noteq> Empty \<Longrightarrow> ui_step s (Click index) = s"
  by (simp add: handleClick_def numeral_3_eq_3)

text \<open>
  A click on an empty square of a game in progress: the human's cross, and, unless that
  ends the game, the bot's nought on the square \<open>bestMove\<close> chose, one effect run later.
\<close>

lemma click_round:
  assumes "consistent s" "\<not> gameOver (cur s)" "index < 9" "cur s ! index = Empty"
  defines "b1 \<equiv> (cur s)[index := Cross]"
  shows "(gameOver b1 \<and> cur (ui_step s (Click index)) = b1 \<and> depth (ui_step s (Click index)) = Suc (depth s)) \<or>
         (\<not> gameOver b1 \<and> (\<exists>m. bestMove b1 (Suc (depth s)) = Some m \<and>
            cur (ui_step s (Click index)) = b1[m := Nought] \<and>
            depth (ui_step s (Click index)) = Suc (Suc (depth s))))"
proof -
  let ?s1 = "(set_cur s b1)\<lparr>depth := Suc (depth s)\<rparr>"
  have even: "even (depth s)" using assms(1,2) by (simp add: consistent_def turn_ok_def)
  have wf: "ui_wf s" using assms(1) by (simp add: consistent_def)
  have g: "gameboard s < length (heap s)" using wf by (simp add: ui_wf_def)
  have s1: "handleClick s index = ?s1"
    using assms(4) even by (simp add: handleClick_to_move to_move_def b1_def)
  have wf1: "ui_wf ?s1" using wf_place [OF wf assms(3,4)] even by (simp add: to_move_def b1_def)
  have step: "ui_step s (Click index) = settle 2 ?s1 (effect ?s1)"
    using s1 by (simp add: numeral_3_eq_3 numeral_2_eq_2 settle_changed)
  show ?thesis
  proof (cases "gameOver b1")
    case True
    then have "turn_ok ?s1" using g by (simp add: turn_ok_def)
    with True g step show ?thesis
      by (simp add: effect_turn_ok settle_same numeral_2_eq_2)
  next
    case False
    with g even have "\<not> turn_ok ?s1" "odd (depth ?s1)" "\<not> gameOver (cur ?s1)"
      by (simp_all add: turn_ok_def)
    from effect_bot_move [OF wf1 this(3,2)] obtain m where m: "bestMove b1 (Suc (depth s)) = Some m"
      "effect ?s1 = (set_cur ?s1 (b1[m := Nought]))\<lparr>depth := Suc (Suc (depth s))\<rparr>"
      using g even by (auto simp: to_move_def)
    let ?s2 = "(set_cur ?s1 (b1[m := Nought]))\<lparr>depth := Suc (Suc (depth s))\<rparr>"
    have "turn_ok ?s2" using g even by (simp add: turn_ok_def)
    with m step g False show ?thesis
      by (simp add: numeral_2_eq_2 settle_changed effect_turn_ok)
  qed
qed

lemma click_late:
  assumes "consistent s" "gameOver (cur s)" "index < 9" "cur s ! index = Empty"
  shows "ui_step s (Click index) =
           (set_cur s ((cur s)[index := to_move (depth s)]))
             \<lparr>depth := Suc (depth s), timers := timers s @ [gameboard s]\<rparr>"
proof -
  let ?s1 = "(set_cur s ((cur s)[index := to_move (depth s)]))\<lparr>depth := Suc (depth s)\<rparr>"
  have wf: "ui_wf s" using assms(1) by (simp add: consistent_def)
  have g: "gameboard s < length (heap s)" using wf by (simp add: ui_wf_def)
  have over: "gameOver (cur ?s1)"
    using gameOver_update [OF assms(2) _ assms(4)] assms(3) wf_length_cur [OF wf] g by simp
  then have "turn_ok ?s1" by (simp add: turn_ok_def)
  with over g assms(4) show ?thesis
    by (simp add: handleClick_to_move numeral_3_eq_3 settle_changed effect_turn_ok
        effect_def)
qed

text \<open>One round of play never raises the value of the position for the human.\<close>

lemma round_value:
  assumes "consistent s" "\<not> gameOver (cur s)" "index < 9"
  shows "minimax (cur (ui_step s (Click index))) (depth (ui_step s (Click index))) \<le>
         minimax (cur s) (depth s)"
proof (cases "cur s ! index = Empty")
  case False
  from click_occupied [OF False] show ?thesis by simp
next
  case True
  let ?b1 = "(cur s)[index := Cross]"
  have wf: "ui_wf s" and even: "even (depth s)"
    using assms(1,2) by (simp_all add: consistent_def turn_ok_def)
  have j: "index \<in> open_from (cur s) 0"
    using True assms(3) wf_length_cur [OF wf] by (simp add: open_from_def)
  have human: "minimax ?b1 (Suc (depth s)) \<le> minimax (cur s) (depth s)"
    using human_child_le [OF even assms(2) j] .
  have room: "Suc (depth s) + empties ?b1 \<le> 30"
    using wf_empties [OF wf] empties_move [OF j, of Cross] by simp
  from click_round [OF assms True] show ?thesis
  proof
    assume "gameOver ?b1 \<and> cur (ui_step s (Click index)) = ?b1 \<and>
      depth (ui_step s (Click index)) = Suc (depth s)"
    with human show ?thesis by simp
  next
    assume "\<not> gameOver ?b1 \<and> (\<exists>m. bestMove ?b1 (Suc (depth s)) = Some m \<and>
      cur (ui_step s (Click index)) = ?b1[m := Nought] \<and>
      depth (ui_step s (Click index)) = Suc (Suc (depth s)))"
    then obtain m where over: "\<not> gameOver ?b1" and m: "bestMove ?b1 (Suc (depth s)) = Some m"
      and st: "cur (ui_step s (Click index)) = ?b1[m := Nought]"
        "depth (ui_step s (Click index)) = Suc (Suc (depth s))" by blast
    have "odd (Suc (depth s))" using even by simp
    from bestMove_value [OF this over room] m
    have "minimax (?b1[m := Nought]) (Suc (Suc (depth s))) = minimax ?b1 (Suc (depth s))" by simp
    with st human show ?thesis by simp
  qed
qed

lemma play_value:
  "consistent s \<Longrightarrow> \<forall>i \<in> set clicks. i < 9 \<Longrightarrow>
   consistent (play s clicks) \<and> minimax (cur (play s clicks)) (depth (play s clicks)) \<le> minimax (cur s) (depth s)"
proof (induction clicks arbitrary: s)
  case Nil
  then show ?case by simp
next
  case (Cons i clicks)
  show ?case
  proof (cases "gameOver (cur s)")
    case True
    with Cons.prems show ?thesis by simp
  next
    case False
    have "consistent (ui_step s (Click i))"
      using Cons.prems consistent_step [of s "Click i"] by simp
    with Cons.IH [of "ui_step s (Click i)"] Cons.prems round_value [of s i] False
    show ?thesis by fastforce
  qed
qed

text \<open>Marks stay: a click never empties a square, and the clicked square is marked.\<close>

lemma update_keeps_mark: "b ! j \<noteq> Empty \<Longrightarrow> v \<noteq> Empty \<Longrightarrow> b[i := v] ! j \<noteq> Empty"
  by (metis list_update_beyond nth_list_update_eq nth_list_update_neq not_le)

lemma click_marks:
  assumes "consistent s" "\<not> gameOver (cur s)" "index < 9"
  shows "cur (ui_step s (Click index)) ! index \<noteq> Empty \<and>
         (\<forall>j. cur s ! j \<noteq> Empty \<longrightarrow> cur (ui_step s (Click index)) ! j \<noteq> Empty)"
proof (cases "cur s ! index = Empty")
  case False
  then show ?thesis using click_occupied [OF False] by simp
next
  case True
  have len: "index < length (cur s)"
    using assms(1,3) wf_length_cur by (simp add: consistent_def)
  then have x: "(cur s)[index := Cross] ! index \<noteq> Empty" by simp
  have keep: "(cur s)[index := Cross] ! j \<noteq> Empty" if "cur s ! j \<noteq> Empty" for j
    using update_keeps_mark [OF that] by simp
  from click_round [OF assms True] show ?thesis
  proof
    assume "gameOver ((cur s)[index := Cross]) \<and> cur (ui_step s (Click index)) = (cur s)[index := Cross] \<and>
      depth (ui_step s (Click index)) = Suc (depth s)"
    with x keep show ?thesis by simp
  next
    assume "\<not> gameOver ((cur s)[index := Cross]) \<and> (\<exists>m. bestMove ((cur s)[index := Cross]) (Suc (depth s)) = Some m \<and>
      cur (ui_step s (Click index)) = (cur s)[index := Cross, m := Nought] \<and>
      depth (ui_step s (Click index)) = Suc (Suc (depth s)))"
    then obtain m where "cur (ui_step s (Click index)) = (cur s)[index := Cross, m := Nought]" by blast
    with x keep show ?thesis by (simp add: update_keeps_mark)
  qed
qed

lemma play_marks:
  "consistent s \<Longrightarrow> \<forall>i \<in> set clicks. i < 9 \<Longrightarrow>
   gameOver (cur (play s clicks)) \<or>
   (\<forall>j. (j \<in> set clicks \<or> cur s ! j \<noteq> Empty) \<longrightarrow> cur (play s clicks) ! j \<noteq> Empty)"
proof (induction clicks arbitrary: s)
  case Nil
  then show ?case by simp
next
  case (Cons i clicks)
  show ?case
  proof (cases "gameOver (cur s)")
    case True
    then show ?thesis by simp
  next
    case False
    have c: "consistent (ui_step s (Click i))"
      using Cons.prems consistent_step [of s "Click i"] by simp
    from click_marks [OF Cons.prems(1) False] Cons.prems(2)
    have "cur (ui_step s (Click i)) ! i \<noteq> Empty"
      "\<forall>j. cur s ! j \<noteq> Empty \<longrightarrow> cur (ui_step s (Click i)) ! j \<noteq> Empty" by auto
    with Cons.IH [OF c] Cons.prems(2) False show ?thesis by auto
  qed
qed

text \<open>A won game of the human scores \<open>10 - depth > 0\<close>.\<close>

lemma x_win_positive:
  assumes "consistent r" "checkWinner (cur r) = Some XWins"
  shows "0 < minimax (cur r) (depth r)"
proof -
  have "depth r \<le> 9" using wf_empties [of r] assms(1) by (simp add: consistent_def)
  moreover have "minimax (cur r) (depth r) = 10 - int (depth r)"
    using assms(2) checkWinner_Some_gameOver [OF assms(2)]
    by (simp add: minimax.simps [of "cur r"] terminal_score_def)
  ultimately show ?thesis by simp
qed

lemma full_gameOver: "full b \<Longrightarrow> gameOver b"
  by (simp add: gameOver_def)

lemma settle_numeral:
  "settle (numeral k) old s =
     (if gameboard s = gameboard old \<and> depth s = depth old then s
      else settle (pred_numeral k) s (effect s))"
  by (simp add: numeral_eq_Suc settle.simps(2))

subsection \<open>Frames, timers and the Reset button\<close>

lemma frame_refl [simp]: "frame s s"
  unfolding frame_def by (metis append_Nil2)

lemma frame_trans: "frame s t \<Longrightarrow> frame t u \<Longrightarrow> frame s u"
  unfolding frame_def by (metis append.assoc)

lemma frame_set_cur: "frame s ((set_cur s b)\<lparr>depth := d\<rparr>)"
  unfolding frame_def set_cur_def by simp

lemma frame_handleClick: "frame s (handleClick s index)"
  by (simp add: handleClick_def frame_set_cur)

lemma frame_effect: "frame s (effect s)"
  unfolding frame_def effect_def computerMove_def set_cur_def by (simp split: option.split)

lemma frame_settle: "frame s (settle n old s)"
proof (induction n arbitrary: old s)
  case (Suc n)
  show ?case
    using frame_trans [OF frame_effect Suc.IH [of "effect s" s]] by (simp add: settle.simps(2))
qed simp

lemma frame_click: "frame s (ui_step s (Click index))"
  using frame_trans [OF frame_handleClick frame_settle] by simp

lemma alerts_click: "alerts (ui_step s (Click index)) = alerts s"
  using frame_click [of s index] by (simp add: frame_def)

lemma settle_fixed: "effect t = t \<Longrightarrow> settle n old t = t"
  by (induction n arbitrary: old) (simp_all add: settle.simps(2))

lemma not_gameOver_empty: "\<not> gameOver (replicate 9 Empty)"
  by code_simp

lemma effect_fresh: "effect ((fresh_board s)\<lparr>depth := 0\<rparr>) = (fresh_board s)\<lparr>depth := 0\<rparr>"
  by (simp add: effect_def fresh_board_def cur_def not_gameOver_empty)

text \<open>The timer callback and the Reset button start a new game on which the effect has
  nothing to do: the event is the handler alone.\<close>

lemma timeout_step:
  "timers s = r # rs \<Longrightarrow>
   ui_step s Timeout =
     (fresh_board (s\<lparr>timers := rs, alerts := alerts s @ [alert_text (checkWinner (heap s ! r))]\<rparr>))\<lparr>depth := 0\<rparr>"
  by (simp add: timeout_fire_def settle_fixed effect_fresh)

lemma reset_step: "ui_step s ResetClick = reset_button s"
  by (simp add: reset_button_def settle_fixed effect_fresh)

text \<open>The human's first click of a new game leaves a cross on the clicked square.\<close>

lemma new_game_click:
  assumes "consistent s" "cur s = replicate 9 Empty" "depth s = 0" "k < 9"
  shows "cur (ui_step s (Click k)) ! k = Cross"
proof -
  have e: "cur s ! k = Empty" and len: "k < length (cur s)" using assms(2,4) by simp_all
  have ng: "\<not> gameOver (cur s)" using assms(2) not_gameOver_empty by simp
  from click_round [OF assms(1) ng assms(4) e] show ?thesis
  proof
    assume "gameOver ((cur s)[k := Cross]) \<and> cur (ui_step s (Click k)) = (cur s)[k := Cross] \<and>
      depth (ui_step s (Click k)) = Suc (depth s)"
    with len show ?thesis by simp
  next
    assume "\<not> gameOver ((cur s)[k := Cross]) \<and> (\<exists>m. bestMove ((cur s)[k := Cross]) (Suc (depth s)) = Some m \<and>
      cur (ui_step s (Click k)) = (cur s)[k := Cross, m := Nought] \<and>
      depth (ui_step s (Click k)) = Suc (Suc (depth s)))"
    then obtain m where m: "bestMove ((cur s)[k := Cross]) (Suc (depth s)) = Some m"
      and c: "cur (ui_step s (Click k)) = (cur s)[k := Cross, m := Nought]" by blast
    from bestMove_Some_open [OF m] len have "m \<noteq> k" by (auto simp: open_from_def)
    with c len show ?thesis by simp
  qed
qed

text \<open>A round on an open game never leaves lines of both players: the cross can only
  add a line of crosses, and the bot moves only when that did not end the game.\<close>

lemma click_single_winner:
  assumes "consistent s" "\<not> gameOver (cur s)" "index < 9"
  shows "\<not> (has_line Cross (cur (ui_step s (Click index))) \<and> has_line Nought (cur (ui_step s (Click index))))"
proof (cases "cur s ! index = Empty")
  case False
  then show ?thesis using click_occupied [OF False] not_gameOver_no_line [OF assms(2)] by simp
next
  case True
  have no: "\<not> has_line Nought (cur s)" using not_gameOver_no_line [OF assms(2)] by simp
  from click_round [OF assms True] show ?thesis
  proof
    assume a: "gameOver ((cur s)[index := Cross]) \<and> cur (ui_step s (Click index)) = (cur s)[index := Cross] \<and>
      depth (ui_step s (Click index)) = Suc (depth s)"
    have "\<not> has_line Nought ((cur s)[index := Cross])"
      using no has_line_update_other [of Nought "cur s" index Cross] by auto
    with a show ?thesis by simp
  next
    assume a: "\<not> gameOver ((cur s)[index := Cross]) \<and> (\<exists>m. bestMove ((cur s)[index := Cross]) (Suc (depth s)) = Some m \<and>
      cur (ui_step s (Click index)) = (cur s)[index := Cross, m := Nought] \<and>
      depth (ui_step s (Click index)) = Suc (Suc (depth s)))"
    then obtain m where c: "cur (ui_step s (Click index)) = (cur s)[index := Cross, m := Nought]" by blast
    have "\<not> has_line Cross ((cur s)[index := Cross])" using a not_gameOver_no_line by blast
    then have "\<not> has_line Cross ((cur s)[index := Cross, m := Nought])"
      using has_line_update_other [of Cross "(cur s)[index := Cross]" m Nought] by auto
    with c show ?thesis by simp
  qed
qed

text \<open>An effect run that leaves the dependencies alone has scheduled the timer if the
  game is over; the effect chain therefore always ends in a state with its timer.\<close>

lemma effect_pending: "depth (effect t) = depth t \<Longrightarrow> pending (effect t)"
  by (auto simp: effect_def pending_def computerMove_def cur_def)

lemma settle_pending_turn:
  assumes "turn_ok s" "gameboard s = gameboard old \<and> depth s = depth old \<Longrightarrow> pending s"
  shows "pending (settle (Suc n) old s)"
proof (cases "gameboard s = gameboard old \<and> depth s = depth old")
  case True
  with assms(2) show ?thesis by simp
next
  case False
  have e: "gameboard (effect s) = gameboard s" "depth (effect s) = depth s"
    using effect_turn_ok [OF assms(1)] by simp_all
  then have "settle n s (effect s) = effect s" by (cases n) simp_all
  with False e show ?thesis by (simp add: settle_changed effect_pending) (metis settle.simps(2) effect_pending)
qed

lemma settle_pending:
  assumes "ui_wf s" "depth s \<noteq> depth old"
  shows "pending (settle (Suc (Suc n)) old s)"
proof (cases "turn_ok s")
  case True
  with assms(2) show ?thesis by (intro settle_pending_turn) simp_all
next
  case False
  from effect_fixes_turn [OF assms(1) False]
  have "turn_ok (effect s)" "depth (effect s) \<noteq> depth s" by simp_all
  then have "pending (settle (Suc n) s (effect s))" by (intro settle_pending_turn) simp_all
  with assms(2) show ?thesis by (simp add: settle_changed)
qed

lemma pending_step:
  assumes "consistent s" "pending s" "enabled s e"
  shows "pending (ui_step s e)"
proof (cases e)
  case (Click index)
  show ?thesis
  proof (cases "cur s ! index = Empty")
    case False
    show ?thesis unfolding Click click_occupied [OF False] by (rule assms(2))
  next
    case True
    have "ui_wf (handleClick s index)"
      using assms(1,3) Click by (simp add: consistent_def wf_handleClick)
    moreover have "depth (handleClick s index) \<noteq> depth s"
      using True by (simp add: handleClick_to_move)
    ultimately have "pending (settle (Suc (Suc 1)) s (handleClick s index))"
      by (rule settle_pending)
    with Click show ?thesis by (simp add: numeral_3_eq_3)
  qed
next
  case Timeout
  with assms(3) obtain r rs where rs: "timers s = r # rs" by (cases "timers s") auto
  show ?thesis unfolding Timeout timeout_step [OF rs]
    by (simp add: pending_def fresh_board_def cur_def not_gameOver_empty)
next
  case ResetClick
  show ?thesis unfolding ResetClick reset_step
    by (simp add: reset_button_def pending_def fresh_board_def cur_def not_gameOver_empty)
qed

lemma reachable_pending: "reachable s \<Longrightarrow> pending s"
proof (induction rule: reachable.induct)
  case init
  then show ?case by (simp add: pending_def ui_init_def cur_def not_gameOver_empty)
next
  case (step s e)
  then show ?case using pending_step reachable_consistent by blast
qed

text \<open>A round in which the bot answers with a known square.\<close>

lemma click_reply:
  assumes "consistent s" "\<not> gameOver (cur s)" "index < 9" "cur s ! index = Empty"
    and "\<not> gameOver ((cur s)[index := Cross])" "bestMove ((cur s)[index := Cross]) (Suc (depth s)) = Some m"
  shows "consistent (ui_step s (Click index)) \<and>
    cur (ui_step s (Click index)) = (cur s)[index := Cross, m := Nought] \<and>
    depth (ui_step s (Click index)) = Suc (Suc (depth s))"
  using click_round [OF assms(1-4)] assms(3,5,6) consistent_step [OF assms(1), of "Click index"] by auto

subsection \<open>The messages of the alerts\<close>

lemma alert_text_finished:
  "w \<noteq> None \<Longrightarrow> alert_text w = ''X wins!'' \<or> alert_text w = ''O wins!'' \<or> alert_text w = ''It's a draw!''"
  by (cases w rule: winner_str.cases) (simp_all add: alert_text_def)

text \<open>Writing to the current array keeps \<open>alerts_ok\<close> if the write keeps a finished game
  finished: a timer on the current array exists only when its game is over.\<close>

lemma alerts_ok_set_cur:
  assumes "alerts_ok s" "gameboard s < length (heap s)" "gameOver (cur s) \<Longrightarrow> gameOver b"
  shows "alerts_ok ((set_cur s b)\<lparr>depth := d\<rparr>)"
proof -
  have "gameOver (heap s ! r) \<Longrightarrow> gameOver ((heap s)[gameboard s := b] ! r)" for r
    using assms(2,3) by (cases "r = gameboard s") (simp_all add: cur_def)
  with assms(1) show ?thesis by (simp add: alerts_ok_def set_cur_def)
qed

lemma alerts_ok_handleClick:
  assumes "ui_wf s" "index < 9" "alerts_ok s"
  shows "alerts_ok (handleClick s index)"
proof (cases "cur s ! index = Empty")
  case True
  have "gameOver (cur s) \<Longrightarrow> gameOver ((cur s)[index := to_move (depth s)])"
    using gameOver_update [of "cur s" index] True assms(1,2) wf_length_cur by simp
  with assms(1,3) True show ?thesis
    by (simp add: handleClick_to_move alerts_ok_set_cur ui_wf_def)
qed (simp add: handleClick_to_move assms(3))

lemma alerts_ok_effect:
  assumes "ui_wf s" "alerts_ok s"
  shows "alerts_ok (effect s)"
proof (cases "\<not> gameOver (cur s) \<and> odd (depth s)")
  case True
  then have ng: "\<not> gameOver (cur s)" by simp
  from effect_bot_move [OF assms(1)] True obtain m where
    e: "effect s = (set_cur s ((cur s)[m := to_move (depth s)]))\<lparr>depth := Suc (depth s)\<rparr>" by blast
  have g: "gameboard s < length (heap s)" using assms(1) by (simp add: ui_wf_def)
  have "alerts_ok ((set_cur s ((cur s)[m := to_move (depth s)]))\<lparr>depth := Suc (depth s)\<rparr>)"
    using assms(2) g by (rule alerts_ok_set_cur) (simp add: ng)
  then show ?thesis by (simp only: e)
next
  case notbot: False
  show ?thesis
  proof (cases "gameOver (cur s)")
    case True
    with assms(2) show ?thesis unfolding alerts_ok_def effect_def by (simp add: cur_def)
  next
    case False
    with notbot have "effect s = s" by (simp add: effect_def even_iff_mod_2_eq_zero)
    with assms(2) show ?thesis by simp
  qed
qed

lemma alerts_ok_settle: "ui_wf s \<Longrightarrow> alerts_ok s \<Longrightarrow> alerts_ok (settle n old s)"
proof (induction n arbitrary: old s)
  case (Suc n)
  then show ?case by (simp add: settle.simps(2) wf_effect alerts_ok_effect)
qed simp

lemma alerts_ok_timeout:
  assumes "ui_wf s" "alerts_ok s" "timers s = r # rs"
  shows "alerts_ok ((fresh_board (s\<lparr>timers := rs,
            alerts := alerts s @ [alert_text (checkWinner (heap s ! r))]\<rparr>))\<lparr>depth := 0\<rparr>)"
proof -
  have "checkWinner (heap s ! r) \<noteq> None"
    using assms(2,3) by (simp add: alerts_ok_def gameOver_checkWinner)
  then have "alert_text (checkWinner (heap s ! r)) = ''X wins!'' \<or>
      alert_text (checkWinner (heap s ! r)) = ''O wins!'' \<or>
      alert_text (checkWinner (heap s ! r)) = ''It's a draw!''"
    by (rule alert_text_finished)
  with assms(2) have al: "\<forall>a \<in> set (alerts s @ [alert_text (checkWinner (heap s ! r))]).
      a = ''X wins!'' \<or> a = ''O wins!'' \<or> a = ''It's a draw!''"
    by (simp add: alerts_ok_def)
  have "\<forall>r' \<in> set rs. gameOver ((heap s @ [replicate 9 Empty]) ! r')"
    using assms by (simp add: alerts_ok_def ui_wf_def nth_append)
  with al show ?thesis by (simp add: alerts_ok_def fresh_board_def)
qed

lemma alerts_ok_reset: "ui_wf s \<Longrightarrow> alerts_ok s \<Longrightarrow> alerts_ok ((fresh_board s)\<lparr>depth := 0\<rparr>)"
  unfolding alerts_ok_def ui_wf_def fresh_board_def by (simp add: nth_append)

lemma alerts_ok_step:
  assumes "consistent s" "alerts_ok s" "enabled s e"
  shows "alerts_ok (ui_step s e)"
proof -
  have wf: "ui_wf s" using assms(1) by (simp add: consistent_def)
  show ?thesis
  proof (cases e)
    case (Click index)
    with assms(3) wf have "ui_wf (handleClick s index)" "alerts_ok (handleClick s index)"
      by (simp_all add: wf_handleClick alerts_ok_handleClick assms(2))
    with Click show ?thesis by (simp add: alerts_ok_settle)
  next
    case Timeout
    with assms(3) obtain r rs where rs: "timers s = r # rs" by (cases "timers s") auto
    show ?thesis unfolding Timeout timeout_step [OF rs] using wf assms(2) rs by (rule alerts_ok_timeout)
  next
    case ResetClick
    show ?thesis unfolding ResetClick reset_step reset_button_def using wf assms(2)
      by (rule alerts_ok_reset)
  qed
qed

lemma reachable_alerts_ok: "reachable s \<Longrightarrow> alerts_ok s"
proof (induction rule: reachable.induct)
  case init
  then show ?case by (simp add: alerts_ok_def ui_init_def)
next
  case (step s e)
  then show ?case using alerts_ok_step reachable_consistent by blast
qed

subsection \<open>The view: a click depends only on the board and the ply\<close>

text \<open>The result of a click, seen as board and ply, depends only on the board and the ply
  it starts from: not on the heap's other arrays, the timers or the alerts.\<close>

lemma click_view:
  assumes "consistent s" "consistent t" "cur s = cur t" "depth s = depth t" "index < 9"
  shows "cur (ui_step s (Click index)) = cur (ui_step t (Click index)) \<and>
         depth (ui_step s (Click index)) = depth (ui_step t (Click index))"
proof (cases "cur s ! index = Empty")
  case False
  then have ot: "cur t ! index \<noteq> Empty" using assms(3) by simp
  show ?thesis unfolding click_occupied [OF False] click_occupied [OF ot] using assms(3,4) by simp
next
  case e: True
  show ?thesis
  proof (cases "gameOver (cur s)")
    case True
    then have ot: "gameOver (cur t)" "cur t ! index = Empty" using e assms(3) by simp_all
    have "gameboard s < length (heap s)" "gameboard t < length (heap t)"
      using assms(1,2) by (simp_all add: consistent_def ui_wf_def)
    then show ?thesis
      unfolding click_late [OF assms(1) True assms(5) e] click_late [OF assms(2) ot(1) assms(5) ot(2)]
      using assms(3,4) by simp
  next
    case ng: False
    let ?b1 = "(cur s)[index := Cross]"
    have et: "cur t ! index = Empty" "\<not> gameOver (cur t)" using e ng assms(3) by simp_all
    note rs = click_round [OF assms(1) ng assms(5) e]
    note rt = click_round [OF assms(2) et(2) assms(5) et(1), unfolded assms(3,4) [symmetric]]
    show ?thesis
    proof (cases "gameOver ?b1")
      case True
      with rs rt show ?thesis by simp
    next
      case False
      with rs obtain m1 where m1: "bestMove ?b1 (Suc (depth s)) = Some m1"
        "cur (ui_step s (Click index)) = ?b1[m1 := Nought]"
        "depth (ui_step s (Click index)) = Suc (Suc (depth s))" by blast
      from False rt obtain m2 where m2: "bestMove ?b1 (Suc (depth s)) = Some m2"
        "cur (ui_step t (Click index)) = ?b1[m2 := Nought]"
        "depth (ui_step t (Click index)) = Suc (Suc (depth s))" by blast
      from m1(1) m2(1) have "m1 = m2" by simp
      with m1(2,3) m2(2,3) show ?thesis by simp
    qed
  qed
qed

lemma play_view:
  "consistent s \<Longrightarrow> consistent t \<Longrightarrow> cur s = cur t \<Longrightarrow> depth s = depth t \<Longrightarrow>
   \<forall>i \<in> set clicks. i < 9 \<Longrightarrow>
   cur (play s clicks) = cur (play t clicks) \<and> depth (play s clicks) = depth (play t clicks)"
proof (induction clicks arbitrary: s t)
  case (Cons i clicks)
  show ?case
  proof (cases "gameOver (cur s)")
    case True
    then have "gameOver (cur t)" using Cons.prems(3) by simp
    with True Cons.prems(3,4) show ?thesis by (simp del: ui_step.simps)
  next
    case False
    then have ngt: "\<not> gameOver (cur t)" using Cons.prems(3) by simp
    have cl: "\<forall>i \<in> set clicks. i < 9" using Cons.prems(5) by simp
    have c: "consistent (ui_step s (Click i))" "consistent (ui_step t (Click i))"
      using consistent_step [OF Cons.prems(1), of "Click i"] consistent_step [OF Cons.prems(2), of "Click i"]
        Cons.prems(5) by (simp_all del: ui_step.simps)
    have v: "cur (ui_step s (Click i)) = cur (ui_step t (Click i))"
      "depth (ui_step s (Click i)) = depth (ui_step t (Click i))"
      using click_view [OF Cons.prems(1-4), of i] Cons.prems(5) by (simp_all del: ui_step.simps)
    have "cur (play (ui_step s (Click i)) clicks) = cur (play (ui_step t (Click i)) clicks) \<and>
        depth (play (ui_step s (Click i)) clicks) = depth (play (ui_step t (Click i)) clicks)"
      using c v cl by (rule Cons.IH)
    with False ngt show ?thesis by (simp del: ui_step.simps)
  qed
qed simp

lemmas ui_eval = handleClick_def effect_def timeout_fire_def reset_button_def fresh_board_def
  set_cur_def cur_def settle.simps settle_numeral consistent_def ui_wf_def turn_ok_def alert_text_def

subsection \<open>Properties of the controller\<close>

text \<open>
  C11. Invariant of every reachable state of the component: the current array has nine
  squares, \<open>depth\<close> equals the number of marks on it, crosses are as many as noughts
  or one more, and while the game is on it is the human's turn once the effects have run.
\<close>

theorem reachable_invariant:
  "reachable s \<Longrightarrow>
   length (cur s) = 9 \<and> marks (cur s) = depth s \<and>
   count_list (cur s) Nought \<le> count_list (cur s) Cross \<and>
   count_list (cur s) Cross \<le> count_list (cur s) Nought + 1 \<and>
   (\<not> gameOver (cur s) \<longrightarrow> even (depth s))"
proof -
  assume "reachable s"
  then have "consistent s" by (rule reachable_consistent)
  then show ?thesis
    by (auto simp: consistent_def ui_wf_def turn_ok_def marks_def wf_length_cur)
qed

theorem reachable_invariant_witness:
  "reachable ui_init \<and> length (cur ui_init) = 9 \<and> marks (cur ui_init) = depth ui_init"
  using reachable_invariant [OF reachable.init] reachable.init by simp

text \<open>
  C12. A click on an occupied square does nothing: no mark, no ply, and no effect runs
  (the dependencies of the effect are unchanged).
\<close>

theorem occupied_click_ignored:
  "cur s ! index \<noteq> Empty \<Longrightarrow> ui_step s (Click index) = s"
  by (simp add: handleClick_def numeral_3_eq_3)

theorem occupied_click_ignored_witness:
  "cur (ui_init\<lparr>heap := [[Cross, Empty, Empty, Empty, Empty, Empty, Empty, Empty, Empty]]\<rparr>) ! 0 \<noteq> Empty \<and>
   ui_step (ui_init\<lparr>heap := [[Cross, Empty, Empty, Empty, Empty, Empty, Empty, Empty, Empty]]\<rparr>) (Click 0) =
   ui_init\<lparr>heap := [[Cross, Empty, Empty, Empty, Empty, Empty, Empty, Empty, Empty]]\<rparr>"
proof -
  have h: "cur (ui_init\<lparr>heap := [[Cross, Empty, Empty, Empty, Empty, Empty, Empty, Empty, Empty]]\<rparr>) ! 0 \<noteq> Empty"
    by (simp add: ui_init_def cur_def)
  with occupied_click_ignored [OF h] show ?thesis by simp
qed

text \<open>
  C13. \<open>handleClick\<close> does not check whether the game is over: in the 100 ms before
  the reset timer fires, a click on an empty square still places the mark of the player
  whose turn the ply says (a nought, the bot's mark, after the human has won), advances
  the ply, and schedules one more reset timer.
\<close>

theorem late_click_accepted:
  "consistent s \<Longrightarrow> gameOver (cur s) \<Longrightarrow> index < 9 \<Longrightarrow> cur s ! index = Empty \<Longrightarrow>
   cur (ui_step s (Click index)) = (cur s)[index := to_move (depth s)] \<and>
   depth (ui_step s (Click index)) = Suc (depth s) \<and>
   timers (ui_step s (Click index)) = timers s @ [gameboard s]"
  using click_late [of s index] by (simp add: consistent_def ui_wf_def)

theorem late_click_accepted_witness:
  "consistent \<lparr>heap = [[Cross, Cross, Empty, Cross, Empty, Empty, Nought, Nought, Nought]],
      gameboard = 0, depth = 6, timers = [0], alerts = []\<rparr> \<and>
   cur (ui_step \<lparr>heap = [[Cross, Cross, Empty, Cross, Empty, Empty, Nought, Nought, Nought]],
      gameboard = 0, depth = 6, timers = [0], alerts = []\<rparr> (Click 2)) =
     [Cross, Cross, Cross, Cross, Empty, Empty, Nought, Nought, Nought]"
proof -
  let ?s = "\<lparr>heap = [[Cross, Cross, Empty, Cross, Empty, Empty, Nought, Nought, Nought]],
      gameboard = 0, depth = 6, timers = [0], alerts = []\<rparr>"
  have h: "consistent ?s" "gameOver (cur ?s)" "(2::nat) < 9" "cur ?s ! 2 = Empty"
    by (simp_all add: ui_eval board_eval)
  from late_click_accepted [OF h] h(1) show ?thesis by (simp add: cur_def to_move_def)
qed

text \<open>
  C14. One round of play (the human's click and the bot's answer) never raises the
  minimax score of the position: the human's move cannot gain (the maximum over the
  crosses' moves bounds it) and the bot's \<open>bestMove\<close> keeps the value exactly.
\<close>

theorem round_value_monotone:
  "consistent s \<Longrightarrow> \<not> gameOver (cur s) \<Longrightarrow> index < 9 \<Longrightarrow>
   minimax (cur (ui_step s (Click index))) (depth (ui_step s (Click index))) \<le> minimax (cur s) (depth s)"
  by (rule round_value)

theorem round_value_monotone_witness:
  "consistent \<lparr>heap = [[Cross, Nought, Empty, Empty, Nought, Empty, Empty, Empty, Cross]],
      gameboard = 0, depth = 4, timers = [], alerts = []\<rparr> \<and>
   \<not> gameOver (cur \<lparr>heap = [[Cross, Nought, Empty, Empty, Nought, Empty, Empty, Empty, Cross]],
      gameboard = 0, depth = 4, timers = [], alerts = []\<rparr>) \<and> (7::nat) < 9 \<and>
   minimax (cur (ui_step \<lparr>heap = [[Cross, Nought, Empty, Empty, Nought, Empty, Empty, Empty, Cross]],
      gameboard = 0, depth = 4, timers = [], alerts = []\<rparr> (Click 7)))
     (depth (ui_step \<lparr>heap = [[Cross, Nought, Empty, Empty, Nought, Empty, Empty, Empty, Cross]],
      gameboard = 0, depth = 4, timers = [], alerts = []\<rparr> (Click 7))) \<le>
   minimax (cur \<lparr>heap = [[Cross, Nought, Empty, Empty, Nought, Empty, Empty, Empty, Cross]],
      gameboard = 0, depth = 4, timers = [], alerts = []\<rparr>)
     (depth \<lparr>heap = [[Cross, Nought, Empty, Empty, Nought, Empty, Empty, Empty, Cross]],
      gameboard = 0, depth = 4, timers = [], alerts = []\<rparr>)"
proof -
  let ?s = "\<lparr>heap = [[Cross, Nought, Empty, Empty, Nought, Empty, Empty, Empty, Cross]],
      gameboard = 0, depth = 4, timers = [], alerts = []\<rparr>"
  have h: "consistent ?s" "\<not> gameOver (cur ?s)" "(7::nat) < 9"
    by (simp_all add: ui_eval board_eval)
  with round_value_monotone [OF h] show ?thesis by blast
qed

text \<open>
  C15. The bot does not lose from a position that is not lost for it, in a game played
  until its end: from a consistent position whose minimax score is at most 0, for every
  sequence of clicks on squares that \<open>play\<close> feeds to the app while the game is open
  (\<open>play\<close> stops at the end of the game, so clicks after the end are not part of it;
  C13 shows the app itself accepts them), the board \<open>play\<close> reaches never has
  \<open>checkWinner\<close> reporting \<open>"X"\<close> (a win of the human would score
  \<open>10 - depth > 0\<close>, and the score never rises).
\<close>

theorem human_never_wins:
  "consistent s \<Longrightarrow> minimax (cur s) (depth s) \<le> 0 \<Longrightarrow> \<forall>i \<in> set clicks. i < 9 \<Longrightarrow>
   checkWinner (cur (play s clicks)) \<noteq> Some XWins"
  using play_value [of s clicks] x_win_positive [of "play s clicks"] by fastforce

theorem human_never_wins_witness:
  "consistent \<lparr>heap = [[Cross, Nought, Empty, Empty, Nought, Empty, Empty, Empty, Cross]],
      gameboard = 0, depth = 4, timers = [], alerts = []\<rparr> \<and>
   minimax [Cross, Nought, Empty, Empty, Nought, Empty, Empty, Empty, Cross] 4 \<le> 0 \<and>
   checkWinner (cur (play \<lparr>heap = [[Cross, Nought, Empty, Empty, Nought, Empty, Empty, Empty, Cross]],
      gameboard = 0, depth = 4, timers = [], alerts = []\<rparr> [2, 7, 3])) \<noteq> Some XWins"
proof -
  let ?s = "\<lparr>heap = [[Cross, Nought, Empty, Empty, Nought, Empty, Empty, Empty, Cross]],
      gameboard = 0, depth = 4, timers = [], alerts = []\<rparr>"
  have c: "consistent ?s" by (simp add: ui_eval board_eval)
  have v: "minimax [Cross, Nought, Empty, Empty, Nought, Empty, Empty, Empty, Cross] 4 \<le> 0"
    by code_simp
  have m: "minimax (cur ?s) (depth ?s) \<le> 0" using v by (simp add: cur_def)
  have cl: "\<forall>i \<in> set [2, 7, 3::nat]. i < 9" by simp
  from human_never_wins [OF c m cl] c v show ?thesis by blast
qed

text \<open>
  C18. Liveness: a game always ends. Clicking each of the nine squares once, in any
  order, leaves a finished game: a click on a marked square is ignored, a click on an
  empty one marks it, and no mark is ever removed, so the board fills unless a line ends
  the game first.
\<close>

theorem clicking_every_square_ends_game:
  "consistent s \<Longrightarrow> set clicks = {0..<9} \<Longrightarrow> gameOver (cur (play s clicks))"
proof -
  assume c: "consistent s" and all: "set clicks = {0..<9}"
  then have lt: "\<forall>i \<in> set clicks. i < 9" by simp
  have len: "length (cur (play s clicks)) = 9"
    using play_value [OF c lt] wf_length_cur by (simp add: consistent_def)
  from play_marks [OF c lt] show ?thesis
  proof
    assume "\<forall>j. (j \<in> set clicks \<or> cur s ! j \<noteq> Empty) \<longrightarrow> cur (play s clicks) ! j \<noteq> Empty"
    with all len have "full (cur (play s clicks))"
      by (auto simp: full_def in_set_conv_nth)
    then show ?thesis by (rule full_gameOver)
  qed
qed

theorem clicking_every_square_ends_game_witness:
  "consistent ui_init \<and> set [0..<9] = {0..<9::nat} \<and> gameOver (cur (play ui_init [0..<9]))"
proof -
  have c: "consistent ui_init" by (rule consistent_init)
  have s: "set [0..<9] = {0..<9::nat}" by simp
  from clicking_every_square_ends_game [OF c s] c s show ?thesis by blast
qed

text \<open>
  C23. A stale timer wipes the next game. The effect returns no cleanup, so a late click
  on a finished game schedules a second timer on the same array. The first timer alerts
  and starts a new game. The human's first move there stands. Then the second timer fires:
  it alerts the old result again and resets the new game, move included.
\<close>

theorem stale_timer_wipes_new_game:
  assumes "consistent s" "gameOver (cur s)" "timers s = [gameboard s]"
    and "index < 9" "cur s ! index = Empty" "k < 9"
  shows "cur (run s [Click index, Timeout, Click k]) ! k = Cross \<and>
         cur (run s [Click index, Timeout, Click k, Timeout]) = replicate 9 Empty \<and>
         depth (run s [Click index, Timeout, Click k, Timeout]) = 0 \<and>
         alerts (run s [Click index, Timeout, Click k, Timeout]) =
           alerts s @ [alert_text (checkWinner ((cur s)[index := to_move (depth s)])),
                       alert_text (checkWinner ((cur s)[index := to_move (depth s)]))]"
proof -
  let ?g = "gameboard s" and ?b1 = "(cur s)[index := to_move (depth s)]"
  define s1 where "s1 = ui_step s (Click index)"
  define s2 where "s2 = ui_step s1 Timeout"
  define s3 where "s3 = ui_step s2 (Click k)"
  have g: "?g < length (heap s)" using assms(1) by (simp add: consistent_def ui_wf_def)
  have s1: "timers s1 = [?g, ?g]" "alerts s1 = alerts s" "heap s1 ! ?g = ?b1"
    "length (heap s1) = length (heap s)"
    using click_late [OF assms(1,2,4,5)] assms(3) g by (simp_all add: s1_def set_cur_def)
  have c2: "consistent s2"
    using consistent_step [OF consistent_step [OF assms(1), of "Click index"], of Timeout] assms(4) s1(1)
    by (simp add: s1_def s2_def)
  have s2: "cur s2 = replicate 9 Empty" "depth s2 = 0" "gameboard s2 = length (heap s)"
    "timers s2 = [?g]" "heap s2 ! ?g = ?b1" "alerts s2 = alerts s @ [alert_text (checkWinner ?b1)]"
    using timeout_step [OF s1(1)] s1 g by (simp_all add: s2_def fresh_board_def cur_def nth_append)
  have k: "cur s3 ! k = Cross"
    using new_game_click [OF c2 s2(1,2) assms(6)] by (simp add: s3_def)
  obtain xs where t3: "timers s3 = ?g # xs" and a3: "alerts s3 = alerts s2"
    and h3: "heap s3 ! ?g = heap s2 ! ?g"
    using frame_click [of s2 k] s2(3,4) g by (auto simp: frame_def s3_def)
  have "ui_step s3 Timeout =
      (fresh_board (s3\<lparr>timers := xs, alerts := alerts s3 @ [alert_text (checkWinner (heap s3 ! ?g))]\<rparr>))\<lparr>depth := 0\<rparr>"
    by (rule timeout_step [OF t3])
  with k a3 h3 s2 show ?thesis
    by (simp add: s1_def s2_def s3_def fresh_board_def cur_def)
qed

theorem stale_timer_wipes_new_game_witness:
  "alerts (run \<lparr>heap = [[Cross, Cross, Cross, Nought, Nought, Empty, Empty, Empty, Empty]],
      gameboard = 0, depth = 5, timers = [0], alerts = []\<rparr> [Click 5, Timeout, Click 4, Timeout]) =
     [''X wins!'', ''X wins!'']"
proof -
  let ?s = "\<lparr>heap = [[Cross, Cross, Cross, Nought, Nought, Empty, Empty, Empty, Empty]],
      gameboard = 0, depth = 5, timers = [0], alerts = []\<rparr>"
  have h: "consistent ?s" "gameOver (cur ?s)" "timers ?s = [gameboard ?s]" "(5::nat) < 9"
    "cur ?s ! 5 = Empty" "(4::nat) < 9"
    by (simp_all add: ui_eval board_eval)
  from stale_timer_wipes_new_game [OF h] show ?thesis
    by (simp add: cur_def to_move_def board_eval alert_text_def)
qed

text \<open>
  C24. The Reset button does not cancel a pending timer. Reset starts a new game, and the
  human's first move there stands. Then the timer of the old game fires: it alerts the
  result of the array it captured and resets the new game.
\<close>

theorem reset_keeps_pending_timer:
  assumes "consistent s" "timers s = [r]" "k < 9"
  shows "cur (run s [ResetClick, Click k]) ! k = Cross \<and>
         cur (run s [ResetClick, Click k, Timeout]) = replicate 9 Empty \<and>
         depth (run s [ResetClick, Click k, Timeout]) = 0 \<and>
         alerts (run s [ResetClick, Click k, Timeout]) = alerts s @ [alert_text (checkWinner (heap s ! r))]"
proof -
  define s1 where "s1 = ui_step s ResetClick"
  define s2 where "s2 = ui_step s1 (Click k)"
  have r: "r < length (heap s)" using assms(1,2) by (simp add: consistent_def ui_wf_def)
  have c1: "consistent s1" using consistent_step [OF assms(1), of ResetClick] by (simp add: s1_def)
  have s1: "cur s1 = replicate 9 Empty" "depth s1 = 0" "gameboard s1 = length (heap s)"
    "timers s1 = [r]" "heap s1 ! r = heap s ! r" "alerts s1 = alerts s"
    using assms(2) r unfolding s1_def reset_step
    by (simp_all add: reset_button_def fresh_board_def cur_def nth_append)
  have k: "cur s2 ! k = Cross"
    using new_game_click [OF c1 s1(1,2) assms(3)] by (simp add: s2_def)
  obtain xs where t2: "timers s2 = r # xs" and a2: "alerts s2 = alerts s1"
    and h2: "heap s2 ! r = heap s1 ! r"
    using frame_click [of s1 k] s1(3,4) r by (auto simp: frame_def s2_def)
  have "ui_step s2 Timeout =
      (fresh_board (s2\<lparr>timers := xs, alerts := alerts s2 @ [alert_text (checkWinner (heap s2 ! r))]\<rparr>))\<lparr>depth := 0\<rparr>"
    by (rule timeout_step [OF t2])
  with k a2 h2 s1 show ?thesis
    by (simp add: s1_def s2_def fresh_board_def cur_def)
qed

theorem reset_keeps_pending_timer_witness:
  "alerts (run \<lparr>heap = [[Cross, Cross, Cross, Nought, Nought, Empty, Empty, Empty, Empty]],
      gameboard = 0, depth = 5, timers = [0], alerts = []\<rparr> [ResetClick, Click 4, Timeout]) =
     [''X wins!'']"
proof -
  let ?s = "\<lparr>heap = [[Cross, Cross, Cross, Nought, Nought, Empty, Empty, Empty, Empty]],
      gameboard = 0, depth = 5, timers = [0], alerts = []\<rparr>"
  have h: "consistent ?s" "timers ?s = [0]" "(4::nat) < 9"
    by (simp_all add: ui_eval board_eval)
  from reset_keeps_pending_timer [OF h] show ?thesis
    by (simp add: board_eval alert_text_def)
qed

text \<open>
  C25. In a proper game no board holds lines of both players. From a consistent position
  without lines of both, play that stops at the end of the game (no late clicks) never
  reaches a board with a line of crosses and a line of noughts. So the order of
  \<open>winPatterns\<close> in \<open>checkWinner\<close> never decides who has won. Late clicks are
  accepted (C13), and one after the bot's win can add a line of crosses that comes first
  in \<open>winPatterns\<close>: then the alert names the human.
\<close>

theorem proper_game_single_winner:
  "consistent s \<Longrightarrow> \<not> (has_line Cross (cur s) \<and> has_line Nought (cur s)) \<Longrightarrow>
   \<forall>i \<in> set clicks. i < 9 \<Longrightarrow>
   \<not> (has_line Cross (cur (play s clicks)) \<and> has_line Nought (cur (play s clicks)))"
proof (induction clicks arbitrary: s)
  case Nil
  then show ?case by simp
next
  case (Cons i clicks)
  show ?case
  proof (cases "gameOver (cur s)")
    case True
    with Cons.prems show ?thesis by simp
  next
    case False
    have "consistent (ui_step s (Click i))"
      using consistent_step [OF Cons.prems(1), of "Click i"] Cons.prems(3) by simp
    moreover have "\<not> (has_line Cross (cur (ui_step s (Click i))) \<and> has_line Nought (cur (ui_step s (Click i))))"
      using click_single_winner [OF Cons.prems(1) False] Cons.prems(3) by simp
    ultimately show ?thesis using Cons.IH Cons.prems(3) False by simp
  qed
qed

theorem proper_game_single_winner_witness:
  "\<not> (has_line Cross (cur (play ui_init [0, 3])) \<and> has_line Nought (cur (play ui_init [0, 3])))"
proof -
  have h: "consistent ui_init" "\<not> (has_line Cross (cur ui_init) \<and> has_line Nought (cur ui_init))"
    "\<forall>i \<in> set [0, 3]. i < (9::nat)"
    by (simp_all add: ui_init_def ui_eval board_eval has_line_def)
  from proper_game_single_winner [OF h] show ?thesis .
qed

text \<open>
  C28. Reset restores the starting behaviour. From any consistent state, after the Reset
  button every sequence of clicks leads to the same board and ply as the same clicks
  from the app's initial state: nothing of the old game survives in what the clicks see.
  The old game's pending timers survive Reset and matter only when they fire (C24).
\<close>

theorem reset_replays_initial:
  "consistent s \<Longrightarrow> \<forall>i \<in> set clicks. i < 9 \<Longrightarrow>
   cur (play (ui_step s ResetClick) clicks) = cur (play ui_init clicks) \<and>
   depth (play (ui_step s ResetClick) clicks) = depth (play ui_init clicks)"
proof -
  assume c: "consistent s" and cl: "\<forall>i \<in> set clicks. i < 9"
  have "consistent (ui_step s ResetClick)" using consistent_step [OF c, of ResetClick] by simp
  moreover have "cur (ui_step s ResetClick) = cur ui_init" "depth (ui_step s ResetClick) = depth ui_init"
    unfolding reset_step by (simp_all add: reset_button_def fresh_board_def cur_def ui_init_def)
  ultimately show ?thesis using play_view [OF _ consistent_init _ _ cl] by blast
qed

theorem reset_replays_initial_witness:
  "cur (play (ui_step \<lparr>heap = [[Cross, Cross, Cross, Nought, Nought, Empty, Empty, Empty, Empty]],
      gameboard = 0, depth = 5, timers = [0], alerts = []\<rparr> ResetClick) [4, 1]) = cur (play ui_init [4, 1])"
proof -
  let ?s = "\<lparr>heap = [[Cross, Cross, Cross, Nought, Nought, Empty, Empty, Empty, Empty]],
      gameboard = 0, depth = 5, timers = [0], alerts = []\<rparr>"
  have h: "consistent ?s" "\<forall>i \<in> set [4, 1]. i < (9::nat)" by (simp_all add: ui_eval board_eval)
  from reset_replays_initial [OF h] show ?thesis by blast
qed

end
