(* ===== verification/Strategy.thy ===== *)
theory Strategy
  imports Search
begin

text \<open>
  Strategy certificates for bounds on the game value. A certificate is a tree of moves:
  where the player the bound favours is to move it names one move (\<open>Pick\<close>), where the
  opponent is to move it has one subtree for every legal move in the order of \<open>moves\<close>
  (\<open>Each\<close>), and at a finished game it is a \<open>Leaf\<close>. \<open>strategy_ok\<close> checks a certificate
  against the board by running the game along it; \<open>strategy_sound\<close> shows that a checked
  certificate bounds \<open>game_value\<close>, from above (\<open>up\<close>, a strategy of the noughts) or from
  below (a strategy of the crosses). Checking a certificate visits one reply per position
  of the favoured player instead of all of them, which is what makes the value of the
  opening positions computable in the kernel.
\<close>

datatype strategy = Leaf | Pick nat strategy | Each "strategy list"

definition bound_ok :: "bool \<Rightarrow> int \<Rightarrow> int \<Rightarrow> bool" where
  "bound_ok up x v = (if up then x \<le> v else v \<le> x)"

fun strategy_ok :: "bool \<Rightarrow> strategy \<Rightarrow> board \<Rightarrow> nat \<Rightarrow> int \<Rightarrow> bool"
  and strategies_ok :: "bool \<Rightarrow> strategy list \<Rightarrow> nat list \<Rightarrow> board \<Rightarrow> nat \<Rightarrow> int \<Rightarrow> bool" where
  "strategy_ok up Leaf b d v = (gameOver b \<and> bound_ok up (terminal_score b d) v)"
| "strategy_ok up (Pick m t) b d v =
     (\<not> gameOver b \<and> even d \<noteq> up \<and> m \<in> set (moves b) \<and>
      strategy_ok up t (b[m := (if even d then Cross else Nought)]) (Suc d) v)"
| "strategy_ok up (Each ts) b d v =
     (\<not> gameOver b \<and> even d = up \<and> strategies_ok up ts (moves b) b d v)"
| "strategies_ok up [] [] b d v = True"
| "strategies_ok up (t # ts) (m # ms) b d v =
     (strategy_ok up t (b[m := (if even d then Cross else Nought)]) (Suc d) v \<and>
      strategies_ok up ts ms b d v)"
| "strategies_ok up (t # ts) [] b d v = False"
| "strategies_ok up [] (m # ms) b d v = False"

subsection \<open>Certificates for the opening positions\<close>

text \<open>A strategy of the noughts on the empty board at ply 0 that concedes no loss: the value is at most 0.\<close>

definition opening_upper :: strategy where
  "opening_upper =
     (Each [(Pick 4 (Each [(Pick 2 (Each [(Pick 6 Leaf), (Pick 6 Leaf), (Pick 3 (Each
     [(Pick 8 (Each [Leaf])), (Pick 5 Leaf), (Pick 5 Leaf)])), (Pick 6 Leaf), (Pick 6
     Leaf)])), (Pick 1 (Each [(Pick 7 Leaf), (Pick 7 Leaf), (Pick 7 Leaf), (Pick 5 (Each
     [(Pick 6 (Each [Leaf])), (Pick 3 Leaf), (Pick 3 Leaf)])), (Pick 7 Leaf)])), (Pick 6
     (Each [(Pick 2 Leaf), (Pick 1 (Each [(Pick 7 Leaf), (Pick 8 (Each [Leaf])), (Pick 7
     Leaf)])), (Pick 2 Leaf), (Pick 2 Leaf), (Pick 2 Leaf)])), (Pick 7 (Each [(Pick 2
     (Each [(Pick 6 Leaf), (Pick 3 (Each [Leaf])), (Pick 6 Leaf)])), (Pick 1 Leaf),
     (Pick 1 Leaf), (Pick 1 Leaf), (Pick 1 Leaf)])), (Pick 3 (Each [(Pick 5 Leaf), (Pick
     5 Leaf), (Pick 7 (Each [(Pick 2 (Each [Leaf])), (Pick 1 Leaf), (Pick 1 Leaf)])),
     (Pick 5 Leaf), (Pick 5 Leaf)])), (Pick 5 (Each [(Pick 3 Leaf), (Pick 3 Leaf), (Pick
     6 (Each [(Pick 2 Leaf), (Pick 1 (Each [Leaf])), (Pick 2 Leaf)])), (Pick 3 Leaf),
     (Pick 3 Leaf)])), (Pick 7 (Each [(Pick 2 (Each [(Pick 6 Leaf), (Pick 6 Leaf), (Pick
     3 (Each [Leaf]))])), (Pick 1 Leaf), (Pick 1 Leaf), (Pick 1 Leaf), (Pick 1
     Leaf)]))])), (Pick 4 (Each [(Pick 2 (Each [(Pick 6 Leaf), (Pick 6 Leaf), (Pick 3
     (Each [(Pick 8 (Each [Leaf])), (Pick 5 Leaf), (Pick 5 Leaf)])), (Pick 6 Leaf),
     (Pick 6 Leaf)])), (Pick 0 (Each [(Pick 8 Leaf), (Pick 8 Leaf), (Pick 8 Leaf), (Pick
     8 Leaf), (Pick 5 (Each [(Pick 7 (Each [Leaf])), (Pick 3 Leaf), (Pick 3 Leaf)]))])),
     (Pick 6 (Each [(Pick 2 Leaf), (Pick 0 (Each [(Pick 8 Leaf), (Pick 8 Leaf), (Pick 5
     (Each [Leaf]))])), (Pick 2 Leaf), (Pick 2 Leaf), (Pick 2 Leaf)])), (Pick 8 (Each
     [(Pick 2 (Each [(Pick 6 Leaf), (Pick 3 (Each [Leaf])), (Pick 6 Leaf)])), (Pick 0
     Leaf), (Pick 0 Leaf), (Pick 0 Leaf), (Pick 0 Leaf)])), (Pick 5 (Each [(Pick 3
     Leaf), (Pick 3 Leaf), (Pick 0 (Each [(Pick 8 Leaf), (Pick 8 Leaf), (Pick 7 (Each
     [Leaf]))])), (Pick 3 Leaf), (Pick 3 Leaf)])), (Pick 8 (Each [(Pick 2 (Each [(Pick 6
     Leaf), (Pick 6 Leaf), (Pick 5 Leaf)])), (Pick 0 Leaf), (Pick 0 Leaf), (Pick 0
     Leaf), (Pick 0 Leaf)])), (Pick 5 (Each [(Pick 3 Leaf), (Pick 3 Leaf), (Pick 6 (Each
     [(Pick 2 Leaf), (Pick 0 (Each [Leaf])), (Pick 2 Leaf)])), (Pick 3 Leaf), (Pick 3
     Leaf)]))])), (Pick 4 (Each [(Pick 1 (Each [(Pick 7 Leaf), (Pick 7 Leaf), (Pick 7
     Leaf), (Pick 5 (Each [(Pick 6 (Each [Leaf])), (Pick 3 Leaf), (Pick 3 Leaf)])),
     (Pick 7 Leaf)])), (Pick 0 (Each [(Pick 8 Leaf), (Pick 8 Leaf), (Pick 8 Leaf), (Pick
     8 Leaf), (Pick 5 (Each [(Pick 7 (Each [Leaf])), (Pick 3 Leaf), (Pick 3 Leaf)]))])),
     (Pick 7 (Each [(Pick 1 Leaf), (Pick 0 (Each [(Pick 8 Leaf), (Pick 8 Leaf), (Pick 5
     (Each [Leaf]))])), (Pick 1 Leaf), (Pick 1 Leaf), (Pick 1 Leaf)])), (Pick 8 (Each
     [(Pick 1 (Each [(Pick 7 Leaf), (Pick 7 Leaf), (Pick 6 (Each [Leaf]))])), (Pick 0
     Leaf), (Pick 0 Leaf), (Pick 0 Leaf), (Pick 0 Leaf)])), (Pick 7 (Each [(Pick 1
     Leaf), (Pick 0 (Each [(Pick 8 Leaf), (Pick 8 Leaf), (Pick 5 (Each [Leaf]))])),
     (Pick 1 Leaf), (Pick 1 Leaf), (Pick 1 Leaf)])), (Pick 5 (Each [(Pick 3 Leaf), (Pick
     3 Leaf), (Pick 0 (Each [(Pick 8 Leaf), (Pick 8 Leaf), (Pick 6 (Each [Leaf]))])),
     (Pick 3 Leaf), (Pick 3 Leaf)])), (Pick 5 (Each [(Pick 3 Leaf), (Pick 3 Leaf), (Pick
     7 (Each [(Pick 1 Leaf), (Pick 0 (Each [Leaf])), (Pick 1 Leaf)])), (Pick 3 Leaf),
     (Pick 3 Leaf)]))])), (Pick 4 (Each [(Pick 6 (Each [(Pick 2 Leaf), (Pick 1 (Each
     [(Pick 7 Leaf), (Pick 8 (Each [Leaf])), (Pick 7 Leaf)])), (Pick 2 Leaf), (Pick 2
     Leaf), (Pick 2 Leaf)])), (Pick 6 (Each [(Pick 2 Leaf), (Pick 0 (Each [(Pick 8
     Leaf), (Pick 8 Leaf), (Pick 5 (Each [Leaf]))])), (Pick 2 Leaf), (Pick 2 Leaf),
     (Pick 2 Leaf)])), (Pick 7 (Each [(Pick 1 Leaf), (Pick 0 (Each [(Pick 8 Leaf), (Pick
     8 Leaf), (Pick 5 (Each [Leaf]))])), (Pick 1 Leaf), (Pick 1 Leaf), (Pick 1 Leaf)])),
     (Pick 8 (Each [(Pick 6 (Each [(Pick 7 Leaf), (Pick 7 Leaf), (Pick 2 Leaf)])), (Pick
     0 Leaf), (Pick 0 Leaf), (Pick 0 Leaf), (Pick 0 Leaf)])), (Pick 0 (Each [(Pick 8
     Leaf), (Pick 8 Leaf), (Pick 8 Leaf), (Pick 8 Leaf), (Pick 7 (Each [(Pick 5 (Each
     [Leaf])), (Pick 1 Leaf), (Pick 1 Leaf)]))])), (Pick 8 (Each [(Pick 6 (Each [(Pick 2
     Leaf), (Pick 1 (Each [Leaf])), (Pick 2 Leaf)])), (Pick 0 Leaf), (Pick 0 Leaf),
     (Pick 0 Leaf), (Pick 0 Leaf)])), (Pick 7 (Each [(Pick 1 Leaf), (Pick 2 (Each [(Pick
     6 Leaf), (Pick 6 Leaf), (Pick 0 (Each [Leaf]))])), (Pick 1 Leaf), (Pick 1 Leaf),
     (Pick 1 Leaf)]))])), (Pick 8 (Each [(Pick 6 (Each [(Pick 7 Leaf), (Pick 7 Leaf),
     (Pick 7 Leaf), (Pick 7 Leaf), (Pick 1 (Each [(Pick 5 (Each [Leaf])), (Pick 5 (Each
     [Leaf])), (Pick 3 (Each [Leaf]))]))])), (Pick 7 (Each [(Pick 6 Leaf), (Pick 6
     Leaf), (Pick 6 Leaf), (Pick 6 Leaf), (Pick 2 (Each [(Pick 5 Leaf), (Pick 5 Leaf),
     (Pick 3 (Each [Leaf]))]))])), (Pick 6 (Each [(Pick 7 Leaf), (Pick 7 Leaf), (Pick 7
     Leaf), (Pick 7 Leaf), (Pick 1 (Each [(Pick 5 (Each [Leaf])), (Pick 5 (Each
     [Leaf])), (Pick 3 (Each [Leaf]))]))])), (Pick 5 (Each [(Pick 2 Leaf), (Pick 2
     Leaf), (Pick 6 (Each [(Pick 7 Leaf), (Pick 7 Leaf), (Pick 1 (Each [Leaf]))])),
     (Pick 2 Leaf), (Pick 2 Leaf)])), (Pick 3 (Each [(Pick 7 (Each [(Pick 6 Leaf), (Pick
     6 Leaf), (Pick 2 (Each [Leaf]))])), (Pick 7 (Each [(Pick 6 Leaf), (Pick 6 Leaf),
     (Pick 2 (Each [Leaf]))])), (Pick 6 (Each [(Pick 7 Leaf), (Pick 7 Leaf), (Pick 0
     Leaf)])), (Pick 2 (Each [(Pick 7 (Each [Leaf])), (Pick 7 (Each [Leaf])), (Pick 1
     (Each [Leaf]))])), (Pick 1 (Each [(Pick 6 (Each [Leaf])), (Pick 6 (Each [Leaf])),
     (Pick 2 (Each [Leaf]))]))])), (Pick 2 (Each [(Pick 5 Leaf), (Pick 5 Leaf), (Pick 5
     Leaf), (Pick 3 (Each [(Pick 7 (Each [Leaf])), (Pick 7 (Each [Leaf])), (Pick 1 (Each
     [Leaf]))])), (Pick 5 Leaf)])), (Pick 1 (Each [(Pick 5 (Each [(Pick 6 (Each
     [Leaf])), (Pick 2 Leaf), (Pick 2 Leaf)])), (Pick 6 (Each [(Pick 5 (Each [Leaf])),
     (Pick 5 (Each [Leaf])), (Pick 3 (Each [Leaf]))])), (Pick 5 (Each [(Pick 2 Leaf),
     (Pick 6 (Each [Leaf])), (Pick 2 Leaf)])), (Pick 3 (Each [(Pick 6 (Each [Leaf])),
     (Pick 6 (Each [Leaf])), (Pick 2 (Each [Leaf]))])), (Pick 2 (Each [(Pick 5 Leaf),
     (Pick 5 Leaf), (Pick 0 Leaf)]))]))])), (Pick 4 (Each [(Pick 7 (Each [(Pick 2 (Each
     [(Pick 6 Leaf), (Pick 3 (Each [Leaf])), (Pick 6 Leaf)])), (Pick 1 Leaf), (Pick 1
     Leaf), (Pick 1 Leaf), (Pick 1 Leaf)])), (Pick 8 (Each [(Pick 2 (Each [(Pick 6
     Leaf), (Pick 3 (Each [Leaf])), (Pick 6 Leaf)])), (Pick 0 Leaf), (Pick 0 Leaf),
     (Pick 0 Leaf), (Pick 0 Leaf)])), (Pick 8 (Each [(Pick 1 (Each [(Pick 7 Leaf), (Pick
     7 Leaf), (Pick 6 (Each [Leaf]))])), (Pick 0 Leaf), (Pick 0 Leaf), (Pick 0 Leaf),
     (Pick 0 Leaf)])), (Pick 8 (Each [(Pick 6 (Each [(Pick 7 Leaf), (Pick 7 Leaf), (Pick
     2 Leaf)])), (Pick 0 Leaf), (Pick 0 Leaf), (Pick 0 Leaf), (Pick 0 Leaf)])), (Pick 7
     (Each [(Pick 1 Leaf), (Pick 0 (Each [(Pick 8 Leaf), (Pick 8 Leaf), (Pick 2 (Each
     [Leaf]))])), (Pick 1 Leaf), (Pick 1 Leaf), (Pick 1 Leaf)])), (Pick 8 (Each [(Pick 6
     (Each [(Pick 2 Leaf), (Pick 1 (Each [Leaf])), (Pick 2 Leaf)])), (Pick 0 Leaf),
     (Pick 0 Leaf), (Pick 0 Leaf), (Pick 0 Leaf)])), (Pick 2 (Each [(Pick 6 Leaf), (Pick
     6 Leaf), (Pick 6 Leaf), (Pick 7 (Each [(Pick 1 Leaf), (Pick 3 (Each [Leaf])), (Pick
     1 Leaf)])), (Pick 6 Leaf)]))])), (Pick 4 (Each [(Pick 3 (Each [(Pick 5 Leaf), (Pick
     5 Leaf), (Pick 7 (Each [(Pick 2 (Each [Leaf])), (Pick 1 Leaf), (Pick 1 Leaf)])),
     (Pick 5 Leaf), (Pick 5 Leaf)])), (Pick 5 (Each [(Pick 3 Leaf), (Pick 3 Leaf), (Pick
     0 (Each [(Pick 8 Leaf), (Pick 8 Leaf), (Pick 7 (Each [Leaf]))])), (Pick 3 Leaf),
     (Pick 3 Leaf)])), (Pick 7 (Each [(Pick 1 Leaf), (Pick 0 (Each [(Pick 8 Leaf), (Pick
     8 Leaf), (Pick 5 (Each [Leaf]))])), (Pick 1 Leaf), (Pick 1 Leaf), (Pick 1 Leaf)])),
     (Pick 0 (Each [(Pick 8 Leaf), (Pick 8 Leaf), (Pick 8 Leaf), (Pick 8 Leaf), (Pick 7
     (Each [(Pick 5 (Each [Leaf])), (Pick 1 Leaf), (Pick 1 Leaf)]))])), (Pick 7 (Each
     [(Pick 1 Leaf), (Pick 0 (Each [(Pick 8 Leaf), (Pick 8 Leaf), (Pick 2 (Each
     [Leaf]))])), (Pick 1 Leaf), (Pick 1 Leaf), (Pick 1 Leaf)])), (Pick 8 (Each [(Pick 3
     (Each [(Pick 5 Leaf), (Pick 5 Leaf), (Pick 2 (Each [Leaf]))])), (Pick 0 Leaf),
     (Pick 0 Leaf), (Pick 0 Leaf), (Pick 0 Leaf)])), (Pick 7 (Each [(Pick 1 Leaf), (Pick
     5 (Each [(Pick 3 Leaf), (Pick 3 Leaf), (Pick 0 (Each [Leaf]))])), (Pick 1 Leaf),
     (Pick 1 Leaf), (Pick 1 Leaf)]))])), (Pick 4 (Each [(Pick 5 (Each [(Pick 3 Leaf),
     (Pick 3 Leaf), (Pick 6 (Each [(Pick 2 Leaf), (Pick 1 (Each [Leaf])), (Pick 2
     Leaf)])), (Pick 3 Leaf), (Pick 3 Leaf)])), (Pick 8 (Each [(Pick 2 (Each [(Pick 6
     Leaf), (Pick 6 Leaf), (Pick 5 Leaf)])), (Pick 0 Leaf), (Pick 0 Leaf), (Pick 0
     Leaf), (Pick 0 Leaf)])), (Pick 5 (Each [(Pick 3 Leaf), (Pick 3 Leaf), (Pick 0 (Each
     [(Pick 8 Leaf), (Pick 8 Leaf), (Pick 6 (Each [Leaf]))])), (Pick 3 Leaf), (Pick 3
     Leaf)])), (Pick 8 (Each [(Pick 6 (Each [(Pick 2 Leaf), (Pick 1 (Each [Leaf])),
     (Pick 2 Leaf)])), (Pick 0 Leaf), (Pick 0 Leaf), (Pick 0 Leaf), (Pick 0 Leaf)])),
     (Pick 8 (Each [(Pick 6 (Each [(Pick 2 Leaf), (Pick 1 (Each [Leaf])), (Pick 2
     Leaf)])), (Pick 0 Leaf), (Pick 0 Leaf), (Pick 0 Leaf), (Pick 0 Leaf)])), (Pick 8
     (Each [(Pick 3 (Each [(Pick 5 Leaf), (Pick 5 Leaf), (Pick 2 (Each [Leaf]))])),
     (Pick 0 Leaf), (Pick 0 Leaf), (Pick 0 Leaf), (Pick 0 Leaf)])), (Pick 6 (Each [(Pick
     2 Leaf), (Pick 2 Leaf), (Pick 5 (Each [(Pick 3 Leaf), (Pick 3 Leaf), (Pick 1 (Each
     [Leaf]))])), (Pick 2 Leaf), (Pick 2 Leaf)]))])), (Pick 4 (Each [(Pick 7 (Each
     [(Pick 2 (Each [(Pick 6 Leaf), (Pick 6 Leaf), (Pick 3 (Each [Leaf]))])), (Pick 1
     Leaf), (Pick 1 Leaf), (Pick 1 Leaf), (Pick 1 Leaf)])), (Pick 5 (Each [(Pick 3
     Leaf), (Pick 3 Leaf), (Pick 6 (Each [(Pick 2 Leaf), (Pick 0 (Each [Leaf])), (Pick 2
     Leaf)])), (Pick 3 Leaf), (Pick 3 Leaf)])), (Pick 5 (Each [(Pick 3 Leaf), (Pick 3
     Leaf), (Pick 7 (Each [(Pick 1 Leaf), (Pick 0 (Each [Leaf])), (Pick 1 Leaf)])),
     (Pick 3 Leaf), (Pick 3 Leaf)])), (Pick 7 (Each [(Pick 1 Leaf), (Pick 2 (Each [(Pick
     6 Leaf), (Pick 6 Leaf), (Pick 0 (Each [Leaf]))])), (Pick 1 Leaf), (Pick 1 Leaf),
     (Pick 1 Leaf)])), (Pick 2 (Each [(Pick 6 Leaf), (Pick 6 Leaf), (Pick 6 Leaf), (Pick
     7 (Each [(Pick 1 Leaf), (Pick 3 (Each [Leaf])), (Pick 1 Leaf)])), (Pick 6 Leaf)])),
     (Pick 7 (Each [(Pick 1 Leaf), (Pick 5 (Each [(Pick 3 Leaf), (Pick 3 Leaf), (Pick 0
     (Each [Leaf]))])), (Pick 1 Leaf), (Pick 1 Leaf), (Pick 1 Leaf)])), (Pick 6 (Each
     [(Pick 2 Leaf), (Pick 2 Leaf), (Pick 5 (Each [(Pick 3 Leaf), (Pick 3 Leaf), (Pick 1
     (Each [Leaf]))])), (Pick 2 Leaf), (Pick 2 Leaf)]))]))])"

text \<open>A strategy of the crosses on the empty board at ply 0 that concedes no loss: the value is at least 0.\<close>

definition opening_lower :: strategy where
  "opening_lower =
     (Pick 8 (Each [(Pick 6 (Each [(Pick 7 Leaf), (Pick 7 Leaf), (Pick 7 Leaf), (Pick 7
     Leaf), (Pick 7 Leaf), (Pick 2 (Each [(Pick 5 Leaf), (Pick 5 Leaf), (Pick 5 Leaf),
     (Pick 4 Leaf)]))])), (Pick 6 (Each [(Pick 7 Leaf), (Pick 7 Leaf), (Pick 7 Leaf),
     (Pick 7 Leaf), (Pick 7 Leaf), (Pick 4 (Each [(Pick 2 Leaf), (Pick 0 Leaf), (Pick 2
     Leaf), (Pick 2 Leaf)]))])), (Pick 7 (Each [(Pick 6 Leaf), (Pick 6 Leaf), (Pick 6
     Leaf), (Pick 6 Leaf), (Pick 6 Leaf), (Pick 4 (Each [(Pick 1 Leaf), (Pick 0 Leaf),
     (Pick 1 Leaf), (Pick 1 Leaf)]))])), (Pick 6 (Each [(Pick 7 Leaf), (Pick 7 Leaf),
     (Pick 7 Leaf), (Pick 7 Leaf), (Pick 7 Leaf), (Pick 4 (Each [(Pick 2 Leaf), (Pick 2
     Leaf), (Pick 0 Leaf), (Pick 2 Leaf)]))])), (Pick 7 (Each [(Pick 6 Leaf), (Pick 6
     Leaf), (Pick 6 Leaf), (Pick 6 Leaf), (Pick 6 Leaf), (Pick 2 (Each [(Pick 5 Leaf),
     (Pick 5 Leaf), (Pick 5 Leaf), (Pick 3 (Each [(Pick 1 Leaf), (Pick 0 Leaf)]))]))])),
     (Pick 7 (Each [(Pick 6 Leaf), (Pick 6 Leaf), (Pick 6 Leaf), (Pick 6 Leaf), (Pick 6
     Leaf), (Pick 4 (Each [(Pick 1 Leaf), (Pick 0 Leaf), (Pick 1 Leaf), (Pick 1
     Leaf)]))])), (Pick 5 (Each [(Pick 2 Leaf), (Pick 2 Leaf), (Pick 4 (Each [(Pick 3
     Leaf), (Pick 3 Leaf), (Pick 0 Leaf), (Pick 3 Leaf)])), (Pick 2 Leaf), (Pick 2
     Leaf), (Pick 2 Leaf)])), (Pick 5 (Each [(Pick 2 Leaf), (Pick 2 Leaf), (Pick 4 (Each
     [(Pick 3 Leaf), (Pick 3 Leaf), (Pick 0 Leaf), (Pick 3 Leaf)])), (Pick 2 Leaf),
     (Pick 2 Leaf), (Pick 2 Leaf)]))]))"

text \<open>After a cross in the centre and a nought in the corner 0 (ply 2), the noughts hold the value to at most 0.\<close>

definition center_upper :: strategy where
  "center_upper =
     (Each [(Pick 7 (Each [(Pick 6 (Each [(Pick 8 Leaf), (Pick 8 Leaf), (Pick 3
     Leaf)])), (Pick 5 (Each [(Pick 6 (Each [Leaf])), (Pick 2 (Each [Leaf])), (Pick 6
     (Each [Leaf]))])), (Pick 3 (Each [(Pick 6 Leaf), (Pick 2 (Each [Leaf])), (Pick 6
     Leaf)])), (Pick 2 (Each [(Pick 5 (Each [Leaf])), (Pick 3 (Each [Leaf])), (Pick 5
     (Each [Leaf]))])), (Pick 6 (Each [(Pick 3 Leaf), (Pick 5 (Each [Leaf])), (Pick 3
     Leaf)]))])), (Pick 6 (Each [(Pick 3 Leaf), (Pick 5 (Each [(Pick 7 (Each [Leaf])),
     (Pick 1 (Each [Leaf])), (Pick 7 (Each [Leaf]))])), (Pick 3 Leaf), (Pick 3 Leaf),
     (Pick 3 Leaf)])), (Pick 5 (Each [(Pick 7 (Each [(Pick 6 (Each [Leaf])), (Pick 2
     (Each [Leaf])), (Pick 6 (Each [Leaf]))])), (Pick 6 (Each [(Pick 7 (Each [Leaf])),
     (Pick 1 (Each [Leaf])), (Pick 7 (Each [Leaf]))])), (Pick 2 (Each [(Pick 8 Leaf),
     (Pick 8 Leaf), (Pick 1 Leaf)])), (Pick 1 (Each [(Pick 6 (Each [Leaf])), (Pick 2
     Leaf), (Pick 2 Leaf)])), (Pick 2 (Each [(Pick 7 (Each [Leaf])), (Pick 1 Leaf),
     (Pick 1 Leaf)]))])), (Pick 3 (Each [(Pick 6 Leaf), (Pick 6 Leaf), (Pick 2 (Each
     [(Pick 7 (Each [Leaf])), (Pick 1 Leaf), (Pick 1 Leaf)])), (Pick 6 Leaf), (Pick 6
     Leaf)])), (Pick 2 (Each [(Pick 7 (Each [(Pick 5 (Each [Leaf])), (Pick 3 (Each
     [Leaf])), (Pick 5 (Each [Leaf]))])), (Pick 1 Leaf), (Pick 1 Leaf), (Pick 1 Leaf),
     (Pick 1 Leaf)])), (Pick 1 (Each [(Pick 6 (Each [(Pick 5 (Each [Leaf])), (Pick 3
     Leaf), (Pick 3 Leaf)])), (Pick 2 Leaf), (Pick 2 Leaf), (Pick 2 Leaf), (Pick 2
     Leaf)])), (Pick 6 (Each [(Pick 3 Leaf), (Pick 3 Leaf), (Pick 5 (Each [(Pick 7 (Each
     [Leaf])), (Pick 7 (Each [Leaf])), (Pick 1 (Each [Leaf]))])), (Pick 3 Leaf), (Pick 3
     Leaf)]))])"

text \<open>After a cross in the centre (ply 1), every reply of the noughts leaves the crosses at least 0.\<close>

definition center_lower :: strategy where
  "center_lower =
     (Each [(Pick 7 (Each [(Pick 2 (Each [(Pick 6 Leaf), (Pick 6 Leaf), (Pick 3 (Each
     [(Pick 8 Leaf), (Pick 5 Leaf)])), (Pick 6 Leaf)])), (Pick 1 Leaf), (Pick 1 Leaf),
     (Pick 1 Leaf), (Pick 1 Leaf), (Pick 1 Leaf)])), (Pick 8 (Each [(Pick 2 (Each [(Pick
     6 Leaf), (Pick 6 Leaf), (Pick 5 Leaf), (Pick 6 Leaf)])), (Pick 0 Leaf), (Pick 0
     Leaf), (Pick 0 Leaf), (Pick 0 Leaf), (Pick 0 Leaf)])), (Pick 8 (Each [(Pick 1 (Each
     [(Pick 7 Leaf), (Pick 7 Leaf), (Pick 7 Leaf), (Pick 6 (Each [(Pick 5 Leaf), (Pick 3
     Leaf)]))])), (Pick 0 Leaf), (Pick 0 Leaf), (Pick 0 Leaf), (Pick 0 Leaf), (Pick 0
     Leaf)])), (Pick 8 (Each [(Pick 6 (Each [(Pick 7 Leaf), (Pick 7 Leaf), (Pick 7
     Leaf), (Pick 2 Leaf)])), (Pick 0 Leaf), (Pick 0 Leaf), (Pick 0 Leaf), (Pick 0
     Leaf), (Pick 0 Leaf)])), (Pick 8 (Each [(Pick 7 (Each [(Pick 6 Leaf), (Pick 6
     Leaf), (Pick 6 Leaf), (Pick 1 Leaf)])), (Pick 0 Leaf), (Pick 0 Leaf), (Pick 0
     Leaf), (Pick 0 Leaf), (Pick 0 Leaf)])), (Pick 8 (Each [(Pick 3 (Each [(Pick 5
     Leaf), (Pick 5 Leaf), (Pick 7 (Each [(Pick 2 Leaf), (Pick 1 Leaf)])), (Pick 5
     Leaf)])), (Pick 0 Leaf), (Pick 0 Leaf), (Pick 0 Leaf), (Pick 0 Leaf), (Pick 0
     Leaf)])), (Pick 8 (Each [(Pick 5 (Each [(Pick 3 Leaf), (Pick 3 Leaf), (Pick 2
     Leaf), (Pick 3 Leaf)])), (Pick 0 Leaf), (Pick 0 Leaf), (Pick 0 Leaf), (Pick 0
     Leaf), (Pick 0 Leaf)])), (Pick 7 (Each [(Pick 1 Leaf), (Pick 5 (Each [(Pick 3
     Leaf), (Pick 3 Leaf), (Pick 6 (Each [(Pick 2 Leaf), (Pick 0 Leaf)])), (Pick 3
     Leaf)])), (Pick 1 Leaf), (Pick 1 Leaf), (Pick 1 Leaf), (Pick 1 Leaf)]))])"

text \<open>On \<open>[X,_,_,_,X,_,_,_,O]\<close> at ply 2 the crosses get at most 5.\<close>

definition tie_break_upper :: strategy where
  "tie_break_upper =
     (Each [(Pick 6 (Each [Leaf, (Pick 7 Leaf), (Pick 7 Leaf), Leaf])), (Pick 7 (Each
     [Leaf, (Pick 6 Leaf), (Pick 6 Leaf), Leaf])), (Pick 7 (Each [(Pick 6 Leaf), (Pick 6
     Leaf), Leaf, Leaf])), (Pick 7 (Each [(Pick 6 Leaf), (Pick 6 Leaf), Leaf, (Pick 1
     (Each [Leaf, Leaf]))])), (Pick 5 (Each [(Pick 2 Leaf), Leaf, Leaf, (Pick 2
     Leaf)])), (Pick 5 (Each [Leaf, (Pick 3 (Each [Leaf, Leaf])), (Pick 2 Leaf), (Pick 2
     Leaf)]))])"

text \<open>On \<open>[O,X,_,_,X,_,_,O,_]\<close> at ply 4 the crosses get at most 0.\<close>

definition block_upper :: strategy where
  "block_upper =
     (Each [(Pick 6 (Each [(Pick 8 Leaf), (Pick 8 Leaf), (Pick 3 Leaf)])), (Pick 5 (Each [(Pick 6
     (Each [Leaf])), (Pick 2 (Each [Leaf])), (Pick 6 (Each [Leaf]))])), (Pick 3 (Each [(Pick 6 Leaf),
     (Pick 2 (Each [Leaf])), (Pick 6 Leaf)])), (Pick 2 (Each [(Pick 5 (Each [Leaf])), (Pick 3 (Each
     [Leaf])), (Pick 5 (Each [Leaf]))])), (Pick 6 (Each [(Pick 3 Leaf), (Pick 5 (Each [Leaf])), (Pick 3
     Leaf)]))])"

subsection \<open>Soundness\<close>

lemma game_value_open:
  "\<not> gameOver b \<Longrightarrow>
   game_value b d =
     (if even d then Max ((\<lambda>i. game_value (b[i := Cross]) (Suc d)) ` open_from b 0)
      else Min ((\<lambda>i. game_value (b[i := Nought]) (Suc d)) ` open_from b 0))"
  by (simp add: game_value.simps [of b d] set_moves)

lemma strategy_sound:
  "strategy_ok up t b d v \<Longrightarrow> bound_ok up (game_value b d) v"
  "strategies_ok up ts ms b d v \<Longrightarrow>
     \<forall>m \<in> set ms. bound_ok up (game_value (b[m := (if even d then Cross else Nought)]) (Suc d)) v"
proof (induction up t b d v and up ts ms b d v rule: strategy_ok_strategies_ok.induct)
  case (1 up b d v)
  then show ?case by (simp add: game_value.simps [of b d])
next
  case (2 up m t b d v)
  from "2.prems" have mo: "m \<in> open_from b 0" and ne: "\<not> gameOver b" and turn: "even d \<noteq> up"
    and st: "strategy_ok up t (b[m := (if even d then Cross else Nought)]) (Suc d) v"
    by (simp_all only: strategy_ok.simps set_moves not_False_eq_True)
  from st have "bound_ok up (game_value (b[m := (if even d then Cross else Nought)]) (Suc d)) v"
    by (rule "2.IH")
  moreover have "game_value (b[m := Cross]) (Suc d) \<le>
      Max ((\<lambda>i. game_value (b[i := Cross]) (Suc d)) ` open_from b 0)"
    "Min ((\<lambda>i. game_value (b[i := Nought]) (Suc d)) ` open_from b 0) \<le>
      game_value (b[m := Nought]) (Suc d)"
    using mo by (simp_all add: Max_ge Min_le)
  ultimately show ?case using ne turn
    by (auto simp: game_value_open bound_ok_def)
next
  case (3 up ts b d v)
  then have ne: "open_from b 0 \<noteq> {}" "\<not> gameOver b" by (simp_all add: moves_nonempty)
  from 3 have all: "\<forall>m \<in> open_from b 0.
      bound_ok up (game_value (b[m := (if even d then Cross else Nought)]) (Suc d)) v"
    by (simp add: set_moves)
  with 3 ne show ?case
    by (auto simp: game_value_open bound_ok_def)
qed simp_all

lemma strategy_upper: "strategy_ok True t b d v \<Longrightarrow> game_value b d \<le> v"
  using strategy_sound(1) [of True t b d v] by (simp add: bound_ok_def)

lemma strategy_lower: "strategy_ok False t b d v \<Longrightarrow> v \<le> game_value b d"
  using strategy_sound(1) [of False t b d v] by (simp add: bound_ok_def)

lemma strategy_each:
  "strategy_ok up (Each ts) b d v \<Longrightarrow>
   \<forall>m \<in> open_from b 0. bound_ok up (game_value (b[m := (if even d then Cross else Nought)]) (Suc d)) v"
  using strategy_sound(2) [of up ts "moves b" b d v] by (simp add: set_moves)

lemma reply_score_game_value:
  "j \<in> open_from b 0 \<Longrightarrow> depth + empties b \<le> 30 \<Longrightarrow>
   reply_score b depth j = game_value (b[j := Nought]) (Suc depth)"
  using minimax_game_value_bounded [of "Suc depth" "b[j := Nought]"] empties_move [of j b Nought]
  by (simp add: reply_score_def)

text \<open>
  \<open>bestMove\<close> is determined by bounds on the replies: the square \<open>m\<close> scores at most
  \<open>v\<close>, every other square at least \<open>v\<close>, and every earlier square more than \<open>v\<close>.
\<close>

lemma bestMove_by_bounds:
  assumes m: "m \<in> open_from b 0" and room: "depth + empties b \<le> 30"
    and le: "game_value (b[m := Nought]) (Suc depth) \<le> v"
    and others: "\<forall>j \<in> open_from b 0. j \<noteq> m \<longrightarrow> v \<le> game_value (b[j := Nought]) (Suc depth)"
    and before: "\<forall>j \<in> open_from b 0. j < m \<longrightarrow> v < game_value (b[j := Nought]) (Suc depth)"
  shows "bestMove b depth = Some m"
proof -
  have sc: "reply_score b depth j = game_value (b[j := Nought]) (Suc depth)"
    if "j \<in> open_from b 0" for j
    using that room by (rule reply_score_game_value)
  have "open_from b 0 \<noteq> {}" using m by blast
  with bestMove_cases [of b depth "bestMove b depth"] open_from_0_empty_iff [of b]
  obtain m' where m': "m' \<in> open_from b 0" "bestMove b depth = Some m'"
    and least: "\<forall>j \<in> open_from b 0. reply_score b depth m' \<le> reply_score b depth j"
    and first: "\<forall>j \<in> open_from b 0. j < m' \<longrightarrow> reply_score b depth m' < reply_score b depth j"
    by auto
  have "m' = m"
  proof (rule ccontr)
    assume "m' \<noteq> m"
    then consider "m' < m" | "m < m'" by linarith
    then show False
    proof cases
      case 1
      with before m' have "v < reply_score b depth m'" by (simp add: sc)
      moreover from least m have "reply_score b depth m' \<le> reply_score b depth m" by blast
      ultimately show False using le m by (simp add: sc)
    next
      case 2
      with first m have "reply_score b depth m' < reply_score b depth m" by blast
      moreover from others m' 2 have "v \<le> reply_score b depth m'" by (simp add: sc)
      ultimately show False using le m by (simp add: sc)
    qed
  qed
  with m' show ?thesis by simp
qed

lemma empty_board_value: "game_value (replicate 9 Empty) 0 = 0"
proof -
  have "strategy_ok True opening_upper (replicate 9 Empty) 0 0" by code_simp
  moreover have "strategy_ok False opening_lower (replicate 9 Empty) 0 0" by code_simp
  ultimately show ?thesis by (simp add: strategy_upper strategy_lower order_antisym)
qed

lemma empty_board_room: "empties (replicate 9 Empty) = 9"
  by code_simp

text \<open>The bot's answers in the game 4, 1, 2, 3 of the human: a corner after the centre,
  and the block of the column 1--4--7.\<close>

lemma center_reply: "bestMove ((replicate 9 Empty)[4 := Cross]) 1 = Some 0"
proof -
  let ?b = "(replicate 9 Empty)[4 := Cross]"
  have up: "strategy_ok True center_upper (?b[0 := Nought]) (Suc 1) 0" by code_simp
  have lo: "strategy_ok False center_lower ?b 1 0" by code_simp
  have room: "1 + empties ?b \<le> 30" by code_simp
  have o: "0 \<in> open_from ?b 0" by (simp add: open_from_def)
  have c0: "game_value (?b[0 := Nought]) (Suc 1) \<le> 0"
    using up by (rule strategy_upper)
  have all: "\<forall>j \<in> open_from ?b 0. 0 \<le> game_value (?b[j := Nought]) (Suc 1)"
    using strategy_each [OF lo [unfolded center_lower_def]] by (simp add: bound_ok_def)
  show ?thesis
    using bestMove_by_bounds [OF o room c0] all by simp
qed

lemma block_reply: "bestMove [Nought, Cross, Empty, Empty, Cross, Empty, Empty, Empty, Empty] 3 = Some 7"
proof -
  let ?b = "[Nought, Cross, Empty, Empty, Cross, Empty, Empty, Empty, Empty]"
  have up: "strategy_ok True block_upper (?b[7 := Nought]) (Suc 3) 0" by code_simp
  have lo: "\<forall>j \<in> {2, 3, 5, 6, 8}. strategy_ok False (Pick 7 Leaf) (?b[j := Nought]) (Suc 3) 5"
    by code_simp
  have "moves ?b = [2, 3, 5, 6, 7, 8]" by code_simp
  then have o: "open_from ?b 0 = {2, 3, 5, 6, 7, 8}" by (simp flip: set_moves)
  have room: "3 + empties ?b \<le> 30" by code_simp
  have c7: "game_value (?b[7 := Nought]) (Suc 3) \<le> 0"
    using up by (rule strategy_upper)
  have "\<forall>j \<in> {2, 3, 5, 6, 8}. 5 \<le> game_value (?b[j := Nought]) (Suc 3)"
    using lo by (blast intro: strategy_lower)
  then show ?thesis
    using bestMove_by_bounds [of 7 ?b 3 0] o room c7 by auto
qed

section \<open>Properties\<close>

text \<open>
  C19. The empty board is a draw with perfect play: the code's \<open>minimax\<close> scores the
  starting position of every game 0.
\<close>

theorem empty_board_draw: "minimax (replicate 9 Empty) 0 = 0"
  using minimax_game_value_bounded [of 0 "replicate 9 Empty"] empty_board_value empty_board_room
  by simp

text \<open>
  C20. The spec's first scenario: after the human opens in the centre, \<open>bestMove\<close>
  answers in a corner, the first one (square 0), and the position is a draw with
  perfect play (its \<open>minimax\<close> score at ply 1 is 0).
\<close>

theorem center_opening_scenario:
  "bestMove ((replicate 9 Empty)[4 := Cross]) 1 = Some 0 \<and>
   minimax ((replicate 9 Empty)[4 := Cross]) 1 = 0"
proof -
  let ?b = "(replicate 9 Empty)[4 := Cross]"
  have up: "strategy_ok True (Pick 0 center_upper) ?b 1 0" by code_simp
  have lo: "strategy_ok False center_lower ?b 1 0" by code_simp
  have room: "1 + empties ?b \<le> 30" by code_simp
  show ?thesis
    using center_reply strategy_upper [OF up] strategy_lower [OF lo]
      minimax_game_value_bounded [of 1 ?b] room by simp
qed

text \<open>
  C21. The spec's tie-break scenario: on \<open>[X,_,_,_,X,_,_,_,_]\<close> at ply 1 the bot
  blocks the diagonal at square 8; every other reply lets the crosses win at once.
\<close>

theorem tie_break_scenario:
  "bestMove [Cross, Empty, Empty, Empty, Cross, Empty, Empty, Empty, Empty] 1 = Some 8"
proof -
  let ?b = "[Cross, Empty, Empty, Empty, Cross, Empty, Empty, Empty, Empty]"
  have up: "strategy_ok True tie_break_upper (?b[8 := Nought]) (Suc 1) 5" by code_simp
  have lo: "\<forall>j \<in> {1, 2, 3, 5, 6, 7}. strategy_ok False (Pick 8 Leaf) (?b[j := Nought]) (Suc 1) 7"
    by code_simp
  have mv: "moves ?b = [1, 2, 3, 5, 6, 7, 8]" by code_simp
  then have o: "open_from ?b 0 = {1, 2, 3, 5, 6, 7, 8}" by (simp flip: set_moves)
  have room: "1 + empties ?b \<le> 30" by code_simp
  have c8: "game_value (?b[8 := Nought]) (Suc 1) \<le> 5"
    using up by (rule strategy_upper)
  have "\<forall>j \<in> {1, 2, 3, 5, 6, 7}. 7 \<le> game_value (?b[j := Nought]) (Suc 1)"
    using lo by (blast intro: strategy_lower)
  then show ?thesis
    using bestMove_by_bounds [of 8 ?b 1 5] o room c8 by auto
qed

end
