(* ===== verification/Symmetry.thy ===== *)
theory Symmetry
  imports Search "HOL-Library.Multiset"
begin

text \<open>
  The symmetries of the board. A symmetry is a list \<open>p\<close> of the nine indices: square
  \<open>i\<close> of the transformed board holds square \<open>p ! i\<close> of the original. \<open>rotation\<close> turns
  the board a quarter turn clockwise and \<open>reflection\<close> mirrors it left to right; together
  they generate the eight symmetries of the square. Both map the winning lines of
  \<open>winPatterns\<close> onto winning lines, so on boards without lines of both players the
  game value, and hence the code's \<open>minimax\<close> score, does not see them.
\<close>

definition permute :: "nat list \<Rightarrow> board \<Rightarrow> board" where
  "permute p b = map (\<lambda>i. b ! i) p"

definition rotation :: "nat list" where
  "rotation = [6, 3, 0, 7, 4, 1, 8, 5, 2]"

definition reflection :: "nat list" where
  "reflection = [2, 1, 0, 5, 4, 3, 8, 7, 6]"

subsection \<open>Permuted boards\<close>

lemma length_permute [simp]: "length (permute p b) = length p"
  by (simp add: permute_def)

lemma nth_permute [simp]: "i < length p \<Longrightarrow> permute p b ! i = b ! (p ! i)"
  by (simp add: permute_def)

lemma permute_update:
  assumes "distinct p" "i < length p" "p ! i < length b"
  shows "permute p (b[p ! i := c]) = (permute p b)[i := c]"
proof (rule nth_equalityI)
  fix j assume "j < length (permute p (b[p ! i := c]))"
  then have j: "j < length p" by simp
  with assms have "p ! j = p ! i \<longleftrightarrow> j = i" by (simp add: nth_eq_iff_index_eq)
  with j show "permute p (b[p ! i := c]) ! j = (permute p b)[i := c] ! j"
    using assms(3) by (cases "j = i") (simp_all add: nth_list_update)
qed simp

lemma mset_permute:
  assumes "distinct p" "set p = {0..<length b}"
  shows "mset (permute p b) = mset b"
proof -
  have p: "mset p = mset [0..<length b]"
    using assms set_eq_iff_mset_eq_distinct [of p "[0..<length b]"] by (metis distinct_upt set_upt)
  have "mset (permute p b) = image_mset (\<lambda>i. b ! i) (mset p)"
    unfolding permute_def by (rule mset_map)
  also have "\<dots> = mset (map (\<lambda>i. b ! i) [0..<length b])"
    unfolding p by (rule mset_map [symmetric])
  finally show ?thesis by (simp only: map_nth)
qed

lemma empties_permute: "distinct p \<Longrightarrow> set p = {0..<length b} \<Longrightarrow> empties (permute p b) = empties b"
  using mset_permute [of p b] by (metis count_mset empties_def)

lemma rotation_facts: "distinct rotation" "set rotation = {0..<9}" "length rotation = 9"
  by (simp_all add: rotation_def) code_simp

lemma reflection_facts: "distinct reflection" "set reflection = {0..<9}" "length reflection = 9"
  by (simp_all add: reflection_def) code_simp

text \<open>A board of nine squares has a line of \<open>m\<close> when the three squares of some pattern
  hold \<open>m\<close>; the patterns can be taken as sets of squares.\<close>

lemma has_line_sets:
  "length b = 9 \<Longrightarrow>
   has_line m b \<longleftrightarrow> (\<exists>L \<in> (\<lambda>(x, y, z). {x, y, z}) ` set winPatterns. \<forall>k \<in> L. b ! k = m)"
  by (auto simp: has_line_def is_line_iff winPatterns_def)

lemma has_line_permute_sets:
  "length b = 9 \<Longrightarrow> length p = 9 \<Longrightarrow> set p \<subseteq> {0..<9} \<Longrightarrow>
   has_line m (permute p b) \<longleftrightarrow>
     (\<exists>L \<in> (\<lambda>(x, y, z). {p ! x, p ! y, p ! z}) ` set winPatterns. \<forall>k \<in> L. b ! k = m)"
  by (auto simp: has_line_def is_line_iff winPatterns_def)

lemma rotation_lines:
  "(\<lambda>(x, y, z). {rotation ! x, rotation ! y, rotation ! z}) ` set winPatterns =
   (\<lambda>(x, y, z). {x, y, z}) ` set winPatterns"
  by code_simp

lemma reflection_lines:
  "(\<lambda>(x, y, z). {reflection ! x, reflection ! y, reflection ! z}) ` set winPatterns =
   (\<lambda>(x, y, z). {x, y, z}) ` set winPatterns"
  by code_simp

lemma has_line_permute:
  assumes "length p = 9" "set p \<subseteq> {0..<9}"
    and "(\<lambda>(x, y, z). {p ! x, p ! y, p ! z}) ` set winPatterns = (\<lambda>(x, y, z). {x, y, z}) ` set winPatterns"
    and "length b = 9"
  shows "has_line m (permute p b) = has_line m b"
proof -
  have "has_line m (permute p b) \<longleftrightarrow>
      (\<exists>L \<in> (\<lambda>(x, y, z). {p ! x, p ! y, p ! z}) ` set winPatterns. \<forall>k \<in> L. b ! k = m)"
    by (rule has_line_permute_sets [OF assms(4,1,2)])
  also have "\<dots> \<longleftrightarrow> has_line m b"
    unfolding assms(3) by (rule has_line_sets [OF assms(4), symmetric])
  finally show ?thesis .
qed

lemma full_permute:
  "set p = {0..<length b} \<Longrightarrow> full (permute p b) = full b"
  by (force simp: full_def permute_def in_set_conv_nth)

text \<open>\<open>checkWinner\<close> depends only on which players have lines and on fullness, as long
  as at most one player has a line.\<close>

lemma checkWinner_by_lines:
  assumes "has_line Cross c = has_line Cross b" "has_line Nought c = has_line Nought b"
    "full c = full b" "\<not> (has_line Cross b \<and> has_line Nought b)"
  shows "checkWinner c = checkWinner b"
proof -
  have "checkWinner d = (if has_line Cross d then Some XWins else if has_line Nought d then Some OWins
      else if full d then Some Draw else None)"
    if "\<not> (has_line Cross d \<and> has_line Nought d)" for d
  proof (cases "checkWinner d")
    case None
    then show ?thesis by (simp add: checkWinner_None_iff)
  next
    case (Some r)
    then show ?thesis using that
      by (cases r) (auto dest: checkWinner_XWins_line checkWinner_OWins_line simp: checkWinner_Draw_iff)
  qed
  with assms show ?thesis by simp
qed

lemma game_value_permute:
  assumes p: "distinct p" "length p = 9" "set p = {0..<9}"
    and lines: "(\<lambda>(x, y, z). {p ! x, p ! y, p ! z}) ` set winPatterns = (\<lambda>(x, y, z). {x, y, z}) ` set winPatterns"
  shows "length b = 9 \<Longrightarrow> \<not> (has_line Cross b \<and> has_line Nought b) \<Longrightarrow>
    game_value (permute p b) d = game_value b d"
proof (induction b d rule: game_value.induct)
  case (1 b d)
  have sub: "set p \<subseteq> {0..<9}" using p(3) by simp
  have hl: "has_line m (permute p b) = has_line m b" for m
    by (rule has_line_permute [OF p(2) sub lines "1.prems"(1)])
  have fl: "full (permute p b) = full b" using full_permute [of p b] p(3) "1.prems"(1) by simp
  have cw: "checkWinner (permute p b) = checkWinner b"
    by (rule checkWinner_by_lines [OF hl hl fl "1.prems"(2)])
  have go: "gameOver (permute p b) = gameOver b" using cw fl by (simp add: gameOver_def)
  show ?case
  proof (cases "gameOver b")
    case True
    with go cw show ?thesis
      by (simp add: game_value.simps [of "permute p b" d] game_value.simps [of b d] terminal_score_def)
  next
    case False
    have nl: "\<not> has_line Cross b" "\<not> has_line Nought b" using not_gameOver_no_line [OF False] by simp_all
    have pin: "p ! i < 9" if "i < 9" for i using that p(2,3) nth_mem [of i p] by auto
    have img: "(\<lambda>i. p ! i) ` open_from (permute p b) 0 = open_from b 0"
    proof
      show "(\<lambda>i. p ! i) ` open_from (permute p b) 0 \<subseteq> open_from b 0"
        using p(2) "1.prems"(1) pin by (auto simp: open_from_def)
      show "open_from b 0 \<subseteq> (\<lambda>i. p ! i) ` open_from (permute p b) 0"
      proof
        fix k assume "k \<in> open_from b 0"
        then have k: "k < 9" "b ! k = Empty" using "1.prems"(1) by (simp_all add: open_from_def)
        then have "k \<in> set p" using p(3) by simp
        then obtain i where i: "i < 9" "p ! i = k" using p(2) by (auto simp: in_set_conv_nth)
        with k p(2) have "i \<in> open_from (permute p b) 0" by (simp add: open_from_def)
        with i(2) show "k \<in> (\<lambda>i. p ! i) ` open_from (permute p b) 0" by blast
      qed
    qed
    have child: "game_value ((permute p b)[i := c]) (Suc d) = game_value (b[p ! i := c]) (Suc d)"
      if i: "i \<in> open_from (permute p b) 0" and c: "c = (if even d then Cross else Nought)" for i c
    proof -
      have i9: "i < 9" using i p(2) by (simp add: open_from_def)
      have mv: "p ! i \<in> set (moves b)" using img i by (auto simp: set_moves)
      have "(permute p b)[i := c] = permute p (b[p ! i := c])"
        using permute_update [OF p(1), of i b c] i9 pin p(2) "1.prems"(1) by simp
      moreover have len: "length (b[p ! i := c]) = 9" using "1.prems"(1) by simp
      moreover have "\<not> (has_line Cross (b[p ! i := c]) \<and> has_line Nought (b[p ! i := c]))"
        using nl has_line_update_other [of Cross b "p ! i" c] has_line_update_other [of Nought b "p ! i" c]
        by (cases c) auto
      ultimately show ?thesis
        using "1.IH"(1) [OF False _ mv] "1.IH"(2) [OF False _ mv] c by (cases "even d") simp_all
    qed
    have swap: "(\<lambda>i. game_value ((permute p b)[i := c]) (Suc d)) ` open_from (permute p b) 0 =
        (\<lambda>j. game_value (b[j := c]) (Suc d)) ` open_from b 0"
      if c: "c = (if even d then Cross else Nought)" for c
    proof -
      have "(\<lambda>i. game_value ((permute p b)[i := c]) (Suc d)) ` open_from (permute p b) 0 =
          (\<lambda>i. game_value (b[p ! i := c]) (Suc d)) ` open_from (permute p b) 0"
        by (rule image_cong) (simp_all add: child c)
      also have "\<dots> = (\<lambda>j. game_value (b[j := c]) (Suc d)) ` ((\<lambda>i. p ! i) ` open_from (permute p b) 0)"
        by (simp add: image_image)
      finally show ?thesis by (simp only: img)
    qed
    have "\<not> gameOver (permute p b)" using False go by simp
    with False show ?thesis
      using swap [of Cross] swap [of Nought]
      by (cases "even d") (simp_all add: game_value.simps [of "permute p b" d] game_value.simps [of b d] set_moves)
  qed
qed

section \<open>Properties\<close>

text \<open>
  C30. The code's score does not depend on the orientation of the board. Turning the
  board a quarter turn or mirroring it leaves \<open>minimax\<close> unchanged, on every board of
  nine squares without lines of both players, within the range where the sentinels bound
  the scores. The two symmetries generate all eight, so the same holds for each of them.
\<close>

theorem minimax_symmetric:
  assumes "p \<in> {rotation, reflection}" "length b = 9"
    "\<not> (has_line Cross b \<and> has_line Nought b)" "d + empties b \<le> 30"
  shows "minimax (permute p b) d = minimax b d"
proof -
  have "distinct p \<and> length p = 9 \<and> set p = {0..<9} \<and>
    (\<lambda>(x, y, z). {p ! x, p ! y, p ! z}) ` set winPatterns = (\<lambda>(x, y, z). {x, y, z}) ` set winPatterns"
    using assms(1)
  proof (elim insertE emptyE)
    assume "p = rotation"
    then show ?thesis using rotation_facts rotation_lines by (simp only: simp_thms)
  next
    assume "p = reflection"
    then show ?thesis using reflection_facts reflection_lines by (simp only: simp_thms)
  qed
  then have p: "distinct p" "length p = 9" "set p = {0..<9}"
    "(\<lambda>(x, y, z). {p ! x, p ! y, p ! z}) ` set winPatterns = (\<lambda>(x, y, z). {x, y, z}) ` set winPatterns"
    by simp_all
  have gv: "game_value (permute p b) d = game_value b d"
    using game_value_permute [OF p] assms(2,3) by blast
  have "empties (permute p b) = empties b"
    using empties_permute [of p b] p(1,3) assms(2) by simp
  then show ?thesis
    using minimax_game_value_bounded [of d b] minimax_game_value_bounded [of d "permute p b"] assms(4) gv
    by simp
qed

theorem minimax_symmetric_witness:
  "minimax (permute rotation [Cross, Empty, Empty, Empty, Nought, Empty, Empty, Empty, Empty]) 2 =
   minimax [Cross, Empty, Empty, Empty, Nought, Empty, Empty, Empty, Empty] 2"
proof -
  let ?b = "[Cross, Empty, Empty, Empty, Nought, Empty, Empty, Empty, Empty]"
  have h: "rotation \<in> {rotation, reflection}" "length ?b = 9"
    "\<not> (has_line Cross ?b \<and> has_line Nought ?b)" "2 + empties ?b \<le> 30"
    by simp_all code_simp+
  from minimax_symmetric [OF h] show ?thesis .
qed

end
