(* ===== verification/Spec2Isabelle.thy ===== *)
theory Spec2Isabelle
  imports Inplace Game_UI Strategy Symmetry
begin

text \<open>
  \<^bold>\<open>Verification of the tic-tac-toe bot of mkarlthayer/TicTacToeBot.\<close>

  The program is one React component, \<open>src/src/Game.js\<close>. It has three parts:
  \<^item> the board queries \<open>checkWinner\<close> (lines 8--29) and \<open>gameOver\<close> (lines 31--41)
    on an array of nine strings \<open>"_"\<close>, \<open>"X"\<close>, \<open>"O"\<close>;
  \<^item> the search: \<open>minimax\<close> (lines 44--89), a full-width recursive minimax with
    depth-dependent terminal scores \<open>10 - depth\<close> / \<open>depth - 10\<close> / \<open>0\<close>, sentinels
    \<open>-20\<close>/\<open>20\<close> and strict comparisons, and \<open>bestMove\<close> (lines 92--108), the bot's
    choice of the first square of least score. Both write candidate marks into the
    caller's array and undo them;
  \<^item> the controller: the state \<open>gameboard\<close>/\<open>depth\<close> (lines 5--6), \<open>handleClick\<close>
    (118--129), \<open>computerMove\<close> (111--116), the effect that lets the bot move or schedules
    the end-of-game alert and reset (131--146), and the Reset button (188). The rendering
    (148--191) only maps the nine cells to \<open>handleClick(gameboard, i)\<close>.
  The controller calls the search with the current array and ply; the search calls the
  board queries on every node.

  \<^bold>\<open>Theories.\<close>
  \<^item> \<open>Prelude\<close>: counting after a list update, running maxima/minima with sentinels.
  \<^item> \<open>Board\<close>: \<open>cell\<close> (the three strings), \<open>outcome\<close> (\<open>checkWinner\<close>'s results,
    \<open>undefined\<close> as \<open>None\<close>), \<open>cell_at\<close> (total array read), \<open>winPatterns\<close>,
    \<open>check_patterns\<close> (its loop), \<open>checkWinner\<close>, \<open>all_filled_from\<close> and
    \<open>gameOver\<close>. Lemmas: what the loops compute, \<open>checkWinner_spec\<close> (C8),
    \<open>gameOver_iff\<close> (C9), monotonicity of the end of the game under added marks.
  \<^item> \<open>Search\<close>: \<open>terminal_score\<close>, the mutually recursive \<open>minimax\<close>/\<open>max_loop\<close>/
    \<open>min_loop\<close> (the two \<open>for\<close> loops, value semantics), \<open>below_best\<close> (comparison with
    \<open>Infinity\<close>), \<open>bestMove_loop\<close>, \<open>bestMove\<close>; the specification \<open>game_value\<close>
    (max/min over the successors, the spec's \<open>legalMoves\<close> as \<open>moves\<close>). Lemmas: the
    loops compute \<open>Max\<close>/\<open>Min\<close> with the sentinel inserted; refinement of the
    specification (C1), valid while ply plus empty squares is at most 30;
    \<open>bestMove\<close> returns the first least reply (C3), keeps the value (C4), is
    \<open>undefined\<close> exactly on a full board (C5); score bounds (C6); human moves cannot
    raise the value (C7).
  \<^item> \<open>Inplace\<close>: the code's shared-array recursion. \<open>minimax_ip\<close> is a
    \<open>partial_function (option)\<close> over the call frames \<open>ip_call\<close> (the function body and
    its two loops), threading the array through every call; \<open>bestMove_ip\<close> likewise.
    Lemmas: both always return, restore the caller's array, and agree with the value
    model (C2, C10).
  \<^item> \<open>Game_UI\<close>: the record \<open>ui\<close> (a heap of arrays, the current reference
    \<open>gameboard\<close>, \<open>depth\<close>, pending timers with the reference each closure captured,
    the log of alert messages), \<open>winner_str\<close> and \<open>alert_text\<close> (the strings
    \<open>checkWinner\<close> returns and the message line 136 builds from them), \<open>handleClick\<close>, \<open>computerMove\<close>, \<open>effect\<close>, \<open>timeout_fire\<close>,
    \<open>reset_button\<close>, the effect chain \<open>settle\<close>, the events \<open>ui_step\<close>, the markup
    \<open>render\<close> (title, the nine cells with their click events, the Reset button), the
    events it and the timers make possible (\<open>enabled\<close>), the \<open>reachable\<close> states, and \<open>run\<close>, a sequence of events. Lemmas: the invariant of
    reachable states (C11), clicks on occupied squares are ignored (C12), late clicks after
    the end are accepted (C13), a round
    never raises the value (C14), from a position of value at most 0 the human never wins
    a game played until its end (C15), the effect chain is stable after two runs (C17), clicking every square once ends
    the game (C18). \<open>frame\<close> records what a click leaves alone; with it, a late click
    leaves a second timer that repeats the alert and wipes the next game (C23), and the
    Reset button leaves a pending timer that does the same (C24). Play without late clicks
    never reaches a board with lines of both players (C25). \<open>pending\<close> (a finished
    game has its timer) and \<open>alerts_ok\<close> (every pending timer captured a finished game,
    every message shown names a result) hold in every reachable state. A click's effect on
    the board and the ply depends only on the board and the ply (\<open>click_view\<close>); so after
    Reset every sequence of clicks replays as from the start (C28).
  \<^item> \<open>Strategy\<close>: strategy certificates, trees of moves checked against the board by
    \<open>strategy_ok\<close> and sound for \<open>game_value\<close> (\<open>strategy_sound\<close>). Certificates for the
    empty board give its value 0 (C19). Certificates for the children of two openings
    determine \<open>bestMove\<close> there through \<open>bestMove_by_bounds\<close>: the spec's first scenario
    (C20) and its tie-break scenario (C21); and the bot's answers in one whole game.
  \<^item> \<open>Symmetry\<close>: boards permuted by a list of indices (\<open>permute\<close>), the quarter turn
    \<open>rotation\<close> and the mirror \<open>reflection\<close>. Both map the winning lines onto winning
    lines (checked by evaluation), so \<open>game_value\<close> and the code's \<open>minimax\<close> score are
    the same on a board and its image, for boards without lines of both players (C30).
  This theory holds the
  properties that span the components. The app's reply to a click runs the shared-array
  \<open>bestMove\<close>, gets the live array back, and keeps the value (C16). From the start of
  the app the human never wins a game (C22): the controller's rounds keep the value, and
  the search's value of the empty board is 0. Every finished game in a reachable state is
  followed by a new one (C26). Its witness plays a whole game from \<open>ui_init\<close> in the
  kernel: the human clicks 4, 1, 2, 3 and the bot wins with 0, 7, 6, 8. No reachable
  state has shown "undefined wins!" or any message but the three results (C27). Every open
  position the app can reach scores at most 0 (\<open>reachable_value\<close>), so in the running
  app, under any interleaving of Resets, timers and late clicks, no click on an open game
  lets the human win (C29).

  \<^bold>\<open>Bounds and fuel.\<close> The search itself terminates by a measure (empty squares, then
  loop index), so no fuel is needed there; the shared-array version has no a-priori
  measure (the array comes back from the recursive call) and is a partial function whose
  totality is a theorem. The effect chain \<open>settle\<close> has fuel 3: a click changes the ply,
  the first effect run may move for the bot and change it again, the second run only
  schedules a timer, so two runs reach a state whose dependencies no longer change
  (\<open>settle_two_runs\<close>: more fuel gives the same result).
  The refinement holds while ply plus empty squares is at most 30, the range where the
  sentinels \<open>\<plusminus>20\<close> bound every score; in the game this sum is 9.

  \<^bold>\<open>Not modelled.\<close> The CSS import and the layout of the markup (\<open>render\<close> keeps
  only its text and the events of its handlers); React's scheduling
  beyond "effects run after a change of their dependencies, flushed after each click", and
  the 100 ms delay (timers fire in the order they were set, at any later event). The two
  state updates of the timer callback are taken as one render, as React 18 batches them;
  the React version is not fixed by the sources, and under React 17 the effect would run
  between \<open>setGameboard\<close> and \<open>setDepth\<close>.
  Kernel evaluation of the full search is feasible up to six empty squares. Positions
  with more empty squares are settled by the certificates of \<open>Strategy\<close>. Those
  visit one reply of the favoured player per position: 1280 nodes for the empty board.

  \<^bold>\<open>Remark.\<close> The symmetries preserve the score, but \<open>bestMove\<close>'s tie-break by index
  does not commute with them: the bot's reply on a rotated board need not be the rotated
  reply.
\<close>

section \<open>Properties across components\<close>

text \<open>A fresh game scores 0, and every open position the app can reach scores at most 0:
  rounds never raise the value, and the timer and the Reset button start fresh games.\<close>

lemma fresh_value: "cur s = replicate 9 Empty \<Longrightarrow> depth s = 0 \<Longrightarrow> minimax (cur s) (depth s) = 0"
  using minimax_game_value_bounded [of 0 "replicate 9 Empty"] empty_board_value empty_board_room
  by simp

lemma click_over:
  assumes "consistent s" "gameOver (cur s)" "index < 9"
  shows "gameOver (cur (ui_step s (Click index)))"
proof (cases "cur s ! index = Empty")
  case True
  have "gameboard s < length (heap s)" "length (cur s) = 9"
    using assms(1) wf_length_cur by (simp_all add: consistent_def ui_wf_def)
  with assms True show ?thesis
    unfolding click_late [OF assms(1,2,3) True] by (simp add: gameOver_update)
next
  case False
  show ?thesis unfolding click_occupied [OF False] by (rule assms(2))
qed

lemma reachable_value: "reachable s \<Longrightarrow> \<not> gameOver (cur s) \<Longrightarrow> minimax (cur s) (depth s) \<le> 0"
proof (induction rule: reachable.induct)
  case init
  have "minimax (cur ui_init) (depth ui_init) = 0"
    by (rule fresh_value) (simp_all add: ui_init_def cur_def)
  then show ?case by simp
next
  case (step s e)
  have c: "consistent s" using step.hyps(1) by (rule reachable_consistent)
  show ?case
  proof (cases e)
    case (Click index)
    with step.hyps(2) have i: "index < 9" by simp
    show ?thesis
    proof (cases "gameOver (cur s)")
      case True
      with click_over [OF c True i] step.prems Click show ?thesis by simp
    next
      case False
      with round_value [OF c False i] step.IH Click show ?thesis by simp
    qed
  next
    case Timeout
    with step.hyps(2) obtain r rs where rs: "timers s = r # rs" by (cases "timers s") auto
    show ?thesis unfolding Timeout timeout_step [OF rs]
      by (rule eq_refl [OF fresh_value]) (simp_all add: fresh_board_def cur_def)
  next
    case ResetClick
    show ?thesis unfolding ResetClick reset_step reset_button_def
      by (rule eq_refl [OF fresh_value]) (simp_all add: fresh_board_def cur_def)
  qed
qed

text \<open>
  C16. The controller, the shared-array search and the value model fit together: when a
  click of the human leaves the game open, the code's \<open>bestMove\<close> run on the live
  array returns that array unchanged and a square, the bot's nought lands on that square,
  and the position after the bot's move has the value of the position the human left.
\<close>

theorem app_reply_uses_inplace_search:
  assumes "consistent s" "\<not> gameOver (cur s)" "index < 9" "cur s ! index = Empty"
    and "\<not> gameOver ((cur s)[index := Cross])"
  shows "\<exists>m. bestMove_ip ((cur s)[index := Cross]) (Suc (depth s)) =
            Some (Some m, (cur s)[index := Cross]) \<and>
          cur (ui_step s (Click index)) = (cur s)[index := Cross, m := Nought] \<and>
          minimax (cur (ui_step s (Click index))) (depth (ui_step s (Click index))) =
            minimax ((cur s)[index := Cross]) (Suc (depth s))"
proof -
  let ?b1 = "(cur s)[index := Cross]"
  from click_round [OF assms(1-4)] assms(5) obtain m where m: "bestMove ?b1 (Suc (depth s)) = Some m"
    and st: "cur (ui_step s (Click index)) = ?b1[m := Nought]"
      "depth (ui_step s (Click index)) = Suc (Suc (depth s))"
    by blast
  have wf: "ui_wf s" and even: "even (depth s)"
    using assms(1,2) by (simp_all add: consistent_def turn_ok_def)
  have j: "index \<in> open_from (cur s) 0"
    using assms(3,4) wf_length_cur [OF wf] by (simp add: open_from_def)
  have room: "Suc (depth s) + empties ?b1 \<le> 30"
    using wf_empties [OF wf] empties_move [OF j, of Cross] by simp
  have "odd (Suc (depth s))" using even by simp
  from bestMove_value [OF this assms(5) room] m
  have v: "minimax (?b1[m := Nought]) (Suc (Suc (depth s))) = minimax ?b1 (Suc (depth s))" by simp
  have "bestMove_ip ?b1 (Suc (depth s)) = Some (Some m, ?b1)"
    using m by (simp add: bestMove_ip_def bestMove_ip_loop_pure bestMove_def)
  with st v show ?thesis by auto
qed

theorem app_reply_uses_inplace_search_witness:
  "consistent \<lparr>heap = [[Cross, Nought, Empty, Empty, Nought, Empty, Empty, Empty, Cross]],
      gameboard = 0, depth = 4, timers = [], alerts = []\<rparr> \<and>
   \<not> gameOver [Cross, Nought, Empty, Empty, Nought, Empty, Empty, Cross, Cross] \<and>
   (\<exists>m. bestMove_ip [Cross, Nought, Empty, Empty, Nought, Empty, Empty, Cross, Cross] 5 =
      Some (Some m, [Cross, Nought, Empty, Empty, Nought, Empty, Empty, Cross, Cross]))"
proof -
  let ?s = "\<lparr>heap = [[Cross, Nought, Empty, Empty, Nought, Empty, Empty, Empty, Cross]],
      gameboard = 0, depth = 4, timers = [], alerts = []\<rparr>"
  have h: "consistent ?s" "\<not> gameOver (cur ?s)" "(7::nat) < 9" "cur ?s ! 7 = Empty"
    "\<not> gameOver ((cur ?s)[7 := Cross])"
    by (simp_all add: ui_eval board_eval)
  have b: "(cur ?s)[7 := Cross] = [Cross, Nought, Empty, Empty, Nought, Empty, Empty, Cross, Cross]"
    "Suc (depth ?s) = 5"
    by (simp_all add: cur_def)
  from app_reply_uses_inplace_search [OF h] h(1,5) b show ?thesis by auto
qed

text \<open>
  C22. The bot never loses a game: in the app as it starts (\<open>ui_init\<close>), however the
  human clicks, the game never ends with \<open>checkWinner\<close> reporting \<open>"X"\<close>. The
  starting position is a draw (\<open>Strategy\<close>), and a round of play never raises its value.
\<close>

theorem bot_never_loses:
  "\<forall>i \<in> set clicks. i < 9 \<Longrightarrow> checkWinner (cur (play ui_init clicks)) \<noteq> Some XWins"
proof
  assume cl: "\<forall>i \<in> set clicks. i < 9" and x: "checkWinner (cur (play ui_init clicks)) = Some XWins"
  have "minimax (cur ui_init) (depth ui_init) = 0"
    by (rule fresh_value) (simp_all add: ui_init_def cur_def)
  with play_value [OF consistent_init cl] x_win_positive [OF _ x] show False by simp
qed

theorem bot_never_loses_witness:
  "checkWinner (cur (play ui_init [4, 0, 8, 2, 6])) \<noteq> Some XWins"
  using bot_never_loses [of "[4, 0, 8, 2, 6]"] by simp

text \<open>
  C26. Every finished game is followed by a new one. In every reachable state whose game is
  over, a timer is pending on the current array (so the \<open>Timeout\<close> event is enabled), and
  the timer's callback starts a new game: an empty board at ply 0.
\<close>

theorem finished_game_gets_reset:
  "reachable s \<Longrightarrow> gameOver (cur s) \<Longrightarrow>
   gameboard s \<in> set (timers s) \<and> cur (ui_step s Timeout) = replicate 9 Empty \<and>
   depth (ui_step s Timeout) = 0"
proof -
  assume r: "reachable s" and over: "gameOver (cur s)"
  then have t: "gameboard s \<in> set (timers s)" using reachable_pending [OF r] by (simp add: pending_def)
  then obtain x xs where xs: "timers s = x # xs" by (cases "timers s") auto
  show ?thesis unfolding timeout_step [OF xs] using t by (simp add: fresh_board_def cur_def)
qed

text \<open>A whole game from the start of the app: the human plays 4, 1, 2, 3, the bot answers
  0, 7, 6 and wins with 8.\<close>

lemma sample_game:
  "reachable (run ui_init [Click 4, Click 1, Click 2, Click 3]) \<and>
   gameOver (cur (run ui_init [Click 4, Click 1, Click 2, Click 3])) \<and>
   alerts (run ui_init [Click 4, Click 1, Click 2, Click 3]) = []"
proof -
  define s1 where "s1 = ui_step ui_init (Click 4)"
  define s2 where "s2 = ui_step s1 (Click 1)"
  define s3 where "s3 = ui_step s2 (Click 2)"
  define s4 where "s4 = ui_step s3 (Click 3)"
  have r4: "reachable s4"
    unfolding s4_def s3_def s2_def s1_def by (intro reachable.step reachable.init) simp_all
  have c0: "consistent ui_init" "cur ui_init = replicate 9 Empty" "depth ui_init = 0"
    by (rule consistent_init) (simp_all add: ui_init_def cur_def)
  have g0: "\<not> gameOver (replicate 9 Empty)" "\<not> gameOver ((replicate 9 Empty)[4 := Cross])"
    by code_simp+
  from click_reply [of ui_init 4 0] c0 g0 center_reply
  have c1: "consistent s1" "cur s1 = [Nought, Empty, Empty, Empty, Cross, Empty, Empty, Empty, Empty]"
    "depth s1 = 2"
    by (simp_all add: s1_def numeral_eq_Suc)
  have g1: "\<not> gameOver (cur s1)" "\<not> gameOver ((cur s1)[1 := Cross])"
    unfolding c1(2) by code_simp+
  from click_reply [of s1 1 7] c1 g1 block_reply
  have c2: "consistent s2" "cur s2 = [Nought, Cross, Empty, Empty, Cross, Empty, Empty, Nought, Empty]"
    "depth s2 = 4"
    by (simp_all add: s2_def numeral_eq_Suc)
  have g2: "\<not> gameOver (cur s2)" "\<not> gameOver ((cur s2)[2 := Cross])"
    "bestMove ((cur s2)[2 := Cross]) 5 = Some 6"
    unfolding c2(2) by code_simp+
  from click_reply [of s2 2 6] c2 g2
  have c3: "consistent s3" "cur s3 = [Nought, Cross, Cross, Empty, Cross, Empty, Nought, Nought, Empty]"
    "depth s3 = 6"
    by (simp_all add: s3_def numeral_eq_Suc)
  have g3: "\<not> gameOver (cur s3)" "\<not> gameOver ((cur s3)[3 := Cross])"
    "bestMove ((cur s3)[3 := Cross]) 7 = Some 8"
    unfolding c3(2) by code_simp+
  from click_reply [of s3 3 8] c3 g3
  have c4: "cur s4 = [Nought, Cross, Cross, Cross, Cross, Empty, Nought, Nought, Nought]"
    by (simp_all add: s4_def numeral_eq_Suc)
  have over: "gameOver (cur s4)" unfolding c4 by code_simp
  have "alerts s4 = alerts ui_init"
    by (simp only: s4_def s3_def s2_def s1_def alerts_click)
  with r4 over show ?thesis by (simp add: s4_def s3_def s2_def s1_def ui_init_def)
qed

theorem finished_game_gets_reset_witness:
  "gameOver (cur (run ui_init [Click 4, Click 1, Click 2, Click 3])) \<and>
   cur (ui_step (run ui_init [Click 4, Click 1, Click 2, Click 3]) Timeout) = replicate 9 Empty"
  using finished_game_gets_reset [of "run ui_init [Click 4, Click 1, Click 2, Click 3]"] sample_game
  by blast

text \<open>
  C27. The alert never shows "undefined wins!". In every reachable state, every message
  the timer callback has shown is one of "X wins!", "O wins!" and "It's a draw!": a timer
  is set only on a finished game, later clicks keep that game finished, and
  \<open>checkWinner\<close> of a finished game is never \<open>undefined\<close>.
\<close>

theorem alerts_name_a_result:
  "reachable s \<Longrightarrow>
   \<forall>a \<in> set (alerts s). a = ''X wins!'' \<or> a = ''O wins!'' \<or> a = ''It's a draw!''"
  using reachable_alerts_ok [of s] by (simp add: alerts_ok_def)

text \<open>After the sample game the timer fires and shows one message.\<close>

theorem alerts_name_a_result_witness:
  "reachable (ui_step (run ui_init [Click 4, Click 1, Click 2, Click 3]) Timeout) \<and>
   alerts (ui_step (run ui_init [Click 4, Click 1, Click 2, Click 3]) Timeout) \<noteq> [] \<and>
   set (alerts (ui_step (run ui_init [Click 4, Click 1, Click 2, Click 3]) Timeout)) \<subseteq>
     {''X wins!'', ''O wins!'', ''It's a draw!''}"
proof -
  let ?s = "run ui_init [Click 4, Click 1, Click 2, Click 3]"
  from sample_game have r: "reachable ?s" and over: "gameOver (cur ?s)" and a: "alerts ?s = []"
    by simp_all
  from reachable_pending [OF r] over obtain x xs where xs: "timers ?s = x # xs"
    by (cases "timers ?s") (auto simp: pending_def)
  have r5: "reachable (ui_step ?s Timeout)" using r xs by (intro reachable.step) simp_all
  moreover have "alerts (ui_step ?s Timeout) \<noteq> []"
    unfolding timeout_step [OF xs] by (simp add: fresh_board_def)
  ultimately show ?thesis using alerts_name_a_result [OF r5] by auto
qed

text \<open>
  C29. The human never wins in the running app. In every reachable state, whatever
  Resets, timer resets and late clicks came before, a click on an open game never
  produces a board on which \<open>checkWinner\<close> reports \<open>"X"\<close>: every reachable open
  position scores at most 0, and a round never raises the score.
\<close>

theorem human_never_wins_in_app:
  "reachable s \<Longrightarrow> \<not> gameOver (cur s) \<Longrightarrow> index < 9 \<Longrightarrow>
   checkWinner (cur (ui_step s (Click index))) \<noteq> Some XWins"
proof
  assume r: "reachable s" and ng: "\<not> gameOver (cur s)" and i: "index < 9"
    and x: "checkWinner (cur (ui_step s (Click index))) = Some XWins"
  have c: "consistent s" using r by (rule reachable_consistent)
  have "consistent (ui_step s (Click index))" using consistent_step [OF c, of "Click index"] i by simp
  from x_win_positive [OF this x] round_value [OF c ng i] reachable_value [OF r ng]
  show False by simp
qed

theorem human_never_wins_in_app_witness:
  "checkWinner (cur (ui_step ui_init (Click 4))) \<noteq> Some XWins"
proof -
  have h: "reachable ui_init" "\<not> gameOver (cur ui_init)" "(4::nat) < 9"
    by (rule reachable.init) (simp_all add: ui_init_def cur_def not_gameOver_empty)
  from human_never_wins_in_app [OF h] show ?thesis .
qed

end
